theory Spec2Isabelle
  imports Complex_Main "HOL-Library.Sublist" "HOL-Library.Multiset" "HOL-Library.Word"
    "HOL-Library.Char_ord" "HOL-Library.List_Lexorder" "HOL-Library.Product_Lexorder"
begin

section \<open>Shared data\<close>

text \<open>
  A Go \<open>error\<close> value is represented by the message it carries; \<open>nil\<close> is \<open>None\<close> of
  \<open>error option\<close>.
\<close>

datatype error = ErrorMsg string

fun message :: "error \<Rightarrow> string" where
  "message (ErrorMsg s) = s"

text \<open>\<open>fmt.Errorf(text + "%w", err)\<close>: the new message is the text and the old message.\<close>

definition wrap :: "string \<Rightarrow> error \<Rightarrow> error" where
  "wrap txt err = ErrorMsg (txt @ message err)"

subsection \<open>Schema-less objects\<close>

text \<open>
  \<open>unstructured.Unstructured\<close> wraps the decoded JSON of an API object: a
  \<open>map[string]interface{}\<close> whose values are nil, booleans, 64-bit integers, floats,
  strings, slices and nested maps. An object is the list of its entries (keys distinct);
  \<open>map_of\<close> is the lookup \<open>m[field]\<close>. No accessor used by the program reads a float, so
  its payload is kept abstract.
\<close>

datatype json =
    JNull
  | JBool bool
  | JInt "64 word"
  | JFloat real
  | JString string
  | JArray "json list"
  | JObject "(string \<times> json) list"

type_synonym object = "(string \<times> json) list"

definition accessorError :: error where
  "accessorError = ErrorMsg ''accessor error''"

text \<open>
  The nested-field helpers of k8s.io/apimachinery (package \<open>unstructured\<close>), which the
  program imports. Each returns Go's triple \<open>(value, found, err)\<close>. A nil value on the way
  ends the walk as not found; a value that is not a map ends it with an error.
\<close>

fun NestedFieldNoCopy :: "json \<Rightarrow> string list \<Rightarrow> json \<times> bool \<times> error option" where
  "NestedFieldNoCopy val [] = (val, True, None)"
| "NestedFieldNoCopy val (field # fields) =
     (case val of
        JNull \<Rightarrow> (JNull, False, None)
      | JObject m \<Rightarrow>
          (case map_of m field of
             None \<Rightarrow> (JNull, False, None)
           | Some v \<Rightarrow> NestedFieldNoCopy v fields)
      | _ \<Rightarrow> (JNull, False, Some accessorError))"

definition NestedString :: "object \<Rightarrow> string list \<Rightarrow> string \<times> bool \<times> error option" where
  "NestedString obj fields =
     (case NestedFieldNoCopy (JObject obj) fields of
        (val, found, err) \<Rightarrow>
          if \<not> found \<or> err \<noteq> None then ([], found, err)
          else (case val of
                  JString s \<Rightarrow> (s, True, None)
                | _ \<Rightarrow> ([], False, Some accessorError)))"

definition NestedBool :: "object \<Rightarrow> string list \<Rightarrow> bool \<times> bool \<times> error option" where
  "NestedBool obj fields =
     (case NestedFieldNoCopy (JObject obj) fields of
        (val, found, err) \<Rightarrow>
          if \<not> found \<or> err \<noteq> None then (False, found, err)
          else (case val of
                  JBool b \<Rightarrow> (b, True, None)
                | _ \<Rightarrow> (False, False, Some accessorError)))"

definition NestedInt64 :: "object \<Rightarrow> string list \<Rightarrow> 64 word \<times> bool \<times> error option" where
  "NestedInt64 obj fields =
     (case NestedFieldNoCopy (JObject obj) fields of
        (val, found, err) \<Rightarrow>
          if \<not> found \<or> err \<noteq> None then (0, found, err)
          else (case val of
                  JInt i \<Rightarrow> (i, True, None)
                | _ \<Rightarrow> (0, False, Some accessorError)))"

definition NestedSlice :: "object \<Rightarrow> string list \<Rightarrow> json list \<times> bool \<times> error option" where
  "NestedSlice obj fields =
     (case NestedFieldNoCopy (JObject obj) fields of
        (val, found, err) \<Rightarrow>
          if \<not> found \<or> err \<noteq> None then ([], found, err)
          else (case val of
                  JArray xs \<Rightarrow> (xs, True, None)
                | _ \<Rightarrow> ([], False, Some accessorError)))"

text \<open>
  \<open>NestedStringMap\<close> copies a map of strings and fails on the first value that is not a
  string; \<open>GetLabels\<close> drops the flags, so a failure yields the nil map.
\<close>

definition stringOf :: "json \<Rightarrow> string option" where
  "stringOf v = (case v of JString s \<Rightarrow> Some s | _ \<Rightarrow> None)"

definition NestedStringMap ::
    "object \<Rightarrow> string list \<Rightarrow> (string \<rightharpoonup> string) \<times> bool \<times> error option" where
  "NestedStringMap obj fields =
     (case NestedFieldNoCopy (JObject obj) fields of
        (val, found, err) \<Rightarrow>
          if \<not> found \<or> err \<noteq> None then (Map.empty, found, err)
          else (case val of
                  JObject m \<Rightarrow>
                    if list_all (\<lambda>(k, v). stringOf v \<noteq> None) m
                      then (\<lambda>k. Option.bind (map_of m k) stringOf, True, None)
                      else (Map.empty, False, Some accessorError)
                | _ \<Rightarrow> (Map.empty, False, Some accessorError)))"

definition GetName :: "object \<Rightarrow> string" where
  "GetName obj = fst (NestedString obj [''metadata'', ''name''])"

definition GetNamespace :: "object \<Rightarrow> string" where
  "GetNamespace obj = fst (NestedString obj [''metadata'', ''namespace''])"

definition GetKind :: "object \<Rightarrow> string" where
  "GetKind obj = fst (NestedString obj [''kind''])"

definition GetLabels :: "object \<Rightarrow> (string \<rightharpoonup> string)" where
  "GetLabels obj = fst (NestedStringMap obj [''metadata'', ''labels''])"

section \<open>Cluster directory (pkg/discovery)\<close>

text \<open>\<open>discovery.ClusterInfo\<close> (pkg/discovery/types.go).\<close>

record ClusterInfo =
  Name :: string
  DisplayName :: string
  Namespace :: string
  KubernetesVersion :: string
  Healthy :: bool
  Labels :: "string \<rightharpoonup> string"

text \<open>
  \<open>isClusterHealthy\<close>: the loop over \<open>status.conditions\<close> skips every element that is
  not a map and returns true at the first one whose type and status are the two marker
  strings.
\<close>

fun healthyLoop :: "json list \<Rightarrow> bool" where
  "healthyLoop [] = False"
| "healthyLoop (cond # conditions) =
     (case cond of
        JObject condMap \<Rightarrow>
          (let condType = fst (NestedString condMap [''type'']);
               status = fst (NestedString condMap [''status''])
           in if condType = ''ControlPlaneHealthy'' \<and> status = ''True'' then True
              else healthyLoop conditions)
      | _ \<Rightarrow> healthyLoop conditions)"

definition isClusterHealthy :: "object \<Rightarrow> bool" where
  "isClusterHealthy obj =
     (case NestedSlice obj [''status'', ''conditions''] of
        (conditions, found, err) \<Rightarrow>
          if err \<noteq> None \<or> \<not> found then False else healthyLoop conditions)"

text \<open>\<open>parseClusterProfile\<close> returns \<open>(cluster, nil)\<close> on every path.\<close>

definition parseClusterProfile :: "object \<Rightarrow> error + ClusterInfo" where
  "parseClusterProfile obj =
     (let cluster = \<lparr> Name = GetName obj, DisplayName = [], Namespace = GetNamespace obj,
                       KubernetesVersion = [], Healthy = False, Labels = GetLabels obj \<rparr>;
          cluster = (case NestedString obj [''spec'', ''displayName''] of
                       (displayName, found, err) \<Rightarrow>
                         if err = None \<and> found then cluster\<lparr>DisplayName := displayName\<rparr>
                         else cluster\<lparr>DisplayName := Name cluster\<rparr>);
          cluster = (case NestedString obj [''status'', ''version'', ''kubernetes''] of
                       (version, found, err) \<Rightarrow>
                         if err = None \<and> found then cluster\<lparr>KubernetesVersion := version\<rparr>
                         else cluster);
          cluster = cluster\<lparr>Healthy := isClusterHealthy obj\<rparr>
      in Inr cluster)"

text \<open>
  The health rule in the words of the specification: the record is healthy when its
  \<open>status.conditions\<close> list holds a condition of type "ControlPlaneHealthy" with status
  "True". A record without such a list has no conditions.
\<close>

definition field :: "json \<Rightarrow> string \<Rightarrow> json option" where
  "field v k = (case v of JObject m \<Rightarrow> map_of m k | _ \<Rightarrow> None)"

definition spec_conditions :: "object \<Rightarrow> json list" where
  "spec_conditions obj =
     (case map_of obj ''status'' of
        None \<Rightarrow> []
      | Some st \<Rightarrow> (case field st ''conditions'' of Some (JArray cs) \<Rightarrow> cs | _ \<Rightarrow> []))"

definition spec_healthy_condition :: "json \<Rightarrow> bool" where
  "spec_healthy_condition c =
     (field c ''type'' = Some (JString ''ControlPlaneHealthy'') \<and>
      field c ''status'' = Some (JString ''True''))"

definition spec_healthy :: "object \<Rightarrow> bool" where
  "spec_healthy obj = (\<exists>c \<in> set (spec_conditions obj). spec_healthy_condition c)"

text \<open>
  Three records as the tests of the package build them: a healthy one, one whose
  control-plane condition is "False", and one without a status.
\<close>

definition healthy_profile :: object where
  "healthy_profile =
     [(''apiVersion'', JString ''multicluster.x-k8s.io/v1alpha1''),
      (''kind'', JString ''ClusterProfile''),
      (''metadata'', JObject [(''name'', JString ''test-cluster''),
                              (''namespace'', JString ''default'')]),
      (''spec'', JObject [(''displayName'', JString ''Test Cluster'')]),
      (''status'', JObject
         [(''version'', JObject [(''kubernetes'', JString ''v1.30.0'')]),
          (''conditions'', JArray
             [JObject [(''type'', JString ''ControlPlaneHealthy''),
                       (''status'', JString ''True'')]])])]"

definition unhealthy_profile :: object where
  "unhealthy_profile =
     [(''metadata'', JObject [(''name'', JString ''unhealthy-cluster'')]),
      (''status'', JObject
         [(''conditions'', JArray
             [JObject [(''type'', JString ''ControlPlaneHealthy''),
                       (''status'', JString ''False'')]])])]"

definition bare_profile :: object where
  "bare_profile = [(''metadata'', JObject [(''name'', JString ''bare-cluster'')])]"

section \<open>Cluster selector (cmd/get.go)\<close>

text \<open>
  \<open>filepath.Match(pattern, name)\<close> belongs to the Go standard library. It returns the pair
  \<open>(matched, err)\<close>; the selector takes it as the parameter \<open>glob\<close>.
\<close>

type_synonym matcher = "string \<Rightarrow> string \<Rightarrow> bool \<times> error option"

text \<open>
  \<open>matchesAny\<close>: the loop over the patterns returns at the first pattern that is equal to
  the string or that the glob matcher accepts without an error.
\<close>

fun matchesAny :: "matcher \<Rightarrow> string \<Rightarrow> string list \<Rightarrow> bool" where
  "matchesAny glob str [] = False"
| "matchesAny glob str (pattern # patterns) =
     (if str = pattern then True
      else (case glob pattern str of
              (matched, err) \<Rightarrow>
                if err = None \<and> matched then True
                else matchesAny glob str patterns))"

text \<open>
  \<open>filterClusters\<close>: with both lists empty the input slice itself is returned; otherwise
  the loop appends every cluster that passes to \<open>filtered\<close>.
\<close>

definition filterStep :: "matcher \<Rightarrow> string list \<Rightarrow> string list \<Rightarrow>
    ClusterInfo list \<Rightarrow> ClusterInfo \<Rightarrow> ClusterInfo list" where
  "filterStep glob include exclude filtered cluster =
     (if matchesAny glob (Name cluster) exclude then filtered
      else if length include = 0 \<or> matchesAny glob (Name cluster) include
           then filtered @ [cluster]
           else filtered)"

definition filterClusters :: "matcher \<Rightarrow> ClusterInfo list \<Rightarrow> string list \<Rightarrow> string list \<Rightarrow>
    ClusterInfo list" where
  "filterClusters glob clusters include exclude =
     (if length include = 0 \<and> length exclude = 0 then clusters
      else foldl (filterStep glob include exclude) [] clusters)"

subsection \<open>The glob matcher of the Go standard library\<close>

text \<open>
  \<open>filepath.Match\<close> as path/filepath/match.go defines it on Unix (separator \<open>/\<close>,
  backslash escapes) since Go 1.16, with \<open>utf8.DecodeRuneInString\<close> for the runes it
  reads. It is the matcher the selector is run with; the selector's theorems hold for
  every matcher.
\<close>

definition ErrBadPattern :: error where
  "ErrBadPattern = ErrorMsg ''syntax error in pattern''"

definition RuneError :: nat where
  "RuneError = 65533"

definition byte :: "char \<Rightarrow> nat" where
  "byte c = of_char c"

definition cont :: "string \<Rightarrow> nat \<Rightarrow> nat \<Rightarrow> nat \<Rightarrow> bool" where
  "cont s i lo hi = (lo \<le> byte (s ! i) \<and> byte (s ! i) \<le> hi)"

definition DecodeRuneInString :: "string \<Rightarrow> nat \<times> nat" where
  "DecodeRuneInString s =
     (if length s < 1 then (RuneError, 0)
      else let s0 = byte (s ! 0) in
        if s0 < 128 then (s0, 1)
        else if s0 < 194 \<or> 244 < s0 then (RuneError, 1)
        else let sz = (if s0 < 224 then 2 else if s0 < 240 then 3 else 4 :: nat);
                 lo = (if s0 = 224 then 160 else if s0 = 240 then 144 else 128 :: nat);
                 hi = (if s0 = 237 then 159 else if s0 = 244 then 143 else 191 :: nat)
          in if length s < sz then (RuneError, 1)
             else if \<not> cont s 1 lo hi then (RuneError, 1)
             else if sz \<le> 2 then ((s0 mod 32) * 64 + byte (s ! 1) mod 64, 2)
             else if \<not> cont s 2 128 191 then (RuneError, 1)
             else if sz \<le> 3
               then ((s0 mod 16) * 4096 + (byte (s ! 1) mod 64) * 64 + byte (s ! 2) mod 64, 3)
             else if \<not> cont s 3 128 191 then (RuneError, 1)
             else ((s0 mod 8) * 262144 + (byte (s ! 1) mod 64) * 4096
                    + (byte (s ! 2) mod 64) * 64 + byte (s ! 3) mod 64, 4))"

lemma Decode_size_pos: "s \<noteq> [] \<Longrightarrow> 0 < snd (DecodeRuneInString s)"
  unfolding DecodeRuneInString_def Let_def by (simp split: if_splits)

text \<open>
  \<open>scanChunk\<close>: strip the leading stars, then cut the pattern before the next star that
  is outside a character class; an escaped byte is skipped with its backslash.
\<close>

fun scan :: "bool \<Rightarrow> string \<Rightarrow> string \<times> string" where
  "scan inrange [] = ([], [])"
| "scan inrange (c # cs) =
     (if c = CHR 0x5C then
        (case cs of
           [] \<Rightarrow> ([c], [])
         | d # ds \<Rightarrow> (case scan inrange ds of (a, b) \<Rightarrow> (c # d # a, b)))
      else if c = CHR ''['' then (case scan True cs of (a, b) \<Rightarrow> (c # a, b))
      else if c = CHR '']'' then (case scan False cs of (a, b) \<Rightarrow> (c # a, b))
      else if c = CHR ''*'' \<and> \<not> inrange then ([], c # cs)
      else (case scan inrange cs of (a, b) \<Rightarrow> (c # a, b)))"

definition scanChunk :: "string \<Rightarrow> bool \<times> string \<times> string" where
  "scanChunk pattern =
     (let star = (pattern \<noteq> [] \<and> hd pattern = CHR ''*'');
          p = dropWhile (\<lambda>c. c = CHR ''*'') pattern
      in case scan False p of (chunk, rest) \<Rightarrow> (star, chunk, rest))"

text \<open>\<open>getEsc\<close> reads one, possibly escaped, rune of a character class.\<close>

definition getEsc :: "string \<Rightarrow> nat \<times> string \<times> error option" where
  "getEsc chunk =
     (if chunk = [] \<or> hd chunk = CHR ''-'' \<or> hd chunk = CHR '']''
        then (0, [], Some ErrBadPattern)
      else let chunk1 = (if hd chunk = CHR 0x5C then tl chunk else chunk)
        in if chunk1 = [] then (0, [], Some ErrBadPattern)
           else case DecodeRuneInString chunk1 of
             (r, n) \<Rightarrow>
               let err1 = (if r = RuneError \<and> n = 1 then Some ErrBadPattern else None);
                   nchunk = drop n chunk1
               in (r, nchunk, if nchunk = [] then Some ErrBadPattern else err1))"

lemma getEsc_shorter:
  assumes "getEsc chunk = (r, nchunk, None)"
  shows "length nchunk < length chunk \<and> nchunk \<noteq> []"
proof -
  define chunk1 where "chunk1 = (if hd chunk = CHR 0x5C then tl chunk else chunk)"
  from assms have ne: "chunk \<noteq> []" "chunk1 \<noteq> []"
    by (auto simp: getEsc_def Let_def chunk1_def split: if_splits)
  obtain r' n where d: "DecodeRuneInString chunk1 = (r', n)"
    by (cases "DecodeRuneInString chunk1")
  from Decode_size_pos[OF ne(2)] d have n: "0 < n" by simp
  from assms ne d have nc: "nchunk = drop n chunk1" "nchunk \<noteq> []"
    by (auto simp: getEsc_def Let_def chunk1_def split: if_splits)
  have "length chunk1 \<le> length chunk" by (simp add: chunk1_def)
  with nc n ne show ?thesis by auto
qed


text \<open>
  The loop of \<open>matchChunk\<close> over the ranges of a character class, for the rune \<open>r\<close>
  read from the name: it ends at the closing bracket once a range has been read.
\<close>

function classLoop :: "nat \<Rightarrow> bool \<Rightarrow> nat \<Rightarrow> string \<Rightarrow> error + (bool \<times> string)" where
  "classLoop r match nrange chunk =
     (if chunk \<noteq> [] \<and> hd chunk = CHR '']'' \<and> 0 < nrange then Inr (match, tl chunk)
      else case getEsc chunk of
        (lo, chunk1, Some err) \<Rightarrow> Inl err
      | (lo, chunk1, None) \<Rightarrow>
          if hd chunk1 = CHR ''-'' then
            (case getEsc (tl chunk1) of
               (hi, chunk2, Some err) \<Rightarrow> Inl err
             | (hi, chunk2, None) \<Rightarrow>
                 classLoop r (match \<or> (lo \<le> r \<and> r \<le> hi)) (nrange + 1) chunk2)
          else classLoop r (match \<or> (lo \<le> r \<and> r \<le> lo)) (nrange + 1) chunk1)"
  by pat_completeness auto
termination
  apply (relation "measure (\<lambda>(r, m, n, chunk). length chunk)")
    apply simp
   apply (auto dest!: getEsc_shorter[OF sym] getEsc_shorter)
  done


declare classLoop.simps [simp del]

lemma classLoop_shorter:
  "classLoop r match nrange chunk = Inr (m, chunk') \<Longrightarrow> length chunk' \<le> length chunk"
proof (induction r match nrange chunk rule: classLoop.induct)
  case (1 r match nrange chunk)
  show ?case
  proof (cases "chunk \<noteq> [] \<and> hd chunk = CHR '']'' \<and> 0 < nrange")
    case True
    with "1.prems" show ?thesis by (auto simp add: classLoop.simps[of r match nrange chunk])
  next
    case False
    have unf: "classLoop r match nrange chunk =
      (case getEsc chunk of
        (lo, chunk1, Some err) \<Rightarrow> Inl err
      | (lo, chunk1, None) \<Rightarrow>
          if hd chunk1 = CHR ''-'' then
            (case getEsc (tl chunk1) of
               (hi, chunk2, Some err) \<Rightarrow> Inl err
             | (hi, chunk2, None) \<Rightarrow>
                 classLoop r (match \<or> (lo \<le> r \<and> r \<le> hi)) (nrange + 1) chunk2)
          else classLoop r (match \<or> (lo \<le> r \<and> r \<le> lo)) (nrange + 1) chunk1)"
      by (subst classLoop.simps) (rule if_not_P[OF False])
    obtain lo chunk1 e1 where g1: "getEsc chunk = (lo, chunk1, e1)"
      by (cases "getEsc chunk") auto
    from g1 "1.prems" have e1: "e1 = None"
      by (cases e1) (simp_all add: unf)
    note s1 = getEsc_shorter[OF g1[unfolded e1]]
    show ?thesis
    proof (cases "hd chunk1 = CHR ''-''")
      case dash: True
      obtain hi chunk2 e2 where g2: "getEsc (tl chunk1) = (hi, chunk2, e2)"
        by (cases "getEsc (tl chunk1)") auto
      from g1 e1 dash g2 "1.prems" have e2: "e2 = None"
        by (cases e2) (simp_all add: unf)
      note s2 = getEsc_shorter[OF g2[unfolded e2]]
      from g1 e1 dash g2 e2 "1.prems"
      have "classLoop r (match \<or> (lo \<le> r \<and> r \<le> hi)) (nrange + 1) chunk2 = Inr (m, chunk')"
        by (simp add: unf)
      from "1.IH"(1)[OF False g1[symmetric] refl e1 dash g2[symmetric] refl e2 this]
      have "length chunk' \<le> length chunk2" .
      with s1 s2 show ?thesis by auto
    next
      case nodash: False
      from g1 e1 nodash "1.prems"
      have "classLoop r (match \<or> (lo \<le> r \<and> r \<le> lo)) (nrange + 1) chunk1 = Inr (m, chunk')"
        by (simp add: unf)
      from "1.IH"(2)[OF False g1[symmetric] refl e1 nodash this]
      have "length chunk' \<le> length chunk1" .
      with s1 show ?thesis by auto
    qed
  qed
qed


text \<open>
  \<open>matchChunk\<close>: after the match has failed the loop goes on over the chunk to check
  that it is well formed, without reading the name.
\<close>

function matchChunkLoop :: "bool \<Rightarrow> string \<Rightarrow> string \<Rightarrow> string \<times> bool \<times> error option" where
  "matchChunkLoop failed chunk s =
     (if chunk = [] then (if failed then ([], False, None) else (s, True, None))
      else
        let failed1 = (failed \<or> s = []) in
        if hd chunk = CHR ''['' then
          (let r = (if \<not> failed1 then fst (DecodeRuneInString s) else 0);
               s1 = (if \<not> failed1 then drop (snd (DecodeRuneInString s)) s else s);
               chunk1 = tl chunk;
               negated = (chunk1 \<noteq> [] \<and> hd chunk1 = CHR ''^'');
               chunk2 = (if negated then tl chunk1 else chunk1)
           in case classLoop r False 0 chunk2 of
                Inl err \<Rightarrow> ([], False, Some err)
              | Inr (match, chunk3) \<Rightarrow>
                  matchChunkLoop (failed1 \<or> match = negated) chunk3 s1)
        else if hd chunk = CHR ''?'' then
          (if \<not> failed1
             then matchChunkLoop (hd s = CHR ''/'') (tl chunk)
                    (drop (snd (DecodeRuneInString s)) s)
             else matchChunkLoop failed1 (tl chunk) s)
        else if hd chunk = CHR 0x5C \<and> tl chunk = [] then ([], False, Some ErrBadPattern)
        else
          (let chunk1 = (if hd chunk = CHR 0x5C then tl chunk else chunk) in
           if \<not> failed1
             then matchChunkLoop (hd chunk1 \<noteq> hd s) (tl chunk1) (tl s)
             else matchChunkLoop failed1 (tl chunk1) s))"
  by pat_completeness auto
termination
  apply (relation "measure (\<lambda>(failed, chunk, s). length chunk)")
       apply simp
      apply (auto dest!: classLoop_shorter[OF sym] classLoop_shorter split: if_splits
                  simp: neq_Nil_conv)
  done

declare matchChunkLoop.simps [simp del]

definition matchChunk :: "string \<Rightarrow> string \<Rightarrow> string \<times> bool \<times> error option" where
  "matchChunk chunk s = matchChunkLoop False chunk s"

text \<open>
  The loop of \<open>Match\<close> after a star: try the chunk at every later position of the name,
  up to the first separator. The result is the rest of the name after a match (\<open>Inr\<close>),
  an error of the pattern (\<open>Inl (Some err)\<close>), or neither when the loop ends.
\<close>

fun starLoop :: "string \<Rightarrow> string \<Rightarrow> string \<Rightarrow> error option + string" where
  "starLoop chunk pattern [] = Inl None"
| "starLoop chunk pattern (c # cs) =
     (if c = CHR ''/'' then Inl None
      else case matchChunk chunk cs of
        (t, ok, err) \<Rightarrow>
          if ok then (if pattern = [] \<and> t \<noteq> [] then starLoop chunk pattern cs else Inr t)
          else if err \<noteq> None then Inl err
          else starLoop chunk pattern cs)"

lemma scan_length: "scan inrange p = (a, b) \<Longrightarrow> length b \<le> length p"
  by (induction inrange p arbitrary: a b rule: scan.induct)
     (fastforce split: if_splits list.splits prod.splits)+

lemma scan_shorter:
  "p \<noteq> [] \<Longrightarrow> hd p \<noteq> CHR ''*'' \<Longrightarrow> scan inrange p = (a, b) \<Longrightarrow> length b < length p"
  by (cases p) (auto split: if_splits list.splits prod.splits dest!: scan_length)

lemma scanChunk_shorter:
  assumes "pattern \<noteq> []" and "scanChunk pattern = (star, chunk, rest)"
  shows "length rest < length pattern"
proof -
  let ?p = "dropWhile (\<lambda>c. c = CHR ''*'') pattern"
  from assms(2) have sc: "scan False ?p = (chunk, rest)"
    by (auto simp: scanChunk_def Let_def split: prod.splits)
  show ?thesis
  proof (cases "hd pattern = CHR ''*''")
    case True
    with assms(1) have "length ?p < length pattern"
      by (cases pattern) (auto intro: le_imp_less_Suc length_dropWhile_le)
    with scan_length[OF sc] show ?thesis by simp
  next
    case False
    with assms(1) have "?p = pattern" by (cases pattern) auto
    with sc scan_shorter[of pattern False chunk rest] assms(1) False show ?thesis by simp
  qed
qed

text \<open>
  \<open>Match\<close> of package path/filepath. When no chunk matches it answers "no match"
  at once, without looking at the rest of the pattern: a malformed rest goes unreported.
\<close>

function Match :: "string \<Rightarrow> string \<Rightarrow> bool \<times> error option" where
  "Match pattern name =
     (if pattern = [] then (name = [], None)
      else case scanChunk pattern of
        (star, chunk, rest) \<Rightarrow>
          if star \<and> chunk = [] then (CHR ''/'' \<notin> set name, None)
          else case matchChunk chunk name of
            (t, ok, err) \<Rightarrow>
              if ok \<and> (t = [] \<or> rest \<noteq> []) then Match rest t
              else if err \<noteq> None then (False, err)
              else if star then
                (case starLoop chunk rest name of
                   Inl (Some err') \<Rightarrow> (False, Some err')
                 | Inl None \<Rightarrow> (False, None)
                 | Inr t' \<Rightarrow> Match rest t')
              else (False, None))"
  by pat_completeness auto
termination
  apply (relation "measure (\<lambda>(pattern, name). length pattern)")
    apply simp
   apply (auto dest!: scanChunk_shorter[OF _ sym])
  done

declare Match.simps [simp del]

text \<open>A directory entry with the given name, for the worked examples.\<close>

definition cluster_named :: "string \<Rightarrow> ClusterInfo" where
  "cluster_named n = \<lparr> Name = n, DisplayName = n, Namespace = ''open-cluster-management'',
                        KubernetesVersion = [], Healthy = True, Labels = Map.empty \<rparr>"

text \<open>
  The selection rule in the words of the specification: a pattern matches a name when it
  is the same string or when the glob matcher reports a match; a name is selected when no
  exclude pattern matches it and the include list is empty or has a matching pattern.
\<close>

definition spec_matches :: "matcher \<Rightarrow> string \<Rightarrow> string \<Rightarrow> bool" where
  "spec_matches glob pattern name = (name = pattern \<or> glob pattern name = (True, None))"

definition spec_selected :: "matcher \<Rightarrow> string list \<Rightarrow> string list \<Rightarrow> string \<Rightarrow> bool" where
  "spec_selected glob include exclude name =
     ((\<not> (\<exists>p \<in> set exclude. spec_matches glob p name)) \<and>
      (include = [] \<or> (\<exists>p \<in> set include. spec_matches glob p name)))"

text \<open>The test the loop body of \<open>filterClusters\<close> applies to one cluster.\<close>

definition passes :: "matcher \<Rightarrow> string list \<Rightarrow> string list \<Rightarrow> ClusterInfo \<Rightarrow> bool" where
  "passes glob include exclude cluster =
     (\<not> matchesAny glob (Name cluster) exclude \<and>
      (length include = 0 \<or> matchesAny glob (Name cluster) include))"


section \<open>Context resolver (pkg/kubeconfig)\<close>

record ClusterMapping =
  MappingName :: string
  Context :: string
  MappingNamespace :: string

record MappingConfig =
  APIVersion :: string
  Kind :: string
  HubContext :: string
  Clusters :: "ClusterMapping list"

record Manager =
  configPath :: string
  config :: MappingConfig

fun GetContextLoop :: "ClusterMapping list \<Rightarrow> string \<Rightarrow> error + string" where
  "GetContextLoop [] clusterName =
     Inl (ErrorMsg (''no context mapping found for cluster '' @ clusterName))"
| "GetContextLoop (mapping # mappings) clusterName =
     (if MappingName mapping = clusterName then Inr (Context mapping)
      else GetContextLoop mappings clusterName)"

definition GetContext :: "Manager \<Rightarrow> string \<Rightarrow> error + string" where
  "GetContext m clusterName = GetContextLoop (Clusters (config m)) clusterName"

section \<open>Fan-out executor (pkg/executor)\<close>

subsection \<open>Result types\<close>

text \<open>
  \<open>ClusterResult\<close>, \<open>AggregatedResults\<close>, \<open>ResultSummary\<close> and \<open>ExecutorConfig\<close>
  (pkg/executor/types.go). The counters are Go \<open>int\<close>s that count elements of a slice
  held in memory, so they are modelled by unbounded integers.
\<close>

text \<open>
  Modelled from the spec: the field \<open>Output\<close> of \<open>ClusterResult\<close>, the free text of a
  describe-style query (the spec's narrative output). pkg/aggregator/describe.go and its
  tests read it; the declaration of the type at hand does not list it, and the get path
  leaves it empty.
\<close>

record ClusterResult =
  ClusterName :: string
  Success :: bool
  Items :: "object list"
  Output :: string
  Error :: "error option"

record ResultSummary =
  Total :: int
  Successful :: int
  Failed :: int
  Errors :: "string \<rightharpoonup> error"

record AggregatedResults =
  Results :: "ClusterResult list"
  Summary :: ResultSummary

record ExecutorConfig =
  MaxConcurrency :: int
  TimeoutSeconds :: int
  ContinueOnError :: bool

definition DefaultConfig :: ExecutorConfig where
  "DefaultConfig = \<lparr> MaxConcurrency = 10, TimeoutSeconds = 30, ContinueOnError = True \<rparr>"

definition NewAggregatedResults :: "ClusterInfo list \<Rightarrow> AggregatedResults" where
  "NewAggregatedResults clusters =
     \<lparr> Results = [],
       Summary = \<lparr> Total = int (length clusters), Successful = 0, Failed = 0,
                   Errors = Map.empty \<rparr> \<rparr>"

definition AddResult :: "AggregatedResults \<Rightarrow> ClusterResult \<Rightarrow> AggregatedResults" where
  "AddResult ar result =
     (let ar = ar\<lparr>Results := Results ar @ [result]\<rparr>;
          sm = Summary ar
      in if Success result then ar\<lparr>Summary := sm\<lparr>Successful := Successful sm + 1\<rparr>\<rparr>
         else
           (let sm = sm\<lparr>Failed := Failed sm + 1\<rparr>
            in case Error result of
                 Some err \<Rightarrow>
                   ar\<lparr>Summary := sm\<lparr>Errors := (Errors sm)(ClusterName result \<mapsto> err)\<rparr>\<rparr>
               | None \<Rightarrow> ar\<lparr>Summary := sm\<rparr>))"

text \<open>
  A round's bookkeeping: the results of the clusters are added, in their order of arrival,
  to the value that \<open>NewAggregatedResults\<close> made for the submitted clusters.
\<close>

definition collectRound :: "ClusterInfo list \<Rightarrow> ClusterResult list \<Rightarrow> AggregatedResults" where
  "collectRound clusters rs = foldl AddResult (NewAggregatedResults clusters) rs"

definition failedWithoutError :: "ClusterResult \<Rightarrow> bool" where
  "failedWithoutError r = (\<not> Success r \<and> Error r = None)"

definition failedWithError :: "ClusterResult \<Rightarrow> bool" where
  "failedWithError r = (\<not> Success r \<and> Error r \<noteq> None)"

text \<open>Results for the worked examples.\<close>

definition okResult :: "string \<Rightarrow> object list \<Rightarrow> ClusterResult" where
  "okResult n items =
     \<lparr> ClusterName = n, Success = True, Items = items, Output = [], Error = None \<rparr>"

definition failedResult :: "string \<Rightarrow> error option \<Rightarrow> ClusterResult" where
  "failedResult n err = \<lparr> ClusterName = n, Success = False, Items = [], Output = [], Error = err \<rparr>"

subsection \<open>Querying one cluster\<close>

record GroupVersionResource =
  Group :: string
  Version :: string
  Resource :: string

definition commonResources :: "(string \<times> GroupVersionResource) list" where
  "commonResources =
     [(''pods'', \<lparr> Group = [], Version = ''v1'', Resource = ''pods'' \<rparr>),
      (''pod'', \<lparr> Group = [], Version = ''v1'', Resource = ''pods'' \<rparr>),
      (''services'', \<lparr> Group = [], Version = ''v1'', Resource = ''services'' \<rparr>),
      (''service'', \<lparr> Group = [], Version = ''v1'', Resource = ''services'' \<rparr>),
      (''deployments'', \<lparr> Group = ''apps'', Version = ''v1'', Resource = ''deployments'' \<rparr>),
      (''deployment'', \<lparr> Group = ''apps'', Version = ''v1'', Resource = ''deployments'' \<rparr>),
      (''configmaps'', \<lparr> Group = [], Version = ''v1'', Resource = ''configmaps'' \<rparr>),
      (''configmap'', \<lparr> Group = [], Version = ''v1'', Resource = ''configmaps'' \<rparr>),
      (''secrets'', \<lparr> Group = [], Version = ''v1'', Resource = ''secrets'' \<rparr>),
      (''secret'', \<lparr> Group = [], Version = ''v1'', Resource = ''secrets'' \<rparr>),
      (''namespaces'', \<lparr> Group = [], Version = ''v1'', Resource = ''namespaces'' \<rparr>),
      (''namespace'', \<lparr> Group = [], Version = ''v1'', Resource = ''namespaces'' \<rparr>)]"

definition resolveGVR :: "string \<Rightarrow> error + GroupVersionResource" where
  "resolveGVR resource =
     (case map_of commonResources resource of
        None \<Rightarrow> Inl (ErrorMsg (''unknown resource type: '' @ resource))
      | Some gvr \<Rightarrow> Inr gvr)"

text \<open>
  What lies outside the program: loading the REST configuration of a kubeconfig context,
  building the clients, and the two requests to a cluster's API server. A request runs
  under the context that \<open>Get\<close> derives with the per-cluster timeout, so a timeout or a
  cancelled context is one of the errors a request can answer with. The arguments of a
  request are the kubeconfig context, the resource, the namespace (empty for all
  namespaces) and, for \<open>ResourceGet\<close>, the object's name.
\<close>

record World =
  ClientConfig :: "string \<Rightarrow> error option"
  DynamicNewForConfig :: "string \<Rightarrow> error option"
  DiscoveryNewForConfig :: "string \<Rightarrow> error option"
  ResourceGet :: "string \<Rightarrow> GroupVersionResource \<Rightarrow> string \<Rightarrow> string \<Rightarrow> error + object"
  ResourceList :: "string \<Rightarrow> GroupVersionResource \<Rightarrow> string \<Rightarrow> error + object list"

text \<open>\<open>client.Factory\<close> (pkg/client/factory.go); a client is named by its context.\<close>

record Factory =
  factoryContext :: string

definition NewFactory :: "string \<Rightarrow> error + Factory" where
  "NewFactory ctx = Inr \<lparr> factoryContext = ctx \<rparr>"

definition DynamicClient :: "World \<Rightarrow> Factory \<Rightarrow> error + string" where
  "DynamicClient w f =
     (case ClientConfig w (factoryContext f) of
        Some err \<Rightarrow> Inl (wrap ''failed to get REST config: '' err)
      | None \<Rightarrow>
          (case DynamicNewForConfig w (factoryContext f) of
             Some err \<Rightarrow> Inl err
           | None \<Rightarrow> Inr (factoryContext f)))"

definition DiscoveryClient :: "World \<Rightarrow> Factory \<Rightarrow> error + string" where
  "DiscoveryClient w f =
     (case ClientConfig w (factoryContext f) of
        Some err \<Rightarrow> Inl (wrap ''failed to get REST config: '' err)
      | None \<Rightarrow>
          (case DiscoveryNewForConfig w (factoryContext f) of
             Some err \<Rightarrow> Inl err
           | None \<Rightarrow> Inr (factoryContext f)))"

text \<open>\<open>Executor\<close>; its \<open>configFlags\<close> are passed on to the factory and read nowhere else.\<close>

record Executor =
  mappingManager :: Manager
  executorConfig :: ExecutorConfig

definition NewExecutor :: "Manager \<Rightarrow> Executor" where
  "NewExecutor m = \<lparr> mappingManager = m, executorConfig = DefaultConfig \<rparr>"

text \<open>
  \<open>getFromCluster\<close>: every failure is stored in the result, which keeps the cluster's
  name and \<open>Success = false\<close>; nothing is raised.
\<close>

definition getFromCluster ::
    "Executor \<Rightarrow> World \<Rightarrow> ClusterInfo \<Rightarrow> string \<Rightarrow> string \<Rightarrow> string \<Rightarrow> ClusterResult" where
  "getFromCluster e w cluster resource name namespace =
     (let result = \<lparr> ClusterName = Name cluster, Success = False, Items = [], Output = [],
                      Error = None \<rparr>
      in case GetContext (mappingManager e) (Name cluster) of
        Inl err \<Rightarrow>
          result\<lparr>Error := Some (ErrorMsg
            (''no kubeconfig context mapped for cluster '' @ Name cluster))\<rparr>
      | Inr contextName \<Rightarrow>
      (case NewFactory contextName of
        Inl err \<Rightarrow> result\<lparr>Error := Some (wrap ''failed to create client factory: '' err)\<rparr>
      | Inr factory \<Rightarrow>
      (case DynamicClient w factory of
        Inl err \<Rightarrow> result\<lparr>Error := Some (wrap ''failed to create dynamic client: '' err)\<rparr>
      | Inr dynamicClient \<Rightarrow>
      (case DiscoveryClient w factory of
        Inl err \<Rightarrow> result\<lparr>Error := Some (wrap ''failed to create discovery client: '' err)\<rparr>
      | Inr discoveryClient \<Rightarrow>
      (case resolveGVR resource of
        Inl err \<Rightarrow> result\<lparr>Error := Some (wrap ''failed to resolve resource type: '' err)\<rparr>
      | Inr gvr \<Rightarrow>
          if name \<noteq> [] then
            (case ResourceGet w dynamicClient gvr namespace name of
               Inl err \<Rightarrow> result\<lparr>Error := Some (wrap ''failed to get resource: '' err)\<rparr>
             | Inr item \<Rightarrow> result\<lparr>Items := Items result @ [item], Success := True\<rparr>)
          else
            (case ResourceList w dynamicClient gvr namespace of
               Inl err \<Rightarrow> result\<lparr>Error := Some (wrap ''failed to list resources: '' err)\<rparr>
             | Inr items \<Rightarrow> result\<lparr>Items := Items result @ items, Success := True\<rparr>))))))"

subsection \<open>The fan-out round\<close>

text \<open>
  \<open>Executor.Get\<close> starts one goroutine per cluster, each of which takes a slot of the
  semaphore, queries its cluster, sends the result on \<open>resultChan\<close> and, in its deferred
  calls, gives the slot back and reports to the wait group. A further goroutine closes the
  channel when the wait group is done; the caller adds every received result and returns
  when the channel is closed and drained. The state of a round:
  \<^item> \<open>unspawned\<close>: the clusters the \<open>for\<close> loop has not reached;
  \<^item> \<open>waiting\<close>: goroutines blocked on \<open>sem <- struct{}{}\<close>;
  \<^item> \<open>running\<close>: goroutines that hold a slot and have not sent their result;
  \<^item> \<open>leaving\<close>: goroutines that have sent their result and still hold their slot;
  \<^item> \<open>resultChan\<close>: the buffer of the channel, of capacity \<open>len(clusters)\<close>;
  \<^item> \<open>closed\<close>: whether the channel has been closed;
  \<^item> \<open>results\<close>: the value being filled by \<open>AddResult\<close>.
\<close>

record GetState =
  unspawned :: "ClusterInfo list"
  waiting :: "ClusterInfo list"
  running :: "ClusterInfo list"
  leaving :: "ClusterInfo list"
  resultChan :: "ClusterResult list"
  closed :: bool
  results :: AggregatedResults

definition Get_init :: "ClusterInfo list \<Rightarrow> GetState" where
  "Get_init clusters =
     \<lparr> unspawned = clusters, waiting = [], running = [], leaving = [], resultChan = [],
       closed = False, results = NewAggregatedResults clusters \<rparr>"

text \<open>
  One step of the round, by any goroutine that can move. The scheduler and the world are
  free: a rule may fire for any goroutine, and a query may meet any world.
\<close>

inductive Get_step ::
    "Executor \<Rightarrow> ClusterInfo list \<Rightarrow> string \<Rightarrow> string \<Rightarrow> string \<Rightarrow> GetState \<Rightarrow> GetState \<Rightarrow> bool"
  for e :: Executor and clusters :: "ClusterInfo list"
    and resource :: string and name :: string and namespace :: string
where
  spawn:
    "unspawned s = c # cs \<Longrightarrow>
     Get_step e clusters resource name namespace s
       (s\<lparr>unspawned := cs, waiting := waiting s @ [c]\<rparr>)"
| acquire:
    "c \<in> set (waiting s) \<Longrightarrow>
     int (length (running s) + length (leaving s)) < MaxConcurrency (executorConfig e) \<Longrightarrow>
     Get_step e clusters resource name namespace s
       (s\<lparr>waiting := remove1 c (waiting s), running := running s @ [c]\<rparr>)"
| send:
    "c \<in> set (running s) \<Longrightarrow> \<not> closed s \<Longrightarrow>
     length (resultChan s) < length clusters \<Longrightarrow>
     Get_step e clusters resource name namespace s
       (s\<lparr>running := remove1 c (running s), leaving := leaving s @ [c],
          resultChan := resultChan s @ [getFromCluster e w c resource name namespace]\<rparr>)"
| release:
    "c \<in> set (leaving s) \<Longrightarrow>
     Get_step e clusters resource name namespace s (s\<lparr>leaving := remove1 c (leaving s)\<rparr>)"
| close:
    "unspawned s = [] \<Longrightarrow> waiting s = [] \<Longrightarrow> running s = [] \<Longrightarrow> leaving s = [] \<Longrightarrow>
     \<not> closed s \<Longrightarrow>
     Get_step e clusters resource name namespace s (s\<lparr>closed := True\<rparr>)"
| collect:
    "unspawned s = [] \<Longrightarrow> resultChan s = r # rs \<Longrightarrow>
     Get_step e clusters resource name namespace s
       (s\<lparr>resultChan := rs, results := AddResult (results s) r\<rparr>)"

inductive Get_reaches ::
    "Executor \<Rightarrow> ClusterInfo list \<Rightarrow> string \<Rightarrow> string \<Rightarrow> string \<Rightarrow> GetState \<Rightarrow> bool"
  for e :: Executor and clusters :: "ClusterInfo list"
    and resource :: string and name :: string and namespace :: string
where
  start: "Get_reaches e clusters resource name namespace (Get_init clusters)"
| step:
    "Get_reaches e clusters resource name namespace s \<Longrightarrow>
     Get_step e clusters resource name namespace s s' \<Longrightarrow>
     Get_reaches e clusters resource name namespace s'"

text \<open>
  \<open>Get\<close> returns \<open>results\<close> when the loop over the channel ends: the channel is closed and
  its buffer is empty.
\<close>

definition Get_returned :: "GetState \<Rightarrow> bool" where
  "Get_returned s = (unspawned s = [] \<and> closed s \<and> resultChan s = [])"

text \<open>The work a round still has to do; every step makes it smaller.\<close>

definition Get_pending :: "GetState \<Rightarrow> nat" where
  "Get_pending s =
     6 * length (unspawned s) + 5 * length (waiting s) + 4 * length (running s)
       + 2 * length (leaving s) + length (resultChan s) + (if closed s then 0 else 1)"

text \<open>
  The cluster names a round accounts for: those still to be queried and those of the
  results in the channel and in \<open>Results\<close>.
\<close>

definition Get_names :: "GetState \<Rightarrow> string multiset" where
  "Get_names s =
     mset (map Name (unspawned s)) + mset (map Name (waiting s)) + mset (map Name (running s))
       + mset (map ClusterName (resultChan s))
       + mset (map ClusterName (Results (results s)))"

text \<open>
  What holds in every state of a round: each submitted cluster is either still to be
  queried or has its one result in the channel or in \<open>Results\<close>; the total is the
  number of submitted clusters; the counters add up to the number of collected results;
  and the channel is closed only when no goroutine is left.
\<close>

definition Get_inv :: "ClusterInfo list \<Rightarrow> GetState \<Rightarrow> bool" where
  "Get_inv clusters s =
     (Get_names s = mset (map Name clusters)
      \<and> Total (Summary (results s)) = int (length clusters)
      \<and> Successful (Summary (results s)) + Failed (Summary (results s))
          = int (length (Results (results s)))
      \<and> (closed s \<longrightarrow> unspawned s = [] \<and> waiting s = [] \<and> running s = [] \<and> leaving s = []))"

text \<open>
  A round over one mapped cluster whose request is answered with the error of a cancelled
  context, and the states of its run.
\<close>

definition one_manager :: Manager where
  "one_manager =
     \<lparr> configPath = ''/home/op/.kube/kubectl-mc-clusters.yaml'',
       config = \<lparr> APIVersion = ''kubectl-mc.k8s.io/v1alpha1'', Kind = ''ClusterMapping'',
                  HubContext = [],
                  Clusters = [\<lparr> MappingName = ''cluster1'', Context = ''kind-cluster1'',
                                 MappingNamespace = [] \<rparr>] \<rparr> \<rparr>"

definition cancelled_world :: World where
  "cancelled_world =
     \<lparr> ClientConfig = (\<lambda>c. None), DynamicNewForConfig = (\<lambda>c. None),
       DiscoveryNewForConfig = (\<lambda>c. None),
       ResourceGet = (\<lambda>c g ns n. Inl (ErrorMsg ''context canceled'')),
       ResourceList = (\<lambda>c g ns. Inl (ErrorMsg ''context canceled'')) \<rparr>"

definition cancelled_result :: ClusterResult where
  "cancelled_result =
     failedResult ''cluster1'' (Some (ErrorMsg ''failed to list resources: context canceled''))"

definition round_state ::
    "ClusterInfo list \<Rightarrow> ClusterInfo list \<Rightarrow> ClusterInfo list \<Rightarrow> ClusterInfo list \<Rightarrow>
     ClusterResult list \<Rightarrow> bool \<Rightarrow> ClusterResult list \<Rightarrow> GetState" where
  "round_state u w r l ch cl rs =
     \<lparr> unspawned = u, waiting = w, running = r, leaving = l, resultChan = ch, closed = cl,
       results = collectRound [cluster_named ''cluster1''] rs \<rparr>"

text \<open>
  A round over three clusters: one succeeds, one fails with an error and one fails with
  a nil error, arriving in an order other than the submission order.
\<close>

definition mixed_clusters :: "ClusterInfo list" where
  "mixed_clusters = [cluster_named ''a'', cluster_named ''b'', cluster_named ''c'']"

definition mixed_results :: "ClusterResult list" where
  "mixed_results =
     [failedResult ''b'' (Some (ErrorMsg ''connection timeout'')), okResult ''a'' [],
      failedResult ''c'' None]"

section \<open>Aggregator (pkg/aggregator)\<close>

subsection \<open>Output and library calls\<close>

text \<open>
  A call of \<open>fmt.Fprintf\<close>, \<open>fmt.Fprintln\<close> or \<open>fmt.Fprint\<close> on a writer is recorded as
  the call itself, with its format string and arguments (\<open>S\<close> a string, \<open>D\<close> an integer,
  a width for \<open>*\<close> included); what a writer has received is the list of these calls.
\<close>

datatype arg = S string | D int

datatype emit = Fprintf string "arg list" | Fprintln string | Fprint string

text \<open>
  What the aggregators and the commands take from the Go runtime and library:
  \<open>sort.Slice\<close> (on the two slice types it is called with), \<open>strings.ToLower\<close>,
  \<open>time.Parse\<close> with the RFC 3339 layout, \<open>time.Since\<close>, and the order in which a
  \<open>range\<close> loop visits the keys of the error map, which Go leaves open. An instant and
  a \<open>time.Duration\<close> are integers, in nanoseconds.
\<close>

type_synonym 'a sorter = "('a \<Rightarrow> 'a \<Rightarrow> bool) \<Rightarrow> 'a list \<Rightarrow> 'a list"

record ItemWithCluster =
  Item :: object
  Cluster :: string

record Runtime =
  sortItems :: "ItemWithCluster sorter"
  sortResults :: "ClusterResult sorter"
  ToLower :: "string \<Rightarrow> string"
  timeParse :: "string \<Rightarrow> error + int"
  timeSince :: "int \<Rightarrow> int"
  rangeErrors :: "(string \<rightharpoonup> error) \<Rightarrow> string list"

text \<open>
  What \<open>sort.Slice\<close> promises for a comparison \<open>lt\<close>: the slice is rearranged so that
  no element is less than an earlier one. It does not promise to keep the order of
  elements that compare equal.
\<close>

definition sorts :: "'a sorter \<Rightarrow> ('a \<Rightarrow> 'a \<Rightarrow> bool) \<Rightarrow> bool" where
  "sorts srt lt =
     (\<forall>xs. mset (srt lt xs) = mset xs \<and> sorted_wrt (\<lambda>a b. \<not> lt b a) (srt lt xs))"

subsection \<open>Decimal numerals\<close>

text \<open>\<open>%d\<close> of \<open>fmt.Sprintf\<close>, where the program measures the text it produces.\<close>

function digits :: "nat \<Rightarrow> string" where
  "digits n =
     (if n < 10 then [''0123456789'' ! n]
      else digits (n div 10) @ [''0123456789'' ! (n mod 10)])"
  by pat_completeness auto
termination
  by (relation "measure id") auto

declare digits.simps [simp del]

definition itoa :: "int \<Rightarrow> string" where
  "itoa i = (if i < 0 then CHR ''-'' # digits (nat (- i)) else digits (nat i))"

subsection \<open>Age of a resource\<close>

definition noneValue :: string where
  "noneValue = ''<none>''"

definition Second :: int where "Second = 1000000000"
definition Minute :: int where "Minute = 60 * Second"
definition Hour :: int where "Hour = 60 * Minute"

text \<open>
  Go's integer division and remainder round towards zero, and so does the conversion
  \<open>int(f)\<close> of a float.
\<close>

definition quo :: "int \<Rightarrow> int \<Rightarrow> int" where
  "quo a b = (if (a < 0) = (b < 0) then \<bar>a\<bar> div \<bar>b\<bar> else - (\<bar>a\<bar> div \<bar>b\<bar>))"

definition rem :: "int \<Rightarrow> int \<Rightarrow> int" where
  "rem a b = a - b * quo a b"

definition intOfFloat :: "real \<Rightarrow> int" where
  "intOfFloat x = (if 0 \<le> x then \<lfloor>x\<rfloor> else \<lceil>x\<rceil>)"

text \<open>
  Arithmetic on \<open>float64\<close>. An operation yields its exact result rounded to the
  nearest number with a significand of 53 bits, a tie going to the even significand. The
  range of the exponent is left open: the magnitudes other than zero that the program
  computes lie between \<open>2e-13\<close> and \<open>1e10\<close>, far from overflow and from the
  subnormal numbers.
\<close>

text \<open>The integer nearest to a number, a tie going to the even one.\<close>

definition roundEven :: "real \<Rightarrow> int" where
  "roundEven z =
     (let f = \<lfloor>z\<rfloor>; r = z - of_int f
      in if r < 1 / 2 then f else if 1 / 2 < r then f + 1
         else if even f then f else f + 1)"

text \<open>
  The number of times a number of at least one is halved until it is below two, and
  the number of times a positive number below one is doubled until it reaches one.
\<close>

function halvings :: "real \<Rightarrow> nat" where
  "halvings x = (if x < 2 then 0 else Suc (halvings (x / 2)))"
  by pat_completeness auto
termination
  apply (relation "measure (\<lambda>x. nat \<lfloor>x\<rfloor>)")
   apply simp
  apply (simp add: not_less)
  apply linarith
  done

declare halvings.simps [simp del]

lemma ceiling_half_less:
  fixes y :: real
  assumes "1 < y"
  shows "\<lceil>y / 2\<rceil> < \<lceil>y\<rceil>"
proof (cases "y \<le> 2")
  case True
  then have "y / 2 \<le> 1" by simp
  then have "\<lceil>y / 2\<rceil> \<le> 1" by (simp only: ceiling_le_iff of_int_1)
  moreover from assms have "1 < \<lceil>y\<rceil>" by (simp only: less_ceiling_iff of_int_1)
  ultimately show ?thesis by linarith
next
  case False
  then have "y / 2 \<le> y - 1" by simp
  then have "\<lceil>y / 2\<rceil> \<le> \<lceil>y - 1\<rceil>" by (rule ceiling_mono)
  then show ?thesis by simp
qed

function doublings :: "real \<Rightarrow> nat" where
  "doublings x = (if x \<le> 0 \<or> 1 \<le> x then 0 else Suc (doublings (2 * x)))"
  by pat_completeness auto
termination
proof (relation "measure (\<lambda>x. nat \<lceil>1 / x\<rceil>)")
  show "wf (measure (\<lambda>x. nat \<lceil>1 / x\<rceil>))" by simp
next
  fix x :: real
  assume "\<not> (x \<le> 0 \<or> 1 \<le> x)"
  then have x: "0 < x" "x < 1" by auto
  then have y: "1 < 1 / x" by simp
  have e: "1 / (2 * x) = (1 / x) / 2" by simp
  have "\<lceil>1 / (2 * x)\<rceil> < \<lceil>1 / x\<rceil>"
    unfolding e using y by (rule ceiling_half_less)
  moreover have "0 < \<lceil>1 / x\<rceil>" using y by linarith
  ultimately show "(2 * x, x) \<in> measure (\<lambda>x. nat \<lceil>1 / x\<rceil>)"
    by (simp only: in_measure zless_nat_conj)
qed

declare doublings.simps [simp del]

text \<open>The whole part of the binary logarithm of a positive number.\<close>

definition exponent :: "real \<Rightarrow> int" where
  "exponent x = (if 1 \<le> x then int (halvings x) else - int (doublings x))"

text \<open>
  Rounding to \<open>float64\<close>: the multiple of the quantum \<open>2 powi (exponent - 52)\<close>
  nearest to the number, a tie going to the even multiple.
\<close>

definition float64 :: "real \<Rightarrow> real" where
  "float64 x =
     (if x = 0 then 0
      else let u = 2 powi (exponent \<bar>x\<bar> - 52)
           in sgn x * of_int (roundEven (\<bar>x\<bar> / u)) * u)"

text \<open>
  \<open>Duration.Seconds\<close>, \<open>Minutes\<close> and \<open>Hours\<close> as package \<open>time\<close> computes
  them: the quotient and the remainder by the unit are converted to \<open>float64\<close>, the
  remainder is divided by the unit and the two are added. The conversions, the division
  and the sum each round.
\<close>

definition Seconds :: "int \<Rightarrow> real" where
  "Seconds d =
     (let sec = quo d Second; nsec = rem d Second
      in float64 (float64 (of_int sec) + float64 (float64 (of_int nsec) / 1000000000)))"

definition Minutes :: "int \<Rightarrow> real" where
  "Minutes d =
     (let min = quo d Minute; nsec = rem d Minute
      in float64 (float64 (of_int min) + float64 (float64 (of_int nsec) / (60 * 1000000000))))"

definition Hours :: "int \<Rightarrow> real" where
  "Hours d =
     (let hour = quo d Hour; nsec = rem d Hour
      in float64 (float64 (of_int hour)
           + float64 (float64 (of_int nsec) / (60 * 60 * 1000000000))))"

definition formatDuration :: "int \<Rightarrow> string" where
  "formatDuration d =
     (if d < Minute then itoa (intOfFloat (Seconds d)) @ ''s''
      else if d < Hour then itoa (intOfFloat (Minutes d)) @ ''m''
      else if d < 24 * Hour then itoa (intOfFloat (Hours d)) @ ''h''
      else (let days = intOfFloat (float64 (Hours d / 24)) in itoa days @ ''d''))"

text \<open>The shape that the three conversions share, for a unit \<open>c\<close>.\<close>

definition wholeAndFraction :: "int \<Rightarrow> int \<Rightarrow> real" where
  "wholeAndFraction c d =
     float64 (float64 (of_int (quo d c)) + float64 (float64 (of_int (rem d c)) / of_int c))"

definition calculateAge :: "Runtime \<Rightarrow> object \<Rightarrow> string" where
  "calculateAge rt obj =
     (case NestedString obj [''metadata'', ''creationTimestamp''] of
        (creationTime, found, err) \<Rightarrow>
          if \<not> found \<or> creationTime = [] then noneValue
          else (case timeParse rt creationTime of
                  Inl err \<Rightarrow> noneValue
                | Inr t \<Rightarrow> formatDuration (timeSince rt t)))"

subsection \<open>Table aggregator: collecting and ordering\<close>

text \<open>
  The first loop of \<open>AggregateGetResults\<close>: the results of failed clusters are skipped,
  every item of the others is appended with its cluster's name.
\<close>

definition appendItems :: "ItemWithCluster list \<Rightarrow> ClusterResult \<Rightarrow> ItemWithCluster list" where
  "appendItems allItems result =
     (if \<not> Success result then allItems
      else foldl (\<lambda>acc item. acc @ [\<lparr> Item = item, Cluster = ClusterName result \<rparr>])
             allItems (Items result))"

definition collectItems :: "AggregatedResults \<Rightarrow> ItemWithCluster list" where
  "collectItems ar = foldl appendItems [] (Results ar)"

text \<open>
  The comparison given to \<open>sort.Slice\<close>: by cluster, then namespace, then name. Go orders
  strings byte by byte, which is the lexicographic order of \<open>string\<close>.
\<close>

definition itemLess :: "ItemWithCluster \<Rightarrow> ItemWithCluster \<Rightarrow> bool" where
  "itemLess a b =
     (if Cluster a \<noteq> Cluster b then Cluster a < Cluster b
      else
        let nsI = fst (NestedString (Item a) [''metadata'', ''namespace'']);
            nsJ = fst (NestedString (Item b) [''metadata'', ''namespace''])
        in if nsI \<noteq> nsJ then nsI < nsJ
           else
             let nameI = fst (NestedString (Item a) [''metadata'', ''name'']);
                 nameJ = fst (NestedString (Item b) [''metadata'', ''name''])
             in nameI < nameJ)"

text \<open>The three-part key of the specification.\<close>

definition itemKey :: "ItemWithCluster \<Rightarrow> string \<times> string \<times> string" where
  "itemKey a =
     (Cluster a, fst (NestedString (Item a) [''metadata'', ''namespace'']),
      fst (NestedString (Item a) [''metadata'', ''name'']))"

subsection \<open>Table aggregator: the four tables\<close>

definition nl :: string where
  "nl = [CHR 0x0A]"

text \<open>\<open>if len(s) > w { w = len(s) }\<close>\<close>

definition widen :: "int \<Rightarrow> string \<Rightarrow> int" where
  "widen w s = (if int (length s) > w then int (length s) else w)"

fun Join :: "string list \<Rightarrow> string \<Rightarrow> string" where
  "Join [] sep = []"
| "Join [x] sep = x"
| "Join (x # y # ys) sep = x @ sep @ Join (y # ys) sep"

definition metaNamespace :: "ItemWithCluster \<Rightarrow> string" where
  "metaNamespace item = fst (NestedString (Item item) [''metadata'', ''namespace''])"

definition metaName :: "ItemWithCluster \<Rightarrow> string" where
  "metaName item = fst (NestedString (Item item) [''metadata'', ''name''])"

paragraph \<open>Pods\<close>

record podColumnWidths =
  pod_namespace :: int
  pod_name :: int
  pod_cluster :: int
  pod_ready :: int
  pod_status :: int
  pod_restarts :: int

fun readyContainers :: "json list \<Rightarrow> int \<Rightarrow> int" where
  "readyContainers [] readyCount = readyCount"
| "readyContainers (cs # rest) readyCount =
     (case cs of
        JObject csMap \<Rightarrow>
          (case NestedBool csMap [''ready''] of
             (isReady, found, err) \<Rightarrow>
               readyContainers rest (if found \<and> isReady then readyCount + 1 else readyCount))
      | _ \<Rightarrow> readyContainers rest readyCount)"

fun containerCounts :: "json list \<Rightarrow> int \<Rightarrow> 64 word \<Rightarrow> int \<times> 64 word" where
  "containerCounts [] readyCount restarts = (readyCount, restarts)"
| "containerCounts (cs # rest) readyCount restarts =
     (case cs of
        JObject csMap \<Rightarrow>
          (let readyCount =
                 (case NestedBool csMap [''ready''] of
                    (isReady, found, err) \<Rightarrow>
                      if found \<and> isReady then readyCount + 1 else readyCount);
               restarts =
                 (case NestedInt64 csMap [''restartCount''] of
                    (cnt, found, err) \<Rightarrow> if found then restarts + cnt else restarts)
           in containerCounts rest readyCount restarts)
      | _ \<Rightarrow> containerCounts rest readyCount restarts)"

definition podWidthStep :: "podColumnWidths \<Rightarrow> ItemWithCluster \<Rightarrow> podColumnWidths" where
  "podWidthStep widths item =
     (let ns = metaNamespace item;
          name = metaName item;
          phase = fst (NestedString (Item item) [''status'', ''phase'']);
          widths = widths\<lparr>pod_namespace := widen (pod_namespace widths) ns\<rparr>;
          widths = widths\<lparr>pod_name := widen (pod_name widths) name\<rparr>;
          widths = widths\<lparr>pod_cluster := widen (pod_cluster widths) (Cluster item)\<rparr>;
          widths =
            (case NestedSlice (Item item) [''status'', ''containerStatuses''] of
               (containerStatuses, found, err) \<Rightarrow>
                 if found then
                   (let total = int (length containerStatuses);
                        readyCount = readyContainers containerStatuses 0;
                        readyStr = itoa readyCount @ ''/'' @ itoa total
                    in widths\<lparr>pod_ready := widen (pod_ready widths) readyStr\<rparr>)
                 else widths)
      in widths\<lparr>pod_status := widen (pod_status widths) phase\<rparr>)"

definition calculatePodColumnWidths :: "ItemWithCluster list \<Rightarrow> podColumnWidths" where
  "calculatePodColumnWidths items =
     (let widths = \<lparr> pod_namespace = int (length ''NAMESPACE''), pod_name = int (length ''NAME''),
                      pod_cluster = int (length ''CLUSTER''), pod_ready = int (length ''READY''),
                      pod_status = int (length ''STATUS''),
                      pod_restarts = int (length ''RESTARTS'') \<rparr>;
          widths = foldl podWidthStep widths items
      in \<lparr> pod_namespace = pod_namespace widths + 2, pod_name = pod_name widths + 2,
           pod_cluster = pod_cluster widths + 2, pod_ready = pod_ready widths + 2,
           pod_status = pod_status widths + 2, pod_restarts = pod_restarts widths + 2 \<rparr>)"

definition podRow :: "Runtime \<Rightarrow> podColumnWidths \<Rightarrow> ItemWithCluster \<Rightarrow> emit" where
  "podRow rt widths item =
     (let ns = metaNamespace item;
          name = metaName item;
          phase = fst (NestedString (Item item) [''status'', ''phase'']);
          counts =
            (case NestedSlice (Item item) [''status'', ''containerStatuses''] of
               (containerStatuses, found, err) \<Rightarrow>
                 if found then
                   (case containerCounts containerStatuses 0 0 of
                      (readyCount, restarts) \<Rightarrow>
                        (itoa readyCount @ ''/'' @ itoa (int (length containerStatuses)),
                         restarts))
                 else (''0/0'', 0));
          age = calculateAge rt (Item item)
      in Fprintf (''%-*s %-*s %-*s %-*s %-*s %-*d %s'' @ nl)
           [D (pod_namespace widths), S ns, D (pod_name widths), S name,
            D (pod_cluster widths), S (Cluster item), D (pod_ready widths), S (fst counts),
            D (pod_status widths), S phase, D (pod_restarts widths), D (sint (snd counts)),
            S age])"

definition formatPods :: "Runtime \<Rightarrow> ItemWithCluster list \<Rightarrow> emit list \<times> error option" where
  "formatPods rt items =
     (let widths = calculatePodColumnWidths items
      in (Fprintf (''%-*s %-*s %-*s %-*s %-*s %-*s %s'' @ nl)
            [D (pod_namespace widths), S ''NAMESPACE'', D (pod_name widths), S ''NAME'',
             D (pod_cluster widths), S ''CLUSTER'', D (pod_ready widths), S ''READY'',
             D (pod_status widths), S ''STATUS'', D (pod_restarts widths), S ''RESTARTS'',
             S ''AGE'']
          # map (podRow rt widths) items, None))"

paragraph \<open>Deployments\<close>

record deploymentColumnWidths =
  dep_namespace :: int
  dep_name :: int
  dep_cluster :: int
  dep_ready :: int
  dep_upToDate :: int
  dep_available :: int

definition replicasReady :: "ItemWithCluster \<Rightarrow> string" where
  "replicasReady item =
     (let replicas = fst (NestedInt64 (Item item) [''status'', ''replicas'']);
          readyReplicas = fst (NestedInt64 (Item item) [''status'', ''readyReplicas''])
      in itoa (sint readyReplicas) @ ''/'' @ itoa (sint replicas))"

definition deploymentWidthStep ::
    "deploymentColumnWidths \<Rightarrow> ItemWithCluster \<Rightarrow> deploymentColumnWidths" where
  "deploymentWidthStep widths item =
     (let widths = widths\<lparr>dep_namespace := widen (dep_namespace widths) (metaNamespace item)\<rparr>;
          widths = widths\<lparr>dep_name := widen (dep_name widths) (metaName item)\<rparr>;
          widths = widths\<lparr>dep_cluster := widen (dep_cluster widths) (Cluster item)\<rparr>
      in widths\<lparr>dep_ready := widen (dep_ready widths) (replicasReady item)\<rparr>)"

definition calculateDeploymentColumnWidths ::
    "ItemWithCluster list \<Rightarrow> deploymentColumnWidths" where
  "calculateDeploymentColumnWidths items =
     (let widths = \<lparr> dep_namespace = int (length ''NAMESPACE''), dep_name = int (length ''NAME''),
                      dep_cluster = int (length ''CLUSTER''), dep_ready = int (length ''READY''),
                      dep_upToDate = int (length ''UP-TO-DATE''),
                      dep_available = int (length ''AVAILABLE'') \<rparr>;
          widths = foldl deploymentWidthStep widths items
      in \<lparr> dep_namespace = dep_namespace widths + 2, dep_name = dep_name widths + 2,
           dep_cluster = dep_cluster widths + 2, dep_ready = dep_ready widths + 2,
           dep_upToDate = dep_upToDate widths + 2, dep_available = dep_available widths + 2 \<rparr>)"

definition deploymentRow :: "Runtime \<Rightarrow> deploymentColumnWidths \<Rightarrow> ItemWithCluster \<Rightarrow> emit" where
  "deploymentRow rt widths item =
     (let updatedReplicas = fst (NestedInt64 (Item item) [''status'', ''updatedReplicas'']);
          availableReplicas = fst (NestedInt64 (Item item) [''status'', ''availableReplicas'']);
          age = calculateAge rt (Item item)
      in Fprintf (''%-*s %-*s %-*s %-*s %-*d %-*d %s'' @ nl)
           [D (dep_namespace widths), S (metaNamespace item), D (dep_name widths),
            S (metaName item), D (dep_cluster widths), S (Cluster item),
            D (dep_ready widths), S (replicasReady item),
            D (dep_upToDate widths), D (sint updatedReplicas),
            D (dep_available widths), D (sint availableReplicas), S age])"

definition formatDeployments ::
    "Runtime \<Rightarrow> ItemWithCluster list \<Rightarrow> emit list \<times> error option" where
  "formatDeployments rt items =
     (let widths = calculateDeploymentColumnWidths items
      in (Fprintf (''%-*s %-*s %-*s %-*s %-*s %-*s %s'' @ nl)
            [D (dep_namespace widths), S ''NAMESPACE'', D (dep_name widths), S ''NAME'',
             D (dep_cluster widths), S ''CLUSTER'', D (dep_ready widths), S ''READY'',
             D (dep_upToDate widths), S ''UP-TO-DATE'',
             D (dep_available widths), S ''AVAILABLE'', S ''AGE'']
          # map (deploymentRow rt widths) items, None))"

paragraph \<open>Services\<close>

record serviceColumnWidths =
  svc_namespace :: int
  svc_name :: int
  svc_cluster :: int
  svc_svcType :: int
  svc_clusterIP :: int
  svc_externalIP :: int
  svc_ports :: int

fun portStrings :: "json list \<Rightarrow> string list \<Rightarrow> string list" where
  "portStrings [] portStrs = portStrs"
| "portStrings (p # rest) portStrs =
     (case p of
        JObject pMap \<Rightarrow>
          (let port = fst (NestedInt64 pMap [''port'']);
               protocol = fst (NestedString pMap [''protocol''])
           in portStrings rest (portStrs @ [itoa (sint port) @ ''/'' @ protocol]))
      | _ \<Rightarrow> portStrings rest portStrs)"

definition servicePorts :: "ItemWithCluster \<Rightarrow> string" where
  "servicePorts item =
     (case NestedSlice (Item item) [''spec'', ''ports''] of
        (portsSlice, found, err) \<Rightarrow>
          if found \<and> length portsSlice > 0 then
            (let portStrs = portStrings portsSlice []
             in if length portStrs > 0 then Join portStrs '','' else noneValue)
          else noneValue)"

definition serviceWidthStep :: "serviceColumnWidths \<Rightarrow> ItemWithCluster \<Rightarrow> serviceColumnWidths" where
  "serviceWidthStep widths item =
     (let svcType = fst (NestedString (Item item) [''spec'', ''type'']);
          clusterIP = fst (NestedString (Item item) [''spec'', ''clusterIP'']);
          widths = widths\<lparr>svc_namespace := widen (svc_namespace widths) (metaNamespace item)\<rparr>;
          widths = widths\<lparr>svc_name := widen (svc_name widths) (metaName item)\<rparr>;
          widths = widths\<lparr>svc_cluster := widen (svc_cluster widths) (Cluster item)\<rparr>;
          widths = widths\<lparr>svc_svcType := widen (svc_svcType widths) svcType\<rparr>;
          widths = widths\<lparr>svc_clusterIP := widen (svc_clusterIP widths) clusterIP\<rparr>
      in widths\<lparr>svc_ports := widen (svc_ports widths) (servicePorts item)\<rparr>)"

definition calculateServiceColumnWidths :: "ItemWithCluster list \<Rightarrow> serviceColumnWidths" where
  "calculateServiceColumnWidths items =
     (let widths = \<lparr> svc_namespace = int (length ''NAMESPACE''), svc_name = int (length ''NAME''),
                      svc_cluster = int (length ''CLUSTER''), svc_svcType = int (length ''TYPE''),
                      svc_clusterIP = int (length ''CLUSTER-IP''),
                      svc_externalIP = int (length ''EXTERNAL-IP''),
                      svc_ports = int (length ''PORT(S)'') \<rparr>;
          widths = foldl serviceWidthStep widths items
      in \<lparr> svc_namespace = svc_namespace widths + 2, svc_name = svc_name widths + 2,
           svc_cluster = svc_cluster widths + 2, svc_svcType = svc_svcType widths + 2,
           svc_clusterIP = svc_clusterIP widths + 2, svc_externalIP = svc_externalIP widths + 2,
           svc_ports = svc_ports widths + 2 \<rparr>)"

definition serviceRow :: "Runtime \<Rightarrow> serviceColumnWidths \<Rightarrow> ItemWithCluster \<Rightarrow> emit" where
  "serviceRow rt widths item =
     (let svcType = fst (NestedString (Item item) [''spec'', ''type'']);
          clusterIP = fst (NestedString (Item item) [''spec'', ''clusterIP'']);
          externalIP = noneValue;
          age = calculateAge rt (Item item)
      in Fprintf (''%-*s %-*s %-*s %-*s %-*s %-*s %-*s %s'' @ nl)
           [D (svc_namespace widths), S (metaNamespace item), D (svc_name widths),
            S (metaName item), D (svc_cluster widths), S (Cluster item),
            D (svc_svcType widths), S svcType, D (svc_clusterIP widths), S clusterIP,
            D (svc_externalIP widths), S externalIP,
            D (svc_ports widths), S (servicePorts item), S age])"

definition formatServices :: "Runtime \<Rightarrow> ItemWithCluster list \<Rightarrow> emit list \<times> error option" where
  "formatServices rt items =
     (let widths = calculateServiceColumnWidths items
      in (Fprintf (''%-*s %-*s %-*s %-*s %-*s %-*s %-*s %s'' @ nl)
            [D (svc_namespace widths), S ''NAMESPACE'', D (svc_name widths), S ''NAME'',
             D (svc_cluster widths), S ''CLUSTER'', D (svc_svcType widths), S ''TYPE'',
             D (svc_clusterIP widths), S ''CLUSTER-IP'',
             D (svc_externalIP widths), S ''EXTERNAL-IP'',
             D (svc_ports widths), S ''PORT(S)'', S ''AGE'']
          # map (serviceRow rt widths) items, None))"

paragraph \<open>Any other resource\<close>

record genericColumnWidths =
  gen_namespace :: int
  gen_name :: int
  gen_cluster :: int
  gen_kind :: int

definition genericNamespace :: "ItemWithCluster \<Rightarrow> string" where
  "genericNamespace item = (if metaNamespace item = [] then noneValue else metaNamespace item)"

definition genericWidthStep :: "genericColumnWidths \<Rightarrow> ItemWithCluster \<Rightarrow> genericColumnWidths" where
  "genericWidthStep widths item =
     (let widths = widths\<lparr>gen_namespace := widen (gen_namespace widths) (genericNamespace item)\<rparr>;
          widths = widths\<lparr>gen_name := widen (gen_name widths) (metaName item)\<rparr>;
          widths = widths\<lparr>gen_cluster := widen (gen_cluster widths) (Cluster item)\<rparr>
      in widths\<lparr>gen_kind := widen (gen_kind widths) (GetKind (Item item))\<rparr>)"

definition calculateGenericColumnWidths :: "ItemWithCluster list \<Rightarrow> genericColumnWidths" where
  "calculateGenericColumnWidths items =
     (let widths = \<lparr> gen_namespace = int (length ''NAMESPACE''), gen_name = int (length ''NAME''),
                      gen_cluster = int (length ''CLUSTER''), gen_kind = int (length ''KIND'') \<rparr>;
          widths = foldl genericWidthStep widths items
      in \<lparr> gen_namespace = gen_namespace widths + 2, gen_name = gen_name widths + 2,
           gen_cluster = gen_cluster widths + 2, gen_kind = gen_kind widths + 2 \<rparr>)"

definition genericRow :: "Runtime \<Rightarrow> genericColumnWidths \<Rightarrow> ItemWithCluster \<Rightarrow> emit" where
  "genericRow rt widths item =
     Fprintf (''%-*s %-*s %-*s %-*s %s'' @ nl)
       [D (gen_namespace widths), S (genericNamespace item), D (gen_name widths),
        S (metaName item), D (gen_cluster widths), S (Cluster item),
        D (gen_kind widths), S (GetKind (Item item)), S (calculateAge rt (Item item))]"

definition formatGeneric :: "Runtime \<Rightarrow> ItemWithCluster list \<Rightarrow> emit list \<times> error option" where
  "formatGeneric rt items =
     (let widths = calculateGenericColumnWidths items
      in (Fprintf (''%-*s %-*s %-*s %-*s %s'' @ nl)
            [D (gen_namespace widths), S ''NAMESPACE'', D (gen_name widths), S ''NAME'',
             D (gen_cluster widths), S ''CLUSTER'', D (gen_kind widths), S ''KIND'', S ''AGE'']
          # map (genericRow rt widths) items, None))"

subsection \<open>Table aggregator: \<open>AggregateGetResults\<close>\<close>

text \<open>The table for a resource type, chosen by the \<open>switch\<close> on its lower-case form.\<close>

definition formatTable ::
    "Runtime \<Rightarrow> string \<Rightarrow> ItemWithCluster list \<Rightarrow> emit list \<times> error option" where
  "formatTable rt resourceType allItems =
     (let t = ToLower rt resourceType
      in if t = ''pod'' \<or> t = ''pods'' then formatPods rt allItems
         else if t = ''deployment'' \<or> t = ''deployments'' then formatDeployments rt allItems
         else if t = ''service'' \<or> t = ''services'' then formatServices rt allItems
         else formatGeneric rt allItems)"

definition AggregateGetResults ::
    "Runtime \<Rightarrow> AggregatedResults \<Rightarrow> string \<Rightarrow> emit list \<times> error option" where
  "AggregateGetResults rt ar resourceType =
     (let allItems = collectItems ar
      in if length allItems = 0 then ([Fprintln ''No resources found''], None)
         else formatTable rt resourceType (sortItems rt itemLess allItems))"

text \<open>
  The keys of the items that the successful clusters returned, in the words of the
  specification: cluster name, namespace and object name of every item, the items of
  failed clusters left out.
\<close>

definition successfulKeys :: "AggregatedResults \<Rightarrow> (string \<times> string \<times> string) list" where
  "successfulKeys ar =
     concat (map (\<lambda>result.
                    map (\<lambda>item. (ClusterName result,
                                  fst (NestedString item [''metadata'', ''namespace'']),
                                  fst (NestedString item [''metadata'', ''name''])))
                        (Items result))
                 (filter Success (Results ar)))"

text \<open>
  What a written row shows of its item: the columns NAMESPACE, NAME and CLUSTER, read
  from the arguments of the call and put in the order of the key.
\<close>

fun rowKey :: "emit \<Rightarrow> string \<times> string \<times> string" where
  "rowKey (Fprintf fmt (D w1 # S ns # D w2 # S name # D w3 # S cluster # args))
     = (cluster, ns, name)"
| "rowKey e = ([], [], [])"

text \<open>
  The table for a resource type other than pods, deployments and services writes the
  placeholder where the namespace is empty; the other tables write the namespace as
  it is.
\<close>

definition genericTable :: "Runtime \<Rightarrow> string \<Rightarrow> bool" where
  "genericTable rt resourceType =
     (ToLower rt resourceType
        \<notin> {''pod'', ''pods'', ''deployment'', ''deployments'', ''service'', ''services''})"

definition shownKey ::
    "Runtime \<Rightarrow> string \<Rightarrow> string \<times> string \<times> string \<Rightarrow> string \<times> string \<times> string" where
  "shownKey rt resourceType k =
     (case k of
        (cluster, ns, name) \<Rightarrow>
          (cluster, if genericTable rt resourceType \<and> ns = [] then noneValue else ns, name))"

subsection \<open>Describe aggregator\<close>

text \<open>The comparison given to \<open>sort.Slice\<close> in \<open>AggregateDescribeResults\<close>.\<close>

definition resultLess :: "ClusterResult \<Rightarrow> ClusterResult \<Rightarrow> bool" where
  "resultLess a b = (ClusterName a < ClusterName b)"

text \<open>
  The loop over the sorted results: failed results and results without output are
  skipped; the others are printed under a header, with a rule between two of them. The
  flag \<open>hasOutput\<close> is threaded through and returned.
\<close>

fun describeLoop :: "ClusterResult list \<Rightarrow> bool \<Rightarrow> emit list \<times> bool" where
  "describeLoop [] hasOutput = ([], hasOutput)"
| "describeLoop (result # rest) hasOutput =
     (if \<not> Success result then describeLoop rest hasOutput
      else if Output result = [] then describeLoop rest hasOutput
      else
        (let separator =
               (if hasOutput then [Fprintln (nl @ replicate 80 (CHR ''=''))] else []);
             block =
               [Fprintf nl [],
                Fprintf (''CLUSTER: %s'' @ nl) [S (ClusterName result)],
                Fprintf (''%s'' @ nl) [S (replicate 80 (CHR ''-''))],
                Fprint (Output result)]
         in case describeLoop rest True of
              (written, hasOutput) \<Rightarrow> (separator @ block @ written, hasOutput)))"

definition AggregateDescribeResults ::
    "Runtime \<Rightarrow> AggregatedResults \<Rightarrow> string \<Rightarrow> emit list \<times> error option" where
  "AggregateDescribeResults rt ar resourceType =
     (let sortedResults = sortResults rt resultLess (Results ar)
      in case describeLoop sortedResults False of
           (written, hasOutput) \<Rightarrow>
             if \<not> hasOutput then
               (if Total (Summary ar) > 0 \<and> Failed (Summary ar) = Total (Summary ar)
                  then (written,
                        Some (ErrorMsg (''failed to describe resource in all ''
                                         @ itoa (Total (Summary ar)) @ '' clusters'')))
                  else (written @ [Fprintln ''No resources found''], None))
             else (written, None))"

section \<open>Commands (cmd)\<close>

text \<open>
  What a command leaves behind: the writes to standard output and to standard error, and
  the error it returns. \<open>main\<close> exits with status 1 when the error is not nil.
\<close>

record CommandOutcome =
  stdout :: "emit list"
  stderr :: "emit list"
  returned :: "error option"

definition exitStatus :: "CommandOutcome \<Rightarrow> int" where
  "exitStatus outcome = (if returned outcome \<noteq> None then 1 else 0)"

text \<open>
  The loop \<open>for cluster, err := range results.Summary.Errors\<close>, which both commands use
  to list the errors.
\<close>

definition errorLines :: "Runtime \<Rightarrow> AggregatedResults \<Rightarrow> emit list" where
  "errorLines rt ar =
     concat (map (\<lambda>cluster.
                    case Errors (Summary ar) cluster of
                      None \<Rightarrow> []
                    | Some err \<Rightarrow> [Fprintf (''  - %s: %v'' @ nl) [S cluster, S (message err)]])
                 (rangeErrors rt (Errors (Summary ar))))"

text \<open>
  \<open>runGet\<close> and \<open>runDescribe\<close> from the point where the executor has returned the
  round: aggregate, then report. The steps before it (flags, hub client, discovery,
  selection, namespace) produce the arguments of the executor and are not part of this
  model.
\<close>

definition runGet :: "Runtime \<Rightarrow> AggregatedResults \<Rightarrow> string \<Rightarrow> CommandOutcome" where
  "runGet rt ar resource =
     (case AggregateGetResults rt ar resource of
        (written, Some err) \<Rightarrow>
          \<lparr> stdout = written, stderr = [],
            returned = Some (wrap ''failed to aggregate results: '' err) \<rparr>
      | (written, None) \<Rightarrow>
          if Failed (Summary ar) > 0 \<and> Successful (Summary ar) = 0 then
            \<lparr> stdout = written,
              stderr = Fprintf (nl @ ''Error: Failed to query all %d clusters'' @ nl)
                         [D (Total (Summary ar))] # errorLines rt ar,
              returned = Some (ErrorMsg ''all clusters failed'') \<rparr>
          else \<lparr> stdout = written, stderr = [], returned = None \<rparr>)"

definition runDescribe :: "Runtime \<Rightarrow> AggregatedResults \<Rightarrow> string \<Rightarrow> CommandOutcome" where
  "runDescribe rt ar resource =
     (case AggregateDescribeResults rt ar resource of
        (written, Some err) \<Rightarrow>
          \<lparr> stdout = written, stderr = [],
            returned = Some (wrap ''failed to aggregate results: '' err) \<rparr>
      | (written, None) \<Rightarrow>
          if Failed (Summary ar) > 0 \<and> Successful (Summary ar) = 0 then
            \<lparr> stdout = written,
              stderr = Fprintf (nl @ ''Error: Failed to query all %d clusters'' @ nl)
                         [D (Total (Summary ar))] # errorLines rt ar,
              returned = Some (ErrorMsg ''all clusters failed'') \<rparr>
          else \<lparr> stdout = written, stderr = [], returned = None \<rparr>)"

subsection \<open>A runtime for the worked examples\<close>

text \<open>
  \<open>insertionSortLessFunc\<close> of package \<open>sort\<close>: each element in turn is swapped to the
  left while it is less than its left neighbour. \<open>sort.Slice\<close> runs it alone on a slice
  of at most twelve elements (of at most six before Go 1.19). The sorted part is kept
  reversed, so that the left neighbour is the head.
\<close>

fun insertDown :: "('a \<Rightarrow> 'a \<Rightarrow> bool) \<Rightarrow> 'a \<Rightarrow> 'a list \<Rightarrow> 'a list" where
  "insertDown lt x [] = [x]"
| "insertDown lt x (y # ys) = (if lt x y then y # insertDown lt x ys else x # y # ys)"

definition insertionSortLessFunc :: "'a sorter" where
  "insertionSortLessFunc lt xs = rev (foldl (\<lambda>acc x. insertDown lt x acc) [] xs)"

text \<open>\<open>strings.ToLower\<close> on ASCII text.\<close>

definition asciiToLower :: "string \<Rightarrow> string" where
  "asciiToLower s =
     map (\<lambda>c. if CHR ''A'' \<le> c \<and> c \<le> CHR ''Z'' then char_of (of_char c + (32::nat)) else c) s"

text \<open>
  A clock that reads ninety seconds past the one timestamp it can parse (which is its
  instant zero). The keys of a map are visited in ascending order.
\<close>

definition sampleParse :: "string \<Rightarrow> error + int" where
  "sampleParse s =
     (if s = ''2024-01-01T00:00:00Z'' then Inr 0
      else Inl (ErrorMsg (''parsing time: '' @ s)))"

definition sampleRuntime :: Runtime where
  "sampleRuntime =
     \<lparr> sortItems = insertionSortLessFunc, sortResults = insertionSortLessFunc,
       ToLower = asciiToLower, timeParse = sampleParse,
       timeSince = (\<lambda>t. 90 * Second - t),
       rangeErrors = (\<lambda>m. sorted_list_of_set (dom m)) \<rparr>"

definition pod_item :: "string \<Rightarrow> string \<Rightarrow> string \<Rightarrow> string \<Rightarrow> object" where
  "pod_item ns n phase created =
     [(''kind'', JString ''Pod''),
      (''metadata'', JObject [(''name'', JString n), (''namespace'', JString ns),
                              (''creationTimestamp'', JString created)]),
      (''status'', JObject [(''phase'', JString phase)])]"

definition bare_item :: "string \<Rightarrow> string \<Rightarrow> object" where
  "bare_item ns n =
     [(''kind'', JString ''ConfigMap''),
      (''metadata'', JObject [(''name'', JString n), (''namespace'', JString ns)])]"

text \<open>
  Rounds for the worked examples: two clusters with one pod each and a cluster that is
  down; and two results under one cluster name that bring the same pod in two phases.
\<close>

definition alpha_result :: ClusterResult where
  "alpha_result = okResult ''alpha'' [pod_item ''ns-a'' ''apple'' ''Running'' []]"

definition zeta_result :: ClusterResult where
  "zeta_result = okResult ''zeta'' [pod_item ''ns-b'' ''potato'' ''Running'' []]"

definition down_result :: ClusterResult where
  "down_result = failedResult ''mid'' (Some (ErrorMsg ''connection timeout''))"

definition three_clusters :: "ClusterInfo list" where
  "three_clusters = [cluster_named ''alpha'', cluster_named ''mid'', cluster_named ''zeta'']"

definition seen_running :: ClusterResult where
  "seen_running = okResult ''a'' [pod_item ''ns'' ''web'' ''Running'' []]"

definition seen_pending :: ClusterResult where
  "seen_pending = okResult ''a'' [pod_item ''ns'' ''web'' ''Pending'' []]"

definition twin_clusters :: "ClusterInfo list" where
  "twin_clusters = [cluster_named ''a'', cluster_named ''a'']"

text \<open>A round in which both clusters fail, each with its own error.\<close>

definition both_down :: AggregatedResults where
  "both_down =
     collectRound [cluster_named ''a'', cluster_named ''b'']
       [failedResult ''b'' (Some (ErrorMsg ''no kubeconfig context mapped for cluster b'')),
        failedResult ''a'' (Some (ErrorMsg ''failed to get resource: context deadline exceeded''))]"

section \<open>Cluster directory: health\<close>

lemma NestedString_single_iff:
  assumes "s \<noteq> []"
  shows "(fst (NestedString m [k]) = s) = (map_of m k = Some (JString s))"
proof (cases "map_of m k")
  case None
  with assms show ?thesis by (auto simp: NestedString_def)
next
  case (Some v)
  with assms show ?thesis by (cases v) (auto simp: NestedString_def)
qed

lemma healthy_condition_check:
  "(fst (NestedString m [''type'']) = ''ControlPlaneHealthy'' \<and>
    fst (NestedString m [''status'']) = ''True'') = spec_healthy_condition (JObject m)"
  by (simp add: NestedString_single_iff spec_healthy_condition_def field_def)

lemma not_object_unhealthy: "\<nexists>m. c = JObject m \<Longrightarrow> \<not> spec_healthy_condition c"
  by (cases c) (auto simp: spec_healthy_condition_def field_def)

lemma healthyLoop_iff: "healthyLoop conds = (\<exists>c \<in> set conds. spec_healthy_condition c)"
proof (induction conds)
  case Nil
  show ?case by simp
next
  case (Cons c cs)
  show ?case
  proof (cases "\<exists>m. c = JObject m")
    case True
    then obtain m where c: "c = JObject m" by blast
    show ?thesis
      unfolding c using Cons healthy_condition_check[of m]
      by (simp add: Let_def del: healthy_condition_check)
  next
    case False
    then have nh: "\<not> spec_healthy_condition c" by (rule not_object_unhealthy)
    from False have "healthyLoop (c # cs) = healthyLoop cs" by (cases c) simp_all
    with Cons nh show ?thesis by simp
  qed
qed

lemma NestedSlice_conditions:
  "NestedSlice obj [''status'', ''conditions''] = (cs, found, err)
     \<Longrightarrow> (if err \<noteq> None \<or> \<not> found then [] else cs) = spec_conditions obj"
  by (auto simp: NestedSlice_def spec_conditions_def field_def
           split: option.splits json.splits if_splits)

lemma isClusterHealthy_spec: "isClusterHealthy obj = spec_healthy obj"
proof -
  obtain cs found err where ns: "NestedSlice obj [''status'', ''conditions''] = (cs, found, err)"
    by (cases "NestedSlice obj [''status'', ''conditions'']") auto
  from NestedSlice_conditions[OF ns] ns show ?thesis
    by (auto simp: isClusterHealthy_def spec_healthy_def healthyLoop_iff split: if_splits)
qed

text \<open>
  C5. Parsing never fails, and the parsed \<open>Healthy\<close> flag is true exactly when the
  \<open>status.conditions\<close> list of the record holds a condition with type
  "ControlPlaneHealthy" and status "True"; with the list absent, empty or without such a
  condition the flag is false.
\<close>

theorem parseClusterProfile_healthy:
  "(case parseClusterProfile obj of
      Inl e \<Rightarrow> False
    | Inr cluster \<Rightarrow> Healthy cluster = spec_healthy obj)
   \<and> isClusterHealthy obj = spec_healthy obj
   \<and> (spec_conditions obj = [] \<longrightarrow> \<not> isClusterHealthy obj)"
proof -
  have a: "isClusterHealthy obj = spec_healthy obj" by (rule isClusterHealthy_spec)
  have b: "case parseClusterProfile obj of
      Inl e \<Rightarrow> False
    | Inr cluster \<Rightarrow> Healthy cluster = spec_healthy obj"
    by (simp add: parseClusterProfile_def Let_def a split: prod.splits)
  have c: "spec_conditions obj = [] \<longrightarrow> \<not> isClusterHealthy obj"
    by (simp add: a spec_healthy_def)
  from a b c show ?thesis by blast
qed

theorem parseClusterProfile_healthy_witness:
  "(case parseClusterProfile healthy_profile of
      Inl e \<Rightarrow> False
    | Inr cluster \<Rightarrow> Healthy cluster \<and> Name cluster = ''test-cluster'')
   \<and> spec_healthy healthy_profile
   \<and> spec_conditions unhealthy_profile \<noteq> []
   \<and> \<not> isClusterHealthy unhealthy_profile
   \<and> spec_conditions bare_profile = []
   \<and> \<not> isClusterHealthy bare_profile"
  using parseClusterProfile_healthy[of healthy_profile]
        parseClusterProfile_healthy[of unhealthy_profile]
        parseClusterProfile_healthy[of bare_profile]
  by (simp add: healthy_profile_def unhealthy_profile_def bare_profile_def
        parseClusterProfile_def spec_healthy_def spec_conditions_def
        spec_healthy_condition_def field_def GetName_def NestedString_def Let_def)

section \<open>Cluster selector: selection rule\<close>


subsection \<open>The glob matcher on the example patterns\<close>

lemma classLoop_abc: "classLoop r m n ''abc'' = Inl ErrBadPattern"
  by (simp add: classLoop.simps getEsc_def DecodeRuneInString_def byte_def RuneError_def)

lemma matchChunkLoop_abc: "matchChunkLoop failed ''[abc'' s = ([], False, Some ErrBadPattern)"
  by (simp add: matchChunkLoop.simps[of _ "''[abc''"] classLoop_abc Let_def)

lemma Match_unterminated_class: "Match ''[abc'' name = (False, Some ErrBadPattern)"
  by (simp add: Match.simps[of "''[abc''"] scanChunk_def matchChunk_def matchChunkLoop_abc)

lemma Match_prod_star_prod: "Match ''prod-*'' ''prod-1'' = (True, None)"
  by (simp add: Match.simps scanChunk_def matchChunk_def
        matchChunkLoop.simps Let_def)

lemma Match_prod_star_dev: "Match ''prod-*'' ''dev-1'' = (False, None)"
  by (simp add: Match.simps scanChunk_def matchChunk_def
        matchChunkLoop.simps Let_def)

lemma Match_dev_star_prod: "Match ''dev-*'' ''prod-1'' = (False, None)"
  by (simp add: Match.simps scanChunk_def matchChunk_def
        matchChunkLoop.simps Let_def)

lemma Match_dev_star_dev: "Match ''dev-*'' ''dev-1'' = (True, None)"
  by (simp add: Match.simps scanChunk_def matchChunk_def
        matchChunkLoop.simps Let_def)

lemma matchesAny_iff:
  "matchesAny glob str patterns = (\<exists>p \<in> set patterns. spec_matches glob p str)"
proof (induction patterns)
  case Nil
  show ?case by simp
next
  case (Cons p ps)
  obtain m e where me: "glob p str = (m, e)" by (cases "glob p str")
  show ?case using Cons me by (auto simp: spec_matches_def)
qed

lemma foldl_filterStep:
  "foldl (filterStep glob inc exc) acc clusters = acc @ filter (passes glob inc exc) clusters"
  by (induction clusters arbitrary: acc) (auto simp: filterStep_def passes_def)

lemma passes_nil: "passes glob [] [] c"
  by (simp add: passes_def)

lemma filterClusters_filter:
  "filterClusters glob clusters inc exc = filter (passes glob inc exc) clusters"
proof (cases "length inc = 0 \<and> length exc = 0")
  case True
  then show ?thesis by (simp add: filterClusters_def passes_nil)
next
  case False
  then show ?thesis by (auto simp: filterClusters_def foldl_filterStep)
qed

lemma passes_spec: "passes glob inc exc = (\<lambda>c. spec_selected glob inc exc (Name c))"
  by (rule ext) (simp add: passes_def spec_selected_def matchesAny_iff)

text \<open>
  C3. The selector keeps a cluster exactly when its \<open>Name\<close> matches no exclude pattern and
  the include list is empty or has a pattern matching the \<open>Name\<close>; the decision reads no
  other field, and with both lists empty the input is returned unchanged.
\<close>

theorem filterClusters_selection:
  "filterClusters glob clusters inc exc
     = filter (\<lambda>c. spec_selected glob inc exc (Name c)) clusters
   \<and> filterClusters glob clusters [] [] = clusters
   \<and> (c \<in> set (filterClusters glob clusters inc exc)
        \<longleftrightarrow> c \<in> set clusters \<and> spec_selected glob inc exc (Name c))"
proof -
  have eq: "filterClusters glob clusters inc exc
     = filter (\<lambda>c. spec_selected glob inc exc (Name c)) clusters"
    by (simp add: filterClusters_filter passes_spec)
  have idn: "filterClusters glob clusters [] [] = clusters"
    by (simp add: filterClusters_def)
  have mem: "c \<in> set (filterClusters glob clusters inc exc)
        \<longleftrightarrow> c \<in> set clusters \<and> spec_selected glob inc exc (Name c)"
    by (simp add: eq)
  from eq idn mem show ?thesis by blast
qed


theorem filterClusters_selection_witness:
  "filterClusters Match [cluster_named ''prod-1'', cluster_named ''dev-1''] [''prod-*''] []
     = [cluster_named ''prod-1'']
   \<and> filterClusters Match [cluster_named ''prod-1'', cluster_named ''dev-1''] [] [''prod-*'']
     = [cluster_named ''dev-1'']
   \<and> spec_selected Match [''prod-*''] [] ''prod-1''
   \<and> \<not> spec_selected Match [''prod-*''] [] ''dev-1''"
  using filterClusters_selection[of Match "[cluster_named ''prod-1'', cluster_named ''dev-1'']"
          "[''prod-*'']" "[]" "cluster_named ''prod-1''"]
        filterClusters_selection[of Match "[cluster_named ''prod-1'', cluster_named ''dev-1'']"
          "[]" "[''prod-*'']" "cluster_named ''prod-1''"]
  by (simp add: spec_selected_def spec_matches_def Match_prod_star_prod Match_prod_star_dev
        cluster_named_def)

section \<open>Cluster selector: malformed patterns\<close>

text \<open>
  C4, as amended. A pattern that the glob matcher rejects never matches through the glob
  test, and the match raises nothing: such a pattern matches a name only when the name is
  the pattern itself, by the equality test that comes first in \<open>matchesAny\<close>.
\<close>

theorem matchesAny_malformed_pattern:
  assumes "snd (glob p str) \<noteq> None"
  shows "matchesAny glob str [p] = (str = p)
       \<and> matchesAny glob str (ps @ p # qs) = (str = p \<or> matchesAny glob str (ps @ qs))"
proof -
  from assms have "spec_matches glob p str = (str = p)"
    by (cases "glob p str") (auto simp: spec_matches_def)
  then show ?thesis by (auto simp: matchesAny_iff)
qed

theorem matchesAny_malformed_pattern_witness:
  "snd (Match ''[abc'' ''dev-1'') \<noteq> None
   \<and> \<not> matchesAny Match ''dev-1'' [''[abc'']
   \<and> matchesAny Match ''dev-1'' [''prod-*'', ''[abc'', ''dev-1'']
       = matchesAny Match ''dev-1'' [''prod-*'', ''dev-1'']"
  using matchesAny_malformed_pattern[of Match "''[abc''" "''dev-1''" "[''prod-*'']" "[''dev-1'']"]
  by (simp add: Match_unterminated_class)

text \<open>
  The claim as stated fails for a cluster whose name is the malformed pattern: the
  unterminated class \<open>[abc\<close> is rejected by the matcher, yet it selects the cluster named
  \<open>[abc\<close> when given as an include pattern and drops it when given as an exclude pattern.
\<close>

theorem matchesAny_malformed_counterexample:
  "Match ''[abc'' ''[abc'' = (False, Some ErrBadPattern)
   \<and> matchesAny Match ''[abc'' [''[abc'']
   \<and> filterClusters Match [cluster_named ''[abc''] [''[abc''] [] = [cluster_named ''[abc'']
   \<and> filterClusters Match [cluster_named ''[abc''] [] [''[abc''] = []"
  by (simp add: Match_unterminated_class filterClusters_def filterStep_def cluster_named_def)

section \<open>Cluster selector: order\<close>

lemma count_list_filter:
  "count_list (filter P xs) c = (if P c then count_list xs c else 0)"
  by (induction xs) auto

text \<open>
  C10. The selector's output is a subsequence of its input: the clusters that pass, in
  their input order and with their input multiplicity, and nothing else.
\<close>

theorem filterClusters_subsequence:
  "subseq (filterClusters glob clusters inc exc) clusters
   \<and> set (filterClusters glob clusters inc exc) \<subseteq> set clusters
   \<and> count_list (filterClusters glob clusters inc exc) c
       = (if c \<in> set (filterClusters glob clusters inc exc) then count_list clusters c else 0)"
proof -
  let ?out = "filterClusters glob clusters inc exc"
  have eq: "?out = filter (passes glob inc exc) clusters" by (rule filterClusters_filter)
  have sub: "subseq ?out clusters" unfolding eq by (rule subseq_filter_left)
  have st: "set ?out \<subseteq> set clusters" unfolding eq by auto
  have cnt: "count_list ?out c = (if c \<in> set ?out then count_list clusters c else 0)"
  proof (cases "passes glob inc exc c")
    case True
    then show ?thesis unfolding eq
      by (cases "c \<in> set clusters") (auto simp: count_list_filter count_list_0_iff)
  next
    case False
    then show ?thesis unfolding eq by (simp add: count_list_filter)
  qed
  from sub st cnt show ?thesis by blast
qed

theorem filterClusters_subsequence_witness:
  "filterClusters Match
     [cluster_named ''prod-1'', cluster_named ''dev-1'', cluster_named ''prod-1'']
     [''prod-*''] [''dev-*'']
     = [cluster_named ''prod-1'', cluster_named ''prod-1'']
   \<and> subseq [cluster_named ''prod-1'', cluster_named ''prod-1'']
        [cluster_named ''prod-1'', cluster_named ''dev-1'', cluster_named ''prod-1'']"
  using filterClusters_subsequence[of Match
     "[cluster_named ''prod-1'', cluster_named ''dev-1'', cluster_named ''prod-1'']"
     "[''prod-*'']" "[''dev-*'']" "cluster_named ''prod-1''"]
  by (simp add: filterClusters_def filterStep_def cluster_named_def
        Match_prod_star_prod Match_prod_star_dev Match_dev_star_prod Match_dev_star_dev)


section \<open>Fan-out executor: the summary of a round\<close>

lemma AddResult_fields:
  "Results (AddResult ar r) = Results ar @ [r]"
  "Total (Summary (AddResult ar r)) = Total (Summary ar)"
  "Successful (Summary (AddResult ar r)) = Successful (Summary ar) + (if Success r then 1 else 0)"
  "Failed (Summary (AddResult ar r)) = Failed (Summary ar) + (if Success r then 0 else 1)"
  "dom (Errors (Summary (AddResult ar r)))
     = dom (Errors (Summary ar)) \<union> (if failedWithError r then {ClusterName r} else {})"
  by (auto simp: AddResult_def Let_def failedWithError_def split: option.splits)

lemma foldl_AddResult:
  "Results (foldl AddResult ar rs) = Results ar @ rs"
  "Total (Summary (foldl AddResult ar rs)) = Total (Summary ar)"
  "Successful (Summary (foldl AddResult ar rs))
     = Successful (Summary ar) + int (length (filter Success rs))"
  "Failed (Summary (foldl AddResult ar rs))
     = Failed (Summary ar) + int (length (filter (\<lambda>r. \<not> Success r) rs))"
  "dom (Errors (Summary (foldl AddResult ar rs)))
     = dom (Errors (Summary ar)) \<union> ClusterName ` {r \<in> set rs. failedWithError r}"
  by (induction rs arbitrary: ar) (auto simp: AddResult_fields)

lemma length_filter_split:
  "length (filter P xs) + length (filter (\<lambda>x. \<not> P x) xs) = length xs"
  by (induction xs) auto

lemma failed_split:
  "length (filter (\<lambda>r. \<not> Success r) rs)
     = length (filter failedWithError rs) + length (filter failedWithoutError rs)"
  by (induction rs) (auto simp: failedWithError_def failedWithoutError_def)

lemma card_named:
  assumes "distinct (map ClusterName rs)"
  shows "card (ClusterName ` {r \<in> set rs. P r}) = length (filter P rs)"
proof -
  from assms have d: "distinct rs" and inj: "inj_on ClusterName (set rs)"
    by (auto simp: distinct_map)
  have st: "{r \<in> set rs. P r} = set (filter P rs)" by auto
  have "inj_on ClusterName (set (filter P rs))"
    by (rule inj_on_subset[OF inj]) auto
  then have "card (ClusterName ` set (filter P rs)) = card (set (filter P rs))"
    by (rule card_image)
  also have "\<dots> = length (filter P rs)"
    by (rule distinct_card) (simp add: d)
  finally show ?thesis by (simp only: st)
qed

text \<open>
  C2. When the results of all \<open>N\<close> submitted clusters, with pairwise different cluster
  names, have been added: successful plus failed equals total (and the number of
  results), and the error map has one entry per failed result that carries an error, so
  its size is the failed count minus the failed results whose error is nil.
\<close>

theorem collectRound_summary:
  assumes "length rs = length clusters" and "distinct (map ClusterName rs)"
  shows "Successful (Summary (collectRound clusters rs)) + Failed (Summary (collectRound clusters rs))
           = Total (Summary (collectRound clusters rs))
       \<and> Total (Summary (collectRound clusters rs)) = int (length (Results (collectRound clusters rs)))
       \<and> int (card (dom (Errors (Summary (collectRound clusters rs)))))
           = Failed (Summary (collectRound clusters rs)) - int (length (filter failedWithoutError rs))
       \<and> dom (Errors (Summary (collectRound clusters rs)))
           = ClusterName ` {r \<in> set rs. failedWithError r}"
proof -
  let ?ar = "collectRound clusters rs"
  have s: "Successful (Summary ?ar) = int (length (filter Success rs))"
    and f: "Failed (Summary ?ar) = int (length (filter (\<lambda>r. \<not> Success r) rs))"
    and t: "Total (Summary ?ar) = int (length clusters)"
    and r: "Results ?ar = rs"
    and e: "dom (Errors (Summary ?ar)) = ClusterName ` {r \<in> set rs. failedWithError r}"
    by (simp_all add: collectRound_def foldl_AddResult NewAggregatedResults_def)
  from length_filter_split[of Success rs] assms(1)
  have sum: "Successful (Summary ?ar) + Failed (Summary ?ar) = Total (Summary ?ar)"
    by (simp add: s f t)
  have len: "Total (Summary ?ar) = int (length (Results ?ar))"
    using assms(1) by (simp add: t r)
  have "int (card (dom (Errors (Summary ?ar)))) = int (length (filter failedWithError rs))"
    by (simp add: e card_named[OF assms(2)])
  then have card: "int (card (dom (Errors (Summary ?ar))))
      = Failed (Summary ?ar) - int (length (filter failedWithoutError rs))"
    by (simp add: f failed_split)
  from sum len card e show ?thesis by blast
qed

theorem collectRound_summary_witness:
  "length mixed_results = length mixed_clusters
   \<and> distinct (map ClusterName mixed_results)
   \<and> Successful (Summary (collectRound mixed_clusters mixed_results)) = 1
   \<and> Failed (Summary (collectRound mixed_clusters mixed_results)) = 2
   \<and> Total (Summary (collectRound mixed_clusters mixed_results)) = 3
   \<and> card (dom (Errors (Summary (collectRound mixed_clusters mixed_results)))) = 1"
proof -
  have h1: "length mixed_results = length mixed_clusters"
    by (simp add: mixed_results_def mixed_clusters_def)
  have h2: "distinct (map ClusterName mixed_results)"
    by (simp add: mixed_results_def failedResult_def okResult_def)
  have s: "Successful (Summary (collectRound mixed_clusters mixed_results)) = 1"
    and f: "Failed (Summary (collectRound mixed_clusters mixed_results)) = 2"
    by (simp_all add: collectRound_def mixed_results_def mixed_clusters_def
          NewAggregatedResults_def AddResult_def failedResult_def okResult_def)
  have n: "length (filter failedWithoutError mixed_results) = 1"
    by (simp add: mixed_results_def failedWithoutError_def failedResult_def okResult_def)
  note summary = collectRound_summary[OF h1 h2]
  from summary s f have t: "Total (Summary (collectRound mixed_clusters mixed_results)) = 3"
    by simp
  from summary
  have "int (card (dom (Errors (Summary (collectRound mixed_clusters mixed_results)))))
      = Failed (Summary (collectRound mixed_clusters mixed_results))
        - int (length (filter failedWithoutError mixed_results))"
    by blast
  with f n
  have c: "card (dom (Errors (Summary (collectRound mixed_clusters mixed_results)))) = 1"
    by simp
  from h1 h2 s f t c show ?thesis by blast
qed


section \<open>Fan-out executor: one result per cluster\<close>

lemma getFromCluster_name:
  "ClusterName (getFromCluster e w c resource name namespace) = Name c"
  by (simp add: getFromCluster_def Let_def split: sum.splits)

lemma mset_map_remove1:
  "c \<in> set xs \<Longrightarrow> mset (map f xs) = add_mset (f c) (mset (map f (remove1 c xs)))"
  by (induction xs) auto

lemma length_remove1_Suc: "c \<in> set xs \<Longrightarrow> Suc (length (remove1 c xs)) = length xs"
  by (induction xs) auto

lemma Get_step_names:
  assumes "Get_step e clusters resource name namespace s s'"
  shows "Get_names s' = Get_names s"
  using assms
proof (cases rule: Get_step.cases)
  case (spawn c cs)
  then show ?thesis by (simp add: Get_names_def)
next
  case (acquire c)
  from mset_map_remove1[OF acquire(2), of Name] acquire(1) show ?thesis
    by (simp add: Get_names_def del: mset_remove1 mset_map)
next
  case (send c w)
  from mset_map_remove1[OF send(2), of Name] send(1) show ?thesis
    by (simp add: Get_names_def getFromCluster_name del: mset_remove1 mset_map)
next
  case (release c)
  then show ?thesis by (simp add: Get_names_def)
next
  case close
  then show ?thesis by (simp add: Get_names_def)
next
  case (collect r rs)
  then show ?thesis by (simp add: Get_names_def AddResult_fields)
qed


lemma Get_inv_init: "Get_inv clusters (Get_init clusters)"
  by (simp add: Get_inv_def Get_names_def Get_init_def NewAggregatedResults_def)

lemma Get_step_rest:
  assumes "Get_step e clusters resource name namespace s s'"
    and "Successful (Summary (results s)) + Failed (Summary (results s))
          = int (length (Results (results s)))"
    and "closed s \<longrightarrow> unspawned s = [] \<and> waiting s = [] \<and> running s = [] \<and> leaving s = []"
  shows "Total (Summary (results s')) = Total (Summary (results s))"
    and "Successful (Summary (results s')) + Failed (Summary (results s'))
          = int (length (Results (results s')))"
    and "closed s' \<longrightarrow> unspawned s' = [] \<and> waiting s' = [] \<and> running s' = [] \<and> leaving s' = []"
  using assms by (cases rule: Get_step.cases; auto simp: AddResult_fields)+

lemma Get_inv_step:
  assumes "Get_step e clusters resource name namespace s s'" and "Get_inv clusters s"
  shows "Get_inv clusters s'"
  using Get_step_names[OF assms(1)] Get_step_rest[OF assms(1)] assms(2)
  unfolding Get_inv_def by simp

lemma Get_reaches_inv:
  "Get_reaches e clusters resource name namespace s \<Longrightarrow> Get_inv clusters s"
  by (induction rule: Get_reaches.induct) (auto intro: Get_inv_init Get_inv_step)

lemma Get_step_pending:
  "Get_step e clusters resource name namespace s s' \<Longrightarrow> Get_pending s' < Get_pending s"
  by (cases rule: Get_step.cases)
     (auto simp: Get_pending_def dest: length_remove1_Suc)

lemma running_bound:
  assumes "Get_inv clusters s" and "running s \<noteq> []" and "resultChan s = []"
  shows "length (resultChan s) < length clusters"
proof -
  from assms(1) have "size (Get_names s) = length clusters"
    by (simp add: Get_inv_def)
  then have "length (running s) \<le> length clusters" by (simp add: Get_names_def)
  moreover from assms(2) have "0 < length (running s)" by simp
  ultimately have "0 < length clusters" by linarith
  with assms(3) show ?thesis by simp
qed

lemma Get_progress:
  assumes inv: "Get_inv clusters s" and nr: "\<not> Get_returned s"
    and mc: "0 < MaxConcurrency (executorConfig e)"
  shows "\<exists>s'. Get_step e clusters resource name namespace s s'"
proof -
  consider (a) "unspawned s \<noteq> []"
    | (b) "unspawned s = []" "resultChan s \<noteq> []"
    | (c) "unspawned s = []" "resultChan s = []" "leaving s \<noteq> []"
    | (d) "unspawned s = []" "resultChan s = []" "leaving s = []" "running s \<noteq> []"
    | (e) "unspawned s = []" "resultChan s = []" "leaving s = []" "running s = []"
          "waiting s \<noteq> []"
    | (f) "unspawned s = []" "resultChan s = []" "leaving s = []" "running s = []"
          "waiting s = []"
    by blast
  then show ?thesis
  proof cases
    case a
    then obtain c cs where "unspawned s = c # cs" by (cases "unspawned s") auto
    from Get_step.spawn[OF this] show ?thesis by blast
  next
    case b
    then obtain r rs where "resultChan s = r # rs" by (cases "resultChan s") auto
    from Get_step.collect[OF b(1) this] show ?thesis by blast
  next
    case c
    then obtain x where "x \<in> set (leaving s)" by (cases "leaving s") auto
    from Get_step.release[OF this] show ?thesis by blast
  next
    case d
    then obtain x where x: "x \<in> set (running s)" by (cases "running s") auto
    from d inv have nc: "\<not> closed s" by (auto simp: Get_inv_def)
    from Get_step.send[OF x nc running_bound[OF inv d(4) d(2)]] show ?thesis by blast
  next
    case e
    then obtain x where x: "x \<in> set (waiting s)" by (cases "waiting s") auto
    from e mc have "int (length (running s) + length (leaving s))
        < MaxConcurrency (executorConfig e)" by simp
    from Get_step.acquire[OF x this] show ?thesis by blast
  next
    case f
    with nr have "\<not> closed s" by (simp add: Get_returned_def)
    from Get_step.close[OF f(1) f(5) f(4) f(3) this] show ?thesis by blast
  qed
qed

lemma Get_returned_results:
  assumes inv: "Get_inv clusters s" and r: "Get_returned s"
  shows "mset (map ClusterName (Results (results s))) = mset (map Name clusters)
       \<and> length (Results (results s)) = length clusters"
proof -
  from inv r have m: "mset (map ClusterName (Results (results s))) = mset (map Name clusters)"
    by (auto simp: Get_inv_def Get_names_def Get_returned_def)
  from arg_cong[OF m, of size] have "length (Results (results s)) = length clusters"
    by simp
  with m show ?thesis by simp
qed


text \<open>
  C1. In every state a round can reach: if \<open>Get\<close> has returned, \<open>Results\<close> holds exactly
  one result per submitted cluster (the cluster names of the results are those of the
  clusters, with their multiplicities) and its length is \<open>Summary.Total\<close>, the number of
  submitted clusters; if it has not returned, some goroutine can move, given at least
  one slot; and every move reduces the work left, so the round cannot go on for ever and
  can stop only by returning. The cluster list, the world met by each query (failing
  requests and a cancelled context included) and the schedule are arbitrary.
\<close>

theorem Get_one_result_per_cluster:
  assumes "Get_reaches e clusters resource name namespace s"
  shows "(Get_returned s \<longrightarrow>
            length (Results (results s)) = length clusters
          \<and> Total (Summary (results s)) = int (length clusters)
          \<and> Successful (Summary (results s)) + Failed (Summary (results s))
              = Total (Summary (results s))
          \<and> mset (map ClusterName (Results (results s))) = mset (map Name clusters))
       \<and> (0 < MaxConcurrency (executorConfig e) \<longrightarrow> \<not> Get_returned s \<longrightarrow>
            (\<exists>s'. Get_step e clusters resource name namespace s s'))
       \<and> (\<forall>s'. Get_step e clusters resource name namespace s s' \<longrightarrow>
            Get_pending s' < Get_pending s)"
proof -
  from assms have inv: "Get_inv clusters s" by (rule Get_reaches_inv)
  have safe: "Get_returned s \<longrightarrow>
            length (Results (results s)) = length clusters
          \<and> Total (Summary (results s)) = int (length clusters)
          \<and> Successful (Summary (results s)) + Failed (Summary (results s))
              = Total (Summary (results s))
          \<and> mset (map ClusterName (Results (results s))) = mset (map Name clusters)"
  proof
    assume r: "Get_returned s"
    from inv have "Total (Summary (results s)) = int (length clusters)"
      and "Successful (Summary (results s)) + Failed (Summary (results s))
          = int (length (Results (results s)))"
      by (simp_all add: Get_inv_def)
    with Get_returned_results[OF inv r]
    show "length (Results (results s)) = length clusters
          \<and> Total (Summary (results s)) = int (length clusters)
          \<and> Successful (Summary (results s)) + Failed (Summary (results s))
              = Total (Summary (results s))
          \<and> mset (map ClusterName (Results (results s))) = mset (map Name clusters)"
      by simp
  qed
  have live: "0 < MaxConcurrency (executorConfig e) \<longrightarrow> \<not> Get_returned s \<longrightarrow>
            (\<exists>s'. Get_step e clusters resource name namespace s s')"
    using Get_progress[OF inv] by blast
  have fin: "\<forall>s'. Get_step e clusters resource name namespace s s' \<longrightarrow>
            Get_pending s' < Get_pending s"
    using Get_step_pending by blast
  from safe live fin show ?thesis by blast
qed

lemma cancelled_query:
  "getFromCluster (NewExecutor one_manager) cancelled_world (cluster_named ''cluster1'')
     ''pods'' [] ''default'' = cancelled_result"
  by (simp add: getFromCluster_def NewExecutor_def one_manager_def cancelled_world_def
        cluster_named_def GetContext_def NewFactory_def DynamicClient_def DiscoveryClient_def
        resolveGVR_def commonResources_def wrap_def cancelled_result_def failedResult_def)

lemma cancelled_run:
  "Get_reaches (NewExecutor one_manager) [cluster_named ''cluster1''] ''pods'' [] ''default''
     (round_state [] [] [] [] [] True [cancelled_result])"
proof -
  let ?c = "cluster_named ''cluster1''"
  let ?reaches = "Get_reaches (NewExecutor one_manager) [?c] ''pods'' [] ''default''"
  have r0: "?reaches (round_state [?c] [] [] [] [] False [])"
    using Get_reaches.start[of "NewExecutor one_manager" "[?c]" "''pods''" "[]" "''default''"]
    by (simp add: Get_init_def round_state_def collectRound_def)
  have r1: "?reaches (round_state [] [?c] [] [] [] False [])"
    using Get_reaches.step[OF r0 Get_step.spawn[of _ ?c "[]"]]
    by (simp add: round_state_def)
  have r2: "?reaches (round_state [] [] [?c] [] [] False [])"
    using Get_reaches.step[OF r1 Get_step.acquire[of ?c]]
    by (simp add: round_state_def NewExecutor_def DefaultConfig_def)
  have r3: "?reaches (round_state [] [] [] [?c] [cancelled_result] False [])"
    using Get_reaches.step[OF r2 Get_step.send[of ?c _ _ _ _ _ _ cancelled_world]]
    by (simp add: round_state_def cancelled_query)
  have r4: "?reaches (round_state [] [] [] [] [cancelled_result] False [])"
    using Get_reaches.step[OF r3 Get_step.release[of ?c]]
    by (simp add: round_state_def)
  have r5: "?reaches (round_state [] [] [] [] [] False [cancelled_result])"
    using Get_reaches.step[OF r4 Get_step.collect[of _ cancelled_result "[]"]]
    by (simp add: round_state_def collectRound_def)
  show ?thesis
    using Get_reaches.step[OF r5 Get_step.close]
    by (simp add: round_state_def)
qed

theorem Get_one_result_per_cluster_witness:
  "Get_reaches (NewExecutor one_manager) [cluster_named ''cluster1''] ''pods'' [] ''default''
     (round_state [] [] [] [] [] True [cancelled_result])
   \<and> Get_returned (round_state [] [] [] [] [] True [cancelled_result])
   \<and> Results (results (round_state [] [] [] [] [] True [cancelled_result])) = [cancelled_result]
   \<and> Total (Summary (results (round_state [] [] [] [] [] True [cancelled_result]))) = 1
   \<and> Failed (Summary (results (round_state [] [] [] [] [] True [cancelled_result]))) = 1
   \<and> 0 < MaxConcurrency (executorConfig (NewExecutor one_manager))
   \<and> \<not> Get_returned (Get_init [cluster_named ''cluster1''])
   \<and> Get_pending (round_state [] [] [] [] [] True [cancelled_result])
       < Get_pending (round_state [] [] [] [] [] False [cancelled_result])"
proof -
  let ?s = "round_state [] [] [] [] [] True [cancelled_result]"
  have ret: "Get_returned ?s" by (simp add: Get_returned_def round_state_def)
  have res: "Results (results ?s) = [cancelled_result]"
    by (simp add: round_state_def collectRound_def AddResult_fields NewAggregatedResults_def)
  have fl: "Failed (Summary (results ?s)) = 1"
    by (simp add: round_state_def collectRound_def AddResult_fields NewAggregatedResults_def
          cancelled_result_def failedResult_def)
  have mc: "0 < MaxConcurrency (executorConfig (NewExecutor one_manager))"
    by (simp add: NewExecutor_def DefaultConfig_def)
  have ni: "\<not> Get_returned (Get_init [cluster_named ''cluster1''])"
    by (simp add: Get_returned_def Get_init_def)
  have pd: "Get_pending ?s < Get_pending (round_state [] [] [] [] [] False [cancelled_result])"
    by (simp add: Get_pending_def round_state_def)
  from Get_one_result_per_cluster[OF cancelled_run] ret
  have "Total (Summary (results ?s)) = 1" by simp
  with cancelled_run ret res fl mc ni pd show ?thesis by blast
qed

section \<open>Aggregator: age\<close>

subsection \<open>Rounding to \<open>float64\<close>\<close>

lemma roundEven_near: "\<bar>of_int (roundEven z) - z\<bar> \<le> 1 / 2"
  unfolding roundEven_def Let_def by (auto; linarith)

lemma roundEven_ge: "of_int n \<le> z \<Longrightarrow> n \<le> roundEven z"
proof -
  assume "of_int n \<le> z"
  then have "n \<le> \<lfloor>z\<rfloor>" by (simp add: le_floor_iff)
  then show ?thesis unfolding roundEven_def Let_def by auto
qed

lemma roundEven_le: "z \<le> of_int n \<Longrightarrow> roundEven z \<le> n"
proof (cases "z = of_int n")
  case True
  then show ?thesis by (simp add: roundEven_def)
next
  case False
  assume "z \<le> of_int n"
  with False have "z < of_int n" by simp
  then have "\<lfloor>z\<rfloor> < n" by (simp add: floor_less_iff)
  then show ?thesis unfolding roundEven_def Let_def by auto
qed

lemma halvings_bounds: "1 \<le> x \<Longrightarrow> 2 ^ halvings x \<le> x \<and> x < 2 ^ Suc (halvings x)"
proof (induction x rule: halvings.induct)
  case (1 x)
  show ?case
  proof (cases "x < 2")
    case True
    with "1.prems" show ?thesis by (simp add: halvings.simps[of x])
  next
    case False
    then have "1 \<le> x / 2" by simp
    from "1.IH"[OF False this] False show ?thesis
      by (simp add: halvings.simps[of x])
  qed
qed

lemma doublings_bounds:
  "0 < x \<Longrightarrow> x < 1 \<Longrightarrow> 1 \<le> x * 2 ^ doublings x \<and> x * 2 ^ doublings x < 2"
proof (induction x rule: doublings.induct)
  case (1 x)
  from "1.prems" have c: "\<not> (x \<le> 0 \<or> 1 \<le> x)" by simp
  show ?case
  proof (cases "2 * x < 1")
    case True
    from "1.IH"[OF c _ True] "1.prems" c show ?thesis
      by (simp add: doublings.simps[of x] mult.assoc)
  next
    case False
    then have "doublings (2 * x) = 0" by (simp add: doublings.simps[of "2 * x"])
    with False "1.prems" c show ?thesis
      by (simp add: doublings.simps[of x])
  qed
qed

lemma exponent_bounds:
  assumes "0 < x"
  shows "2 powi exponent x \<le> x \<and> x < 2 powi (exponent x + 1)"
proof (cases "1 \<le> x")
  case True
  from halvings_bounds[OF True] True show ?thesis
    by (simp add: exponent_def power_int_add)
next
  case False
  then have lt: "x < 1" by simp
  let ?d = "doublings x"
  from doublings_bounds[OF assms lt]
  have b: "1 \<le> x * 2 ^ ?d" "x * 2 ^ ?d < 2" by auto
  have p: "2 powi (- int ?d) = 1 / (2::real) ^ ?d"
    by (simp add: power_int_minus_divide)
  have p2: "2 powi (- int ?d + 1) = 2 / (2::real) ^ ?d"
    by (simp add: power_int_diff)
  have pos: "0 < (2::real) ^ ?d" by simp
  from b(1) pos have l1: "1 / 2 ^ ?d \<le> x" by (simp add: field_simps)
  from b(2) pos have l2: "x < 2 / 2 ^ ?d" by (simp add: field_simps)
  from False have ex: "exponent x = - int ?d" by (simp add: exponent_def)
  show ?thesis unfolding ex p p2 using l1 l2 by blast
qed

lemma exponent_less: "0 < x \<Longrightarrow> x < 2 powi K \<Longrightarrow> exponent x < K"
proof -
  assume "0 < x" "x < 2 powi K"
  with exponent_bounds[of x] have "(2::real) powi exponent x < 2 powi K" by simp
  then show ?thesis
    by (metis not_less one_le_numeral power_int_increasing)
qed

lemma exponent_ge: "0 < x \<Longrightarrow> 2 powi K \<le> x \<Longrightarrow> K \<le> exponent x"
proof -
  assume "0 < x" "2 powi K \<le> x"
  with exponent_bounds[of x] have "(2::real) powi K < 2 powi (exponent x + 1)" by simp
  then have "K < exponent x + 1"
    by (metis not_less one_le_numeral power_int_increasing)
  then show ?thesis by simp
qed

lemma float64_pos:
  assumes "0 < x"
  shows "float64 x = of_int (roundEven (x / 2 powi (exponent x - 52))) * 2 powi (exponent x - 52)"
  using assms by (simp add: float64_def Let_def)

lemma float64_minus: "float64 (- x) = - float64 x"
  by (simp add: float64_def Let_def)

lemma float64_err:
  assumes "0 < x"
  shows "\<bar>float64 x - x\<bar> \<le> 2 powi (exponent x - 53)"
proof -
  let ?u = "2 powi (exponent x - 52) :: real"
  let ?m = "roundEven (x / ?u)"
  have u: "0 < ?u" by (simp add: zero_less_power_int)
  have "float64 x - x = (of_int ?m - x / ?u) * ?u"
    using u by (simp add: float64_pos[OF assms] field_simps)
  then have "\<bar>float64 x - x\<bar> = \<bar>of_int ?m - x / ?u\<bar> * ?u"
    using u by (simp add: abs_mult)
  also have "\<dots> \<le> (1 / 2) * ?u"
    using roundEven_near[of "x / ?u"] u by (intro mult_right_mono) simp_all
  also have "(1 / 2) * ?u = 2 powi (exponent x - 53)"
  proof -
    have "(2::real) powi (exponent x - 52) = 2 powi ((exponent x - 53) + 1)" by simp
    also have "\<dots> = 2 powi (exponent x - 53) * 2" by (rule power_int_add_1) simp
    finally show ?thesis by simp
  qed
  finally show ?thesis .
qed

lemma float64_err_below:
  assumes "0 < x" and "x < 2 powi K"
  shows "\<bar>float64 x - x\<bar> \<le> 2 powi (K - 54)"
proof -
  from exponent_less[OF assms] have "exponent x - 53 \<le> K - 54" by simp
  then have "(2::real) powi (exponent x - 53) \<le> 2 powi (K - 54)"
    by (rule power_int_increasing) simp
  with float64_err[OF assms(1)] show ?thesis by linarith
qed

lemma quantum_inverse:
  assumes "e \<le> 52"
  shows "2 powi (e - 52) * 2 ^ nat (52 - e) = (1::real)"
proof -
  from assms have "(2::real) ^ nat (52 - e) = 2 powi (52 - e)"
    by (simp add: power_int_def)
  moreover have "2 powi (e - 52) * 2 powi (52 - e) = (2::real) powi ((e - 52) + (52 - e))"
    by (rule power_int_add[symmetric]) simp
  ultimately show ?thesis by simp
qed

lemma float64_ge_int:
  assumes "0 \<le> x" and "x < 2 ^ 53" and "of_int N \<le> x"
  shows "of_int N \<le> float64 x"
proof (cases "x = 0")
  case True
  with assms(3) show ?thesis by (simp add: float64_def)
next
  case False
  with assms(1) have pos: "0 < x" by simp
  let ?e = "exponent x"
  let ?u = "2 powi (?e - 52) :: real"
  let ?k = "nat (52 - ?e)"
  have u: "0 < ?u" by (simp add: zero_less_power_int)
  from assms(2) have "x < 2 powi 53" by simp
  from exponent_less[OF pos this] have e: "?e \<le> 52" by simp
  note inv = quantum_inverse[OF e]
  have xu: "x / ?u = x * 2 ^ ?k" using inv u by (simp add: field_simps)
  have "of_int (N * 2 ^ ?k) = of_int N * (2::real) ^ ?k" by simp
  also have "\<dots> \<le> x * 2 ^ ?k" using assms(3) by (intro mult_right_mono) simp_all
  finally have "N * 2 ^ ?k \<le> roundEven (x / ?u)"
    unfolding xu[symmetric] by (rule roundEven_ge)
  then have "of_int (N * 2 ^ ?k) \<le> (of_int (roundEven (x / ?u)) :: real)"
    by (simp only: of_int_le_iff)
  then have "of_int (N * 2 ^ ?k) * ?u \<le> of_int (roundEven (x / ?u)) * ?u"
    using u by (intro mult_right_mono) simp_all
  moreover have "of_int (N * 2 ^ ?k) * ?u = of_int N"
    using inv by (simp add: mult.assoc mult.commute)
  ultimately show ?thesis unfolding float64_pos[OF pos] by linarith
qed

lemma float64_le_int:
  assumes "0 \<le> x" and "x < 2 ^ 53" and "x \<le> of_int N"
  shows "float64 x \<le> of_int N"
proof (cases "x = 0")
  case True
  with assms(3) show ?thesis by (simp add: float64_def)
next
  case False
  with assms(1) have pos: "0 < x" by simp
  let ?e = "exponent x"
  let ?u = "2 powi (?e - 52) :: real"
  let ?k = "nat (52 - ?e)"
  have u: "0 < ?u" by (simp add: zero_less_power_int)
  from assms(2) have "x < 2 powi 53" by simp
  from exponent_less[OF pos this] have e: "?e \<le> 52" by simp
  note inv = quantum_inverse[OF e]
  have xu: "x / ?u = x * 2 ^ ?k" using inv u by (simp add: field_simps)
  have "x * 2 ^ ?k \<le> of_int N * (2::real) ^ ?k"
    using assms(3) by (intro mult_right_mono) simp_all
  also have "\<dots> = of_int (N * 2 ^ ?k)" by simp
  finally have "roundEven (x / ?u) \<le> N * 2 ^ ?k"
    unfolding xu[symmetric] by (rule roundEven_le)
  then have "(of_int (roundEven (x / ?u)) :: real) \<le> of_int (N * 2 ^ ?k)"
    by (simp only: of_int_le_iff)
  then have "of_int (roundEven (x / ?u)) * ?u \<le> of_int (N * 2 ^ ?k) * ?u"
    using u by (intro mult_right_mono) simp_all
  moreover have "of_int (N * 2 ^ ?k) * ?u = of_int N"
    using inv by (simp add: mult.assoc mult.commute)
  ultimately show ?thesis unfolding float64_pos[OF pos] by linarith
qed

lemma float64_of_int:
  assumes "0 \<le> N" and "N < 2 ^ 53"
  shows "float64 (of_int N) = of_int N"
proof -
  from assms have a: "0 \<le> (of_int N :: real)" and b: "(of_int N :: real) < 2 ^ 53"
    by (simp_all add: of_int_less_numeral_power_cancel_iff)
  from float64_ge_int[OF a b, of N] float64_le_int[OF a b, of N] show ?thesis by simp
qed

lemma float64_below_int:
  assumes "0 < x" and "exponent x \<le> 52" and "float64 x < of_int B"
  shows "float64 x \<le> of_int B - 2 powi (exponent x - 52)"
proof -
  let ?u = "2 powi (exponent x - 52) :: real"
  let ?k = "nat (52 - exponent x)"
  let ?m = "roundEven (x / ?u)"
  have u: "0 < ?u" by (simp add: zero_less_power_int)
  note inv = quantum_inverse[OF assms(2)]
  have B: "of_int (B * 2 ^ ?k) * ?u = of_int B"
    using inv by (simp add: mult.assoc mult.commute)
  from assms(3) have "of_int ?m * ?u < of_int (B * 2 ^ ?k) * ?u"
    unfolding float64_pos[OF assms(1)] B .
  with u have "(of_int ?m :: real) < of_int (B * 2 ^ ?k)"
    by (simp only: mult_less_cancel_right_pos)
  then have "?m < B * 2 ^ ?k" by (simp only: of_int_less_iff)
  then have "?m \<le> B * 2 ^ ?k - 1" by linarith
  then have "(of_int ?m :: real) \<le> of_int (B * 2 ^ ?k - 1)" by (simp only: of_int_le_iff)
  then have "of_int ?m * ?u \<le> of_int (B * 2 ^ ?k - 1) * ?u"
    using u by (intro mult_right_mono) simp_all
  also have "of_int (B * 2 ^ ?k - 1) * ?u = of_int (B * 2 ^ ?k) * ?u - ?u"
    by (simp add: algebra_simps)
  finally show ?thesis unfolding float64_pos[OF assms(1)] B .
qed

subsection \<open>A whole part and a fraction\<close>

lemma frac_bounds:
  assumes "0 \<le> n" and "n < c" and "c < 2 ^ 53"
  shows "0 \<le> float64 (float64 (of_int n) / of_int c)"
    and "float64 (float64 (of_int n) / of_int c) \<le> 1"
proof -
  let ?x = "real_of_int n / real_of_int c"
  from assms have n53: "n < 2 ^ 53" by simp
  have fn: "float64 (of_int n) = of_int n" by (rule float64_of_int[OF assms(1) n53])
  from assms have c: "0 < real_of_int c" by simp
  from assms(1) c have x0: "0 \<le> ?x" by simp
  from assms(2) have "real_of_int n \<le> real_of_int c - 1" by linarith
  with c have x1: "?x \<le> 1 - 1 / real_of_int c" by (simp add: field_simps)
  with c have xlt: "?x < 1" by (smt (verit) divide_pos_pos zero_less_one)
  then have x53: "?x < 2 ^ 53" by simp
  from float64_ge_int[OF x0 x53, of 0] x0 show "0 \<le> float64 (float64 (of_int n) / of_int c)"
    by (simp add: fn)
  from float64_le_int[OF x0 x53, of 1] xlt
  show "float64 (float64 (of_int n) / of_int c) \<le> 1" by (simp add: fn)
qed

lemma frac_margin:
  assumes "0 \<le> n" and "1 \<le> m" and "n + m \<le> c" and "c < 2 ^ 53"
  shows "float64 (float64 (of_int n) / of_int c)
       \<le> 1 - real_of_int m / real_of_int c + 2 powi (- 54)"
proof -
  let ?x = "real_of_int n / real_of_int c"
  from assms have n53: "n < 2 ^ 53" by simp
  have fn: "float64 (of_int n) = of_int n" by (rule float64_of_int[OF assms(1) n53])
  from assms have c: "0 < real_of_int c" by simp
  from assms(1) c have x0: "0 \<le> ?x" by simp
  from assms(3) have "real_of_int n \<le> real_of_int c - real_of_int m" by linarith
  with c have x1: "?x \<le> 1 - real_of_int m / real_of_int c" by (simp add: field_simps)
  from assms(2) c have "0 < real_of_int m / real_of_int c" by simp
  with x1 have xlt: "?x < 1" by linarith
  show ?thesis
  proof (cases "?x = 0")
    case True
    from assms(1,3) have "real_of_int m \<le> real_of_int c" by linarith
    with c have "real_of_int m / real_of_int c \<le> 1" by simp
    moreover have "(0::real) \<le> 2 powi (- 54)" by simp
    moreover have "float64 ?x = 0" unfolding True by (simp add: float64_def)
    ultimately show ?thesis unfolding fn by linarith
  next
    case False
    with x0 have pos: "0 < ?x" by linarith
    from xlt have "?x < 2 powi 0" by simp
    from float64_err_below[OF pos this] have "\<bar>float64 ?x - ?x\<bar> \<le> 2 powi (- 54)" by simp
    with x1 show ?thesis unfolding fn by linarith
  qed
qed

lemma whole_bounds:
  assumes "0 \<le> w" and "w + 1 < 2 ^ 53" and "0 \<le> q" and "q \<le> 1"
  shows "of_int w \<le> float64 (of_int w + q)"
    and "float64 (of_int w + q) \<le> of_int w + 1"
proof -
  let ?x = "real_of_int w + q"
  from assms have x0: "0 \<le> ?x" by simp
  from assms(2) have "real_of_int (w + 1) < 2 ^ 53"
    by (simp only: of_int_less_numeral_power_cancel_iff)
  with assms(4) have x53: "?x < 2 ^ 53" by simp
  from float64_ge_int[OF x0 x53, of w] assms(3) show "of_int w \<le> float64 ?x" by simp
  from float64_le_int[OF x0 x53, of "w + 1"] assms(4) show "float64 ?x \<le> of_int w + 1" by simp
qed

lemma whole_strict:
  assumes "0 \<le> w" and "real_of_int w + 1 \<le> 2 powi K" and "0 \<le> q" and "q \<le> 1 - g"
    and "2 powi (K - 54) < g"
  shows "float64 (of_int w + q) < of_int w + 1"
proof (cases "real_of_int w + q = 0")
  case True
  with assms(1) show ?thesis by (simp add: float64_def)
next
  case False
  let ?x = "real_of_int w + q"
  from False assms have pos: "0 < ?x" by simp
  have "(0::real) < 2 powi (K - 54)" by simp
  with assms(5) have g: "0 < g" by linarith
  with assms have "?x < 2 powi K" by linarith
  from float64_err_below[OF pos this] assms(4,5) show ?thesis by linarith
qed

lemma power_int_split: "m = a + b \<Longrightarrow> (2::real) powi m = 2 powi a * 2 powi b"
  by (simp add: power_int_add)

lemma days_floor:
  assumes "24 \<le> H" and "H < 2 ^ 22" and "0 \<le> q" and "q \<le> 1"
    and "float64 (of_int H + q) < of_int H + 1"
  shows "of_int (H div 24) \<le> float64 (float64 (of_int H + q) / 24)
       \<and> float64 (float64 (of_int H + q) / 24) < of_int (H div 24) + 1"
proof -
  let ?x = "real_of_int H + q"
  let ?e = "exponent ?x"
  let ?u = "2 powi (?e - 52) :: real"
  let ?s = "float64 ?x"
  let ?y = "?s / 24"
  let ?D = "H div 24"
  from assms have pos: "0 < ?x" by simp
  from assms(2) have "real_of_int H < 2 ^ 22" by (simp only: of_int_less_numeral_power_cancel_iff)
  with assms(4) have "?x < 2 powi 23" by simp
  from exponent_less[OF pos this] have e22: "?e \<le> 22" by simp
  from assms(1) have "2 powi 4 \<le> ?x" using assms(3) by simp
  from exponent_ge[OF pos this] have e4: "4 \<le> ?e" .
  have u: "0 < ?u" by (simp add: zero_less_power_int)
  from assms(5) have "?s < of_int (H + 1)" by simp
  from float64_below_int[OF pos _ this] e22
  have s_hi: "?s \<le> real_of_int H + 1 - ?u" by simp
  have x53: "?x < 2 ^ 53" using \<open>?x < 2 powi 23\<close> by simp
  from float64_ge_int[OF _ x53, of H] assms(3) pos have s_lo: "real_of_int H \<le> ?s" by simp
  have D1: "24 * ?D \<le> H" and D2: "H + 1 \<le> 24 * (?D + 1)" by presburger+
  from D1 have "real_of_int (24 * ?D) \<le> real_of_int H" by (simp only: of_int_le_iff)
  then have D1r: "24 * real_of_int ?D \<le> real_of_int H" by simp
  from D2 have "real_of_int (H + 1) \<le> real_of_int (24 * (?D + 1))"
    by (simp only: of_int_le_iff)
  then have D2r: "real_of_int H + 1 \<le> 24 * (real_of_int ?D + 1)" by simp
  from s_lo D1r have y_lo: "real_of_int ?D \<le> ?y" by simp
  from s_hi D2r have y_hi: "?y \<le> real_of_int ?D + 1 - ?u / 24" by simp
  from assms(1) s_lo have ypos: "0 < ?y" by simp
  have xup: "?x < 2 powi (?e + 1)" using exponent_bounds[OF pos] by simp
  have "(2::real) powi (?e + 1) = 2 ^ nat (?e + 1)" using e4 by (simp add: power_int_def)
  also have "\<dots> = of_int (2 ^ nat (?e + 1))" by simp
  finally have pw: "(2::real) powi (?e + 1) = of_int (2 ^ nat (?e + 1))" .
  from xup assms(3) have "real_of_int H < 2 powi (?e + 1)" by linarith
  then have "H < 2 ^ nat (?e + 1)" unfolding pw by (simp only: of_int_less_iff)
  then have "H + 1 \<le> 2 ^ nat (?e + 1)" by simp
  then have "real_of_int (H + 1) \<le> of_int (2 ^ nat (?e + 1))" by (simp only: of_int_le_iff)
  then have "real_of_int H + 1 \<le> 2 powi (?e + 1)" unfolding pw by simp
  with s_hi u have "?s < 2 powi (?e + 1)" by linarith
  moreover have "(2::real) powi (?e + 1) = 16 * 2 powi (?e - 3)"
  proof -
    have "(2::real) powi (?e + 1) = 2 powi (?e - 3) * 2 powi 4"
      by (rule power_int_split) simp
    then show ?thesis by simp
  qed
  moreover have "(0::real) < 2 powi (?e - 3)" by (simp add: zero_less_power_int)
  ultimately have "?y < 2 powi (?e - 3)" by linarith
  from float64_err_below[OF ypos this] have "\<bar>float64 ?y - ?y\<bar> \<le> 2 powi (?e - 57)" by simp
  moreover have "(2::real) powi (?e - 52) = 32 * 2 powi (?e - 57)"
  proof -
    have "(2::real) powi (?e - 52) = 2 powi (?e - 57) * 2 powi 5"
      by (rule power_int_split) simp
    then show ?thesis by simp
  qed
  moreover have "(0::real) < 2 powi (?e - 57)" by (simp add: zero_less_power_int)
  ultimately have t_hi: "float64 ?y < real_of_int ?D + 1" using y_hi by linarith
  have "(2::real) powi (?e + 1) \<le> 2 powi 23"
    using e22 by (intro power_int_increasing) simp_all
  with \<open>?s < 2 powi (?e + 1)\<close> have "?s < 2 powi 23" by linarith
  then have y53: "?y < 2 ^ 53" by simp
  from float64_ge_int[OF _ y53 y_lo] ypos have "real_of_int ?D \<le> float64 ?y" by simp
  with t_hi show ?thesis by simp
qed

lemma Seconds_shape: "Seconds d = wholeAndFraction Second d"
  by (simp add: Seconds_def wholeAndFraction_def Let_def Second_def)

lemma Minutes_shape: "Minutes d = wholeAndFraction Minute d"
  by (simp add: Minutes_def wholeAndFraction_def Let_def Minute_def Second_def)

lemma Hours_shape: "Hours d = wholeAndFraction Hour d"
  by (simp add: Hours_def wholeAndFraction_def Let_def Hour_def Minute_def Second_def)

lemma quo_rem_nonneg:
  assumes "0 \<le> d" and "0 < c"
  shows "quo d c = d div c" and "rem d c = d mod c"
proof -
  from assms show q: "quo d c = d div c" by (simp add: quo_def)
  show "rem d c = d mod c" by (simp add: rem_def q minus_mult_div_eq_mod)
qed

lemma quo_rem_neg:
  assumes "d < 0" and "0 < c"
  shows "quo d c = - ((- d) div c)" and "rem d c = - ((- d) mod c)"
proof -
  from assms show q: "quo d c = - ((- d) div c)" by (simp add: quo_def)
  have "(- d) mod c = (- d) - c * ((- d) div c)" by (simp add: minus_mult_div_eq_mod)
  then show "rem d c = - ((- d) mod c)" by (simp add: rem_def q)
qed

lemma wholeAndFraction_neg:
  assumes "d < 0" and "0 < c"
  shows "wholeAndFraction c d = - wholeAndFraction c (- d)"
proof -
  from assms have "0 \<le> - d" by simp
  note p = quo_rem_nonneg[OF this assms(2)]
  note n = quo_rem_neg[OF assms]
  let ?a = "float64 (real_of_int ((- d) div c))"
  let ?b = "float64 (float64 (real_of_int ((- d) mod c)) / real_of_int c)"
  have a: "float64 (real_of_int (- ((- d) div c))) = - ?a"
    by (simp add: float64_minus)
  have "float64 (real_of_int (- ((- d) mod c))) / real_of_int c
      = - (float64 (real_of_int ((- d) mod c)) / real_of_int c)"
    by (simp add: float64_minus)
  then have b: "float64 (float64 (real_of_int (- ((- d) mod c))) / real_of_int c) = - ?b"
    by (simp only: float64_minus)
  have "float64 (- ?a + - ?b) = float64 (- (?a + ?b))" by simp
  also have "\<dots> = - float64 (?a + ?b)" by (rule float64_minus)
  finally show ?thesis unfolding wholeAndFraction_def n p a b .
qed

lemma wholeAndFraction_bounds:
  assumes "0 \<le> d" and "0 < c" and "c < 2 ^ 53" and "d div c + 1 < 2 ^ 53"
  shows "of_int (d div c) \<le> wholeAndFraction c d"
    and "wholeAndFraction c d \<le> of_int (d div c) + 1"
proof -
  let ?S = "d div c" and ?n = "d mod c"
  from assms have w: "0 \<le> ?S" by (simp add: pos_imp_zdiv_nonneg_iff)
  from assms have n: "0 \<le> ?n" "?n < c" by simp_all
  from assms(4) have "?S < 2 ^ 53" by simp
  note fS = float64_of_int[OF w this]
  note q = frac_bounds[OF n assms(3)]
  from whole_bounds[OF w assms(4) q(1) q(2)]
  show "of_int ?S \<le> wholeAndFraction c d" and "wholeAndFraction c d \<le> of_int ?S + 1"
    unfolding wholeAndFraction_def quo_rem_nonneg[OF assms(1,2)] fS by simp_all
qed

lemma wholeAndFraction_below:
  assumes "0 \<le> d" and "0 < c" and "c < 2 ^ 53"
    and "real_of_int (d div c) + 1 \<le> 2 powi K"
    and "2 powi (K - 54) + 2 powi (- 54) < real_of_int m / real_of_int c"
    and "d div c < 2 ^ 53" and "1 \<le> m" and "d mod c + m \<le> c"
  shows "wholeAndFraction c d < of_int (d div c) + 1"
proof -
  let ?S = "d div c" and ?n = "d mod c"
  from assms have w: "0 \<le> ?S" by (simp add: pos_imp_zdiv_nonneg_iff)
  from assms have n: "0 \<le> ?n" "?n < c" by simp_all
  note fS = float64_of_int[OF w assms(6)]
  note q = frac_bounds[OF n assms(3)]
  let ?g = "real_of_int m / real_of_int c - 2 powi (- 54)"
  from frac_margin[OF n(1) assms(7,8,3)]
  have a: "float64 (float64 (of_int ?n) / of_int c) \<le> 1 - ?g" by simp
  from assms(5) have b: "2 powi (K - 54) < ?g" by simp
  from whole_strict[OF w assms(4) q(1) a b]
  show ?thesis unfolding wholeAndFraction_def quo_rem_nonneg[OF assms(1,2)] fS .
qed

lemma intOfFloat_unit:
  assumes "0 \<le> w" and "of_int w \<le> v" and "v < of_int w + 1"
  shows "intOfFloat v = w"
proof -
  from assms have "0 \<le> v" by linarith
  moreover from assms have "\<lfloor>v\<rfloor> = w" by linarith
  ultimately show ?thesis by (simp add: intOfFloat_def)
qed

lemma intOfFloat_between:
  assumes "0 \<le> w" and "of_int w \<le> v" and "v \<le> of_int w + 1"
  shows "w \<le> intOfFloat v \<and> intOfFloat v \<le> w + 1"
proof -
  from assms have "0 \<le> v" by linarith
  moreover from assms have "w \<le> \<lfloor>v\<rfloor>" "\<lfloor>v\<rfloor> \<le> w + 1" by linarith+
  ultimately show ?thesis by (simp add: intOfFloat_def)
qed

lemma intOfFloat_minus:
  assumes "0 \<le> v"
  shows "intOfFloat (- v) = - intOfFloat v"
  using assms by (auto simp: intOfFloat_def ceiling_minus)

subsection \<open>The rendering of a duration\<close>

lemma formatDuration_seconds:
  assumes "0 \<le> d" and "d < Minute"
  shows "formatDuration d = itoa (d div Second) @ ''s''"
proof -
  let ?S = "d div Second"
  have c: "0 < Second" "Second < 2 ^ 53" by (simp_all add: Second_def)
  from assms have w: "0 \<le> ?S" "?S < 60" by (simp_all add: Minute_def Second_def)
  then have s53: "?S + 1 < 2 ^ 53" "?S < 2 ^ 53" by simp_all
  from w have k: "real_of_int ?S + 1 \<le> 2 powi 6" by simp
  have g: "2 powi (6 - 54) + 2 powi (- 54) < real_of_int 1 / real_of_int Second"
    by (simp add: Second_def)
  have m: "(1::int) \<le> 1" "d mod Second + 1 \<le> Second"
      using pos_mod_bound[OF c(1), of "d"] by simp_all
  from wholeAndFraction_bounds(1)[OF assms(1) c s53(1)]
    wholeAndFraction_below[OF assms(1) c k g s53(2) m]
  have "intOfFloat (Seconds d) = ?S"
    unfolding Seconds_shape by (rule intOfFloat_unit[OF w(1)])
  with assms(2) show ?thesis by (simp add: formatDuration_def)
qed

lemma formatDuration_minutes:
  assumes "Minute \<le> d" and "d < Hour"
  shows "formatDuration d = itoa (d div Minute) @ ''m''"
proof -
  let ?S = "d div Minute"
  have c: "0 < Minute" "Minute < 2 ^ 53" by (simp_all add: Minute_def Second_def)
  from assms have d0: "0 \<le> d" by (simp add: Minute_def Second_def)
  from assms have w: "0 \<le> ?S" "?S < 60" by (simp_all add: Hour_def Minute_def Second_def)
  then have s53: "?S + 1 < 2 ^ 53" "?S < 2 ^ 53" by simp_all
  from w have k: "real_of_int ?S + 1 \<le> 2 powi 6" by simp
  have g: "2 powi (6 - 54) + 2 powi (- 54) < real_of_int 1 / real_of_int Minute"
    by (simp add: Minute_def Second_def)
  have m: "(1::int) \<le> 1" "d mod Minute + 1 \<le> Minute"
      using pos_mod_bound[OF c(1), of "d"] by simp_all
  from wholeAndFraction_bounds(1)[OF d0 c s53(1)]
    wholeAndFraction_below[OF d0 c k g s53(2) m]
  have "intOfFloat (Minutes d) = ?S"
    unfolding Minutes_shape by (rule intOfFloat_unit[OF w(1)])
  with assms show ?thesis by (simp add: formatDuration_def)
qed

lemma formatDuration_hours:
  assumes "Hour \<le> d" and "d < 24 * Hour"
  shows "formatDuration d = itoa (d div Hour) @ ''h''"
proof -
  let ?S = "d div Hour"
  have c: "0 < Hour" "Hour < 2 ^ 53" by (simp_all add: Hour_def Minute_def Second_def)
  from assms have d0: "0 \<le> d" by (simp add: Hour_def Minute_def Second_def)
  from assms have w: "0 \<le> ?S" "?S < 24" by (simp_all add: Hour_def Minute_def Second_def)
  then have s53: "?S + 1 < 2 ^ 53" "?S < 2 ^ 53" by simp_all
  from w have k: "real_of_int ?S + 1 \<le> 2 powi 5" by simp
  have g: "2 powi (5 - 54) + 2 powi (- 54) < real_of_int 1 / real_of_int Hour"
    by (simp add: Hour_def Minute_def Second_def)
  have m: "(1::int) \<le> 1" "d mod Hour + 1 \<le> Hour"
      using pos_mod_bound[OF c(1), of "d"] by simp_all
  from wholeAndFraction_bounds(1)[OF d0 c s53(1)]
    wholeAndFraction_below[OF d0 c k g s53(2) m]
  have "intOfFloat (Hours d) = ?S"
    unfolding Hours_shape by (rule intOfFloat_unit[OF w(1)])
  moreover from assms have "\<not> d < Minute" "\<not> d < Hour"
    by (simp_all add: Hour_def Minute_def Second_def)
  ultimately show ?thesis using assms(2) by (simp add: formatDuration_def)
qed

text \<open>
  Below zero the whole seconds reach \<open>2 ^ 33\<close>, where a \<open>float64\<close> holds no
  nanoseconds: the sum keeps the whole seconds unless the elapsed time is within a
  microsecond of the next whole second.
\<close>

lemma formatDuration_negative:
  assumes "d < 0" and "- (2 ^ 63) \<le> d"
  shows "\<exists>n. formatDuration d = itoa (- n) @ ''s''
           \<and> (- d) div Second \<le> n \<and> n \<le> (- d) div Second + 1
           \<and> (- (4096 * Hour) < d \<or> (- d) mod Second + 1000 \<le> Second
                \<longrightarrow> n = (- d) div Second)"
proof -
  let ?S = "(- d) div Second"
  let ?v = "wholeAndFraction Second (- d)"
  have c: "0 < Second" "Second < 2 ^ 53" by (simp_all add: Second_def)
  from assms have d0: "0 \<le> - d" and d63: "- d \<le> 2 ^ 63" by simp_all
  from d0 have w: "0 \<le> ?S" by (simp add: Second_def pos_imp_zdiv_nonneg_iff)
  from d63 have "?S \<le> 2 ^ 63 div Second" by (rule zdiv_mono1) (simp add: Second_def)
  then have up: "?S < 2 ^ 34 - 1" by (simp add: Second_def)
  then have s53: "?S + 1 < 2 ^ 53" "?S < 2 ^ 53" by simp_all
  note b = wholeAndFraction_bounds[OF d0 c s53(1)]
  from b w have v0: "0 \<le> ?v" by linarith
  have sec: "Seconds d = - ?v"
    unfolding Seconds_shape by (rule wholeAndFraction_neg[OF assms(1) c(1)])
  from assms(1) have "d < Minute" by (simp add: Minute_def Second_def)
  then have f: "formatDuration d = itoa (- intOfFloat ?v) @ ''s''"
    by (simp add: formatDuration_def sec intOfFloat_minus[OF v0])
  have near: "intOfFloat ?v = ?S" if "- (4096 * Hour) < d"
  proof -
    from that have "- d < 14745600 * Second" by (simp add: Hour_def Minute_def)
    then have "?S < 14745600" by (simp add: Second_def)
    then have k: "real_of_int ?S + 1 \<le> 2 powi 24" by simp
    have g: "2 powi (24 - 54) + 2 powi (- 54) < real_of_int 1 / real_of_int Second"
      by (simp add: Second_def)
    have m: "(1::int) \<le> 1" "(- d) mod Second + 1 \<le> Second"
      using pos_mod_bound[OF c(1), of "- d"] by simp_all
    from b(1) wholeAndFraction_below[OF d0 c k g s53(2) m]
    show ?thesis by (rule intOfFloat_unit[OF w])
  qed
  have far: "intOfFloat ?v = ?S" if "(- d) mod Second + 1000 \<le> Second"
  proof -
    from up have "?S + 1 < 2 ^ 34" by simp
    then have "real_of_int (?S + 1) < 2 ^ 34"
      by (simp only: of_int_less_numeral_power_cancel_iff)
    then have k: "real_of_int ?S + 1 \<le> 2 powi 34" by simp
    have g: "2 powi (34 - 54) + 2 powi (- 54) < real_of_int 1000 / real_of_int Second"
      by (simp add: Second_def)
    have m: "(1::int) \<le> 1000" by simp
    from b(1) wholeAndFraction_below[OF d0 c k g s53(2) m that]
    show ?thesis by (rule intOfFloat_unit[OF w])
  qed
  from intOfFloat_between[OF w b] f near far show ?thesis by blast
qed

text \<open>
  From a day on. The sum of \<open>Hours\<close> keeps the whole hours below 4096 hours, and
  beyond that unless the elapsed time is within two microseconds of the next whole hour;
  the division by 24 then keeps the whole days.
\<close>

lemma formatDuration_days:
  assumes "24 * Hour \<le> d" and "d < 2 ^ 63"
  shows "\<exists>n. formatDuration d = itoa n @ ''d''
           \<and> d div (24 * Hour) \<le> n \<and> n \<le> d div (24 * Hour) + 1
           \<and> (d < 4096 * Hour \<or> d mod Hour + 2000 \<le> Hour \<longrightarrow> n = d div (24 * Hour))"
proof -
  let ?H = "d div Hour"
  let ?D = "d div (24 * Hour)"
  let ?q = "float64 (float64 (real_of_int (d mod Hour)) / real_of_int Hour)"
  let ?s = "Hours d"
  let ?y = "?s / 24"
  have c: "0 < Hour" "Hour < 2 ^ 53" by (simp_all add: Hour_def Minute_def Second_def)
  from assms have d0: "0 \<le> d" by (simp add: Hour_def Minute_def Second_def)
  have D: "?D = ?H div 24"
    using c(1) by (simp add: mult.commute[of 24 Hour] zdiv_zmult2_eq)
  from assms(1) have "24 * Hour div Hour \<le> ?H" by (intro zdiv_mono1) (simp_all add: c)
  then have H24: "24 \<le> ?H" using c(1) by simp
  from assms(2) have "?H \<le> 2 ^ 63 div Hour" using c(1) by (intro zdiv_mono1) simp_all
  then have Hup: "?H < 2 ^ 22 - 1" by (simp add: Hour_def Minute_def Second_def)
  then have s53: "?H + 1 < 2 ^ 53" "?H < 2 ^ 53" and H22: "?H < 2 ^ 22" by simp_all
  from H24 have H0: "0 \<le> ?H" by simp
  note b = wholeAndFraction_bounds[OF d0 c s53(1), folded Hours_shape]
  have D0: "0 \<le> ?D" unfolding D using H0 by (simp add: pos_imp_zdiv_nonneg_iff)
  have "\<And>h::int. 24 * (h div 24) \<le> h \<and> h + 1 \<le> 24 * (h div 24 + 1)" by presburger
  then have D1: "24 * ?D \<le> ?H" and D2: "?H + 1 \<le> 24 * (?D + 1)" unfolding D by blast+
  from D1 have "real_of_int (24 * ?D) \<le> real_of_int ?H" by (simp only: of_int_le_iff)
  then have D1r: "24 * real_of_int ?D \<le> real_of_int ?H" by simp
  from D2 have "real_of_int (?H + 1) \<le> real_of_int (24 * (?D + 1))"
    by (simp only: of_int_le_iff)
  then have D2r: "real_of_int ?H + 1 \<le> 24 * (real_of_int ?D + 1)" by simp
  from b(1) D1r have y_lo: "real_of_int ?D \<le> ?y" by simp
  from b(2) D2r have y_hi: "?y \<le> real_of_int (?D + 1)" by simp
  from y_lo D0 have y0: "0 \<le> ?y" by linarith
  from H22 have "real_of_int ?H < 2 ^ 22" by (simp only: of_int_less_numeral_power_cancel_iff)
  with b(2) have y53: "?y < 2 ^ 53" by simp
  from float64_ge_int[OF y0 y53 y_lo] float64_le_int[OF y0 y53 y_hi]
  have t: "real_of_int ?D \<le> float64 ?y" "float64 ?y \<le> real_of_int ?D + 1" by simp_all
  from assms(1) have nb: "\<not> d < Minute" "\<not> d < Hour" "\<not> d < 24 * Hour"
    by (simp_all add: Hour_def Minute_def Second_def)
  then have f: "formatDuration d = itoa (intOfFloat (float64 ?y)) @ ''d''"
    by (simp add: formatDuration_def)
  have n: "0 \<le> d mod Hour" "d mod Hour < Hour" using c(1) by simp_all
  note q = frac_bounds[OF n c(2)]
  have sh: "?s = float64 (real_of_int ?H + ?q)"
    unfolding Hours_shape wholeAndFraction_def quo_rem_nonneg[OF d0 c(1)]
      float64_of_int[OF H0 s53(2)] ..
  have whole: "intOfFloat (float64 ?y) = ?D" if "?s < real_of_int ?H + 1"
  proof -
    from that have "float64 (real_of_int ?H + ?q) < real_of_int ?H + 1" unfolding sh .
    from days_floor[OF H24 H22 q this]
    show ?thesis unfolding sh[symmetric] D[symmetric]
      by (intro intOfFloat_unit[OF D0]) simp_all
  qed
  have near: "?s < real_of_int ?H + 1" if "d < 4096 * Hour"
  proof -
    from that have "?H < 4096" by (simp add: Hour_def Minute_def Second_def)
    then have k: "real_of_int ?H + 1 \<le> 2 powi 12" by simp
    have g: "2 powi (12 - 54) + 2 powi (- 54) < real_of_int 1 / real_of_int Hour"
      by (simp add: Hour_def Minute_def Second_def)
    have m: "(1::int) \<le> 1" "d mod Hour + 1 \<le> Hour"
      using pos_mod_bound[OF c(1), of "d"] by simp_all
    from wholeAndFraction_below[OF d0 c k g s53(2) m] show ?thesis
      unfolding Hours_shape .
  qed
  have far: "?s < real_of_int ?H + 1" if "d mod Hour + 2000 \<le> Hour"
  proof -
    from Hup have "?H + 1 < 2 ^ 22" by simp
    then have "real_of_int (?H + 1) < 2 ^ 22"
      by (simp only: of_int_less_numeral_power_cancel_iff)
    then have k: "real_of_int ?H + 1 \<le> 2 powi 22" by simp
    have g: "2 powi (22 - 54) + 2 powi (- 54) < real_of_int 2000 / real_of_int Hour"
      by (simp add: Hour_def Minute_def Second_def)
    have m: "(1::int) \<le> 2000" by simp
    from wholeAndFraction_below[OF d0 c k g s53(2) m that] show ?thesis
      unfolding Hours_shape .
  qed
  from intOfFloat_between[OF D0 t] f whole near far show ?thesis by blast
qed

lemmas float_eval =
  float64_def exponent_def halvings.simps doublings.simps roundEven_def Let_def quo_def rem_def
  intOfFloat_def Second_def Minute_def Hour_def Seconds_def Minutes_def Hours_def
  formatDuration_def itoa_def digits.simps

text \<open>
  One nanosecond short of 171 days is 4103 hours and a fraction that the sum rounds up to
  4104 hours: the age is shown as 171 days. Below 4096 hours the sum keeps the fraction.
\<close>

lemma formatDuration_rounding:
  "formatDuration (171 * (24 * Hour) - 1) = ''171d''"
  "formatDuration (170 * (24 * Hour) - 1) = ''169d''"
  by (simp_all add: float_eval)

lemma calculateAge_cases:
  "fst (NestedString obj [''metadata'', ''creationTimestamp'']) = []
     \<Longrightarrow> calculateAge rt obj = noneValue"
  "timeParse rt (fst (NestedString obj [''metadata'', ''creationTimestamp''])) = Inl e
     \<Longrightarrow> calculateAge rt obj = noneValue"
  "fst (NestedString obj [''metadata'', ''creationTimestamp'']) \<noteq> []
     \<Longrightarrow> timeParse rt (fst (NestedString obj [''metadata'', ''creationTimestamp''])) = Inr t
     \<Longrightarrow> calculateAge rt obj = formatDuration (timeSince rt t)"
    apply (simp_all add: calculateAge_def split: prod.splits)
   apply (auto simp: NestedString_def split: prod.splits if_splits json.splits)
  done

text \<open>
  C9. The age of an item is the time elapsed since its creation timestamp, written as a
  whole number and the coarsest unit that the elapsed time reaches: seconds below a minute,
  minutes below an hour, hours below a day, days from a day on. So 45 seconds render as
  "45s", 90 seconds as "1m" and 25 hours as "1d". The number is the whole number of
  units elapsed. From a day on this holds below 4096 hours, and beyond that whenever the
  elapsed time is not within two microseconds of the next whole hour, where the
  \<open>float64\<close> sum of \<open>Hours\<close> can round up: the number is then the whole number of
  days or one more. An elapsed time below zero (a timestamp ahead of the clock) is below a
  minute, so it is written in seconds, with the sign. When the timestamp is missing, empty
  or rejected by the parser, the age is the placeholder; \<open>calculateAge\<close> returns a
  string on every path and has no error to report. A \<open>time.Duration\<close> is a count of
  nanoseconds in 64 bits.
\<close>

theorem calculateAge_rendering:
  "formatDuration (45 * Second) = ''45s''
   \<and> formatDuration (90 * Second) = ''1m''
   \<and> formatDuration (25 * Hour) = ''1d''
   \<and> (0 \<le> d \<and> d < Minute \<longrightarrow> formatDuration d = itoa (d div Second) @ ''s'')
   \<and> (Minute \<le> d \<and> d < Hour \<longrightarrow> formatDuration d = itoa (d div Minute) @ ''m'')
   \<and> (Hour \<le> d \<and> d < 24 * Hour \<longrightarrow> formatDuration d = itoa (d div Hour) @ ''h'')
   \<and> (24 * Hour \<le> d \<and> d < 2 ^ 63 \<longrightarrow>
        (\<exists>n. formatDuration d = itoa n @ ''d''
           \<and> d div (24 * Hour) \<le> n \<and> n \<le> d div (24 * Hour) + 1
           \<and> (d < 4096 * Hour \<or> d mod Hour + 2000 \<le> Hour \<longrightarrow> n = d div (24 * Hour))))
   \<and> (- (2 ^ 63) \<le> d \<and> d < 0 \<longrightarrow>
        (\<exists>n. formatDuration d = itoa (- n) @ ''s''
           \<and> (- d) div Second \<le> n \<and> n \<le> (- d) div Second + 1
           \<and> (- (4096 * Hour) < d \<or> (- d) mod Second + 1000 \<le> Second
                \<longrightarrow> n = (- d) div Second)))
   \<and> (fst (NestedString obj [''metadata'', ''creationTimestamp'']) = []
        \<longrightarrow> calculateAge rt obj = noneValue)
   \<and> (isl (timeParse rt (fst (NestedString obj [''metadata'', ''creationTimestamp''])))
        \<longrightarrow> calculateAge rt obj = noneValue)
   \<and> (fst (NestedString obj [''metadata'', ''creationTimestamp'']) \<noteq> []
        \<and> timeParse rt (fst (NestedString obj [''metadata'', ''creationTimestamp''])) = Inr t
        \<longrightarrow> calculateAge rt obj = formatDuration (timeSince rt t))"
proof -
  have e1: "formatDuration (45 * Second) = ''45s''"
    using formatDuration_seconds[of "45 * Second"]
    by (simp add: Second_def Minute_def itoa_def digits.simps)
  have e2: "formatDuration (90 * Second) = ''1m''"
    using formatDuration_minutes[of "90 * Second"]
    by (simp add: Second_def Minute_def Hour_def itoa_def digits.simps)
  from formatDuration_days[of "25 * Hour"]
  have e3: "formatDuration (25 * Hour) = ''1d''"
    by (auto simp: Second_def Minute_def Hour_def itoa_def digits.simps)
  have unparsed: "isl (timeParse rt (fst (NestedString obj [''metadata'', ''creationTimestamp''])))
        \<longrightarrow> calculateAge rt obj = noneValue"
    by (auto simp: isl_def dest: calculateAge_cases(2))
  from e1 e2 e3 formatDuration_seconds[of d] formatDuration_minutes[of d]
    formatDuration_hours[of d] formatDuration_days[of d] formatDuration_negative[of d]
    calculateAge_cases(1)[of obj rt] calculateAge_cases(3)[of obj rt t] unparsed
  show ?thesis by blast
qed

theorem calculateAge_rendering_witness:
  "calculateAge sampleRuntime (bare_item ''ns-a'' ''settings'') = ''<none>''
   \<and> calculateAge sampleRuntime (pod_item ''ns-a'' ''web'' ''Running'' []) = ''<none>''
   \<and> isl (timeParse sampleRuntime ''yesterday'')
   \<and> calculateAge sampleRuntime (pod_item ''ns-a'' ''web'' ''Running'' ''yesterday'') = ''<none>''
   \<and> calculateAge sampleRuntime (pod_item ''ns-a'' ''web'' ''Running'' ''2024-01-01T00:00:00Z'')
       = ''1m''
   \<and> formatDuration (59 * Second) = ''59s''
   \<and> formatDuration (3599 * Second) = ''59m''
   \<and> formatDuration (23 * Hour) = ''23h''
   \<and> formatDuration (100 * (24 * Hour)) = ''100d''
   \<and> formatDuration (200 * (24 * Hour)) = ''200d''
   \<and> formatDuration (171 * (24 * Hour) - 1) = ''171d''
   \<and> formatDuration (- (25 * Hour)) = ''-90000s''"
proof -
  let ?path = "[''metadata'', ''creationTimestamp'']"
  have n1: "fst (NestedString (bare_item ''ns-a'' ''settings'') ?path) = []"
    and n2: "fst (NestedString (pod_item ''ns-a'' ''web'' ''Running'' []) ?path) = []"
    and n3: "fst (NestedString (pod_item ''ns-a'' ''web'' ''Running'' ''yesterday'') ?path)
              = ''yesterday''"
    and n4: "fst (NestedString (pod_item ''ns-a'' ''web'' ''Running'' ''2024-01-01T00:00:00Z'')
              ?path) = ''2024-01-01T00:00:00Z''"
    by (simp_all add: NestedString_def bare_item_def pod_item_def)
  have p3: "isl (timeParse sampleRuntime ''yesterday'')"
    and p4: "timeParse sampleRuntime ''2024-01-01T00:00:00Z'' = Inr 0"
    and s4: "timeSince sampleRuntime 0 = 90 * Second"
    by (simp_all add: sampleRuntime_def sampleParse_def)
  have a1: "calculateAge sampleRuntime (bare_item ''ns-a'' ''settings'') = ''<none>''"
    using calculateAge_rendering[of 0 "bare_item ''ns-a'' ''settings''" sampleRuntime] n1
    by (simp add: noneValue_def)
  have a2: "calculateAge sampleRuntime (pod_item ''ns-a'' ''web'' ''Running'' []) = ''<none>''"
    using calculateAge_rendering[of 0 "pod_item ''ns-a'' ''web'' ''Running'' []" sampleRuntime] n2
    by (simp add: noneValue_def)
  have a3: "calculateAge sampleRuntime (pod_item ''ns-a'' ''web'' ''Running'' ''yesterday'')
      = ''<none>''"
    using calculateAge_rendering[of 0 "pod_item ''ns-a'' ''web'' ''Running'' ''yesterday''"
        sampleRuntime] n3 p3
    by (simp add: noneValue_def)
  have a4: "calculateAge sampleRuntime
      (pod_item ''ns-a'' ''web'' ''Running'' ''2024-01-01T00:00:00Z'') = ''1m''"
    using calculateAge_rendering[of 0
        "pod_item ''ns-a'' ''web'' ''Running'' ''2024-01-01T00:00:00Z''" sampleRuntime 0]
      n4 p4 s4
    by simp
  have d1: "formatDuration (59 * Second) = ''59s''"
    using calculateAge_rendering[of "59 * Second"]
    by (simp add: Second_def Minute_def itoa_def digits.simps)
  have d2: "formatDuration (3599 * Second) = ''59m''"
    using calculateAge_rendering[of "3599 * Second"]
    by (simp add: Second_def Minute_def Hour_def itoa_def digits.simps)
  have d3: "formatDuration (23 * Hour) = ''23h''"
    using calculateAge_rendering[of "23 * Hour"]
    by (simp add: Second_def Minute_def Hour_def itoa_def digits.simps)
  have d4: "formatDuration (100 * (24 * Hour)) = ''100d''"
    using calculateAge_rendering[of "100 * (24 * Hour)"]
    by (auto simp: Second_def Minute_def Hour_def itoa_def digits.simps)
  have d6: "formatDuration (200 * (24 * Hour)) = ''200d''"
    using calculateAge_rendering[of "200 * (24 * Hour)"]
    by (auto simp: Second_def Minute_def Hour_def itoa_def digits.simps)
  have d5: "formatDuration (- (25 * Hour)) = ''-90000s''"
    using calculateAge_rendering[of "- (25 * Hour)"]
    by (auto simp: Second_def Minute_def Hour_def itoa_def digits.simps)
  from a1 a2 p3 a3 a4 d1 d2 d3 d4 d5 d6 formatDuration_rounding(1) show ?thesis by blast
qed

section \<open>Aggregator: an empty table\<close>

lemma foldl_append_items:
  "foldl (\<lambda>acc item. acc @ [f item]) acc items = acc @ map f items"
  by (induction items arbitrary: acc) auto

lemma appendItems_eq:
  "appendItems allItems result =
     allItems @ (if Success result
                 then map (\<lambda>item. \<lparr> Item = item, Cluster = ClusterName result \<rparr>) (Items result)
                 else [])"
  by (simp add: appendItems_def foldl_append_items)

lemma foldl_appendItems:
  "foldl appendItems acc rs =
     acc @ concat (map (\<lambda>result. map (\<lambda>item. \<lparr> Item = item, Cluster = ClusterName result \<rparr>)
                                     (Items result)) (filter Success rs))"
  by (induction rs arbitrary: acc) (auto simp: appendItems_eq)

lemma collectItems_eq:
  "collectItems ar =
     concat (map (\<lambda>result. map (\<lambda>item. \<lparr> Item = item, Cluster = ClusterName result \<rparr>)
                               (Items result)) (filter Success (Results ar)))"
  by (simp add: collectItems_def foldl_appendItems)

lemma collectItems_empty_iff:
  "collectItems ar = [] \<longleftrightarrow> concat (map Items (filter Success (Results ar))) = []"
  by (auto simp: collectItems_eq)

lemma Results_collectRound: "Results (collectRound clusters rs) = rs"
  by (simp add: collectRound_def foldl_AddResult NewAggregatedResults_def)

lemma formatTable_no_error: "snd (formatTable rt resourceType items) = None"
  by (simp add: formatTable_def formatPods_def formatDeployments_def formatServices_def
        formatGeneric_def Let_def)

lemma AggregateGetResults_no_error: "snd (AggregateGetResults rt ar resourceType) = None"
  by (simp add: AggregateGetResults_def Let_def formatTable_no_error)

text \<open>
  C7. When the successful clusters contribute no item at all, and so when every cluster
  failed, the table aggregator writes the one line "No resources found" and returns no
  error; it returns no error for any input.
\<close>

theorem AggregateGetResults_no_resources:
  "(concat (map Items (filter Success (Results ar))) = []
      \<longrightarrow> AggregateGetResults rt ar resourceType = ([Fprintln ''No resources found''], None))
   \<and> ((\<forall>r \<in> set (Results ar). \<not> Success r)
      \<longrightarrow> AggregateGetResults rt ar resourceType = ([Fprintln ''No resources found''], None))
   \<and> snd (AggregateGetResults rt ar resourceType) = None"
proof -
  have a: "concat (map Items (filter Success (Results ar))) = []
      \<longrightarrow> AggregateGetResults rt ar resourceType = ([Fprintln ''No resources found''], None)"
  proof
    assume "concat (map Items (filter Success (Results ar))) = []"
    then have "collectItems ar = []" by (simp only: collectItems_empty_iff)
    then show "AggregateGetResults rt ar resourceType = ([Fprintln ''No resources found''], None)"
      by (simp add: AggregateGetResults_def)
  qed
  have b: "(\<forall>r \<in> set (Results ar). \<not> Success r)
      \<longrightarrow> AggregateGetResults rt ar resourceType = ([Fprintln ''No resources found''], None)"
  proof
    assume "\<forall>r \<in> set (Results ar). \<not> Success r"
    then have "filter Success (Results ar) = []" by (simp add: filter_empty_conv)
    then have "concat (map Items (filter Success (Results ar))) = []" by simp
    with a show "AggregateGetResults rt ar resourceType
        = ([Fprintln ''No resources found''], None)"
      by blast
  qed
  have c: "snd (AggregateGetResults rt ar resourceType) = None"
    by (rule AggregateGetResults_no_error)
  from a b c show ?thesis by blast
qed

theorem AggregateGetResults_no_resources_witness:
  "AggregateGetResults sampleRuntime
      (collectRound [cluster_named ''a'', cluster_named ''b'']
         [failedResult ''a'' (Some (ErrorMsg ''connection timeout'')), failedResult ''b'' None])
      ''pods'' = ([Fprintln ''No resources found''], None)
   \<and> AggregateGetResults sampleRuntime
      (collectRound [cluster_named ''a'', cluster_named ''b'']
         [okResult ''a'' [], failedResult ''b'' None])
      ''pods'' = ([Fprintln ''No resources found''], None)"
proof -
  let ?allFailed = "collectRound [cluster_named ''a'', cluster_named ''b'']
         [failedResult ''a'' (Some (ErrorMsg ''connection timeout'')), failedResult ''b'' None]"
  let ?noItems = "collectRound [cluster_named ''a'', cluster_named ''b'']
         [okResult ''a'' [], failedResult ''b'' None]"
  have f: "\<forall>r \<in> set (Results ?allFailed). \<not> Success r"
    by (simp add: Results_collectRound failedResult_def)
  have e: "concat (map Items (filter Success (Results ?noItems))) = []"
    by (simp add: Results_collectRound failedResult_def okResult_def)
  from AggregateGetResults_no_resources[of ?allFailed sampleRuntime "''pods''"] f
    AggregateGetResults_no_resources[of ?noItems sampleRuntime "''pods''"] e
  show ?thesis by blast
qed

section \<open>Aggregator: order of the table\<close>

lemma itemLess_key: "itemLess a b = (itemKey a < itemKey b)"
  by (auto simp: itemLess_def itemKey_def Let_def less_prod_def)

lemma sorted_by_key:
  "sorted_wrt (\<lambda>a b. \<not> itemLess b a) xs = sorted (map itemKey xs)"
  by (simp add: itemLess_key sorted_map not_less)

lemma mset_concat_map: "mset (concat (map f xs)) = (\<Sum>x \<in># mset xs. mset (f x))"
  by (induction xs) auto

lemma mset_collectItems:
  assumes "mset (Results ar') = mset (Results ar)"
  shows "mset (collectItems ar') = mset (collectItems ar)"
proof -
  from assms have "mset (filter Success (Results ar')) = mset (filter Success (Results ar))"
    by simp
  then show ?thesis
    unfolding collectItems_eq mset_concat_map by (rule arg_cong)
qed

lemma sorted_keys_unique:
  assumes "mset xs = mset ys"
    and "sorted (map itemKey xs)" and "sorted (map itemKey ys)"
    and "distinct (map itemKey xs)"
  shows "xs = ys"
proof -
  from assms(1) have m: "mset (map itemKey xs) = mset (map itemKey ys)" by simp
  with assms(4) have dy: "distinct (map itemKey ys)"
    by (metis mset_eq_imp_distinct_iff)
  from m have "set (map itemKey xs) = set (map itemKey ys)" by (rule mset_eq_setD)
  with assms(2,3,4) dy have keys: "map itemKey xs = map itemKey ys"
    by (intro sorted_distinct_set_unique)
  from assms(1) have "set xs = set ys" by (rule mset_eq_setD)
  moreover from assms(4) have "inj_on itemKey (set xs)" by (simp add: distinct_map)
  ultimately have "inj_on itemKey (set xs \<union> set ys)" by simp
  with keys show ?thesis by (simp add: inj_on_map_eq_map)
qed

lemma keys_collectItems: "map itemKey (collectItems ar) = successfulKeys ar"
  by (simp add: collectItems_eq successfulKeys_def map_concat comp_def itemKey_def)

lemma formatTable_keys:
  "map rowKey (tl (fst (formatTable rt resourceType items)))
     = map (\<lambda>item. shownKey rt resourceType (itemKey item)) items"
  by (auto simp: formatTable_def formatPods_def formatDeployments_def formatServices_def
        formatGeneric_def Let_def podRow_def deploymentRow_def serviceRow_def genericRow_def
        shownKey_def genericTable_def itemKey_def metaNamespace_def metaName_def
        genericNamespace_def)

lemma sorted_keys:
  assumes "sorts (sortItems rt) itemLess"
  shows "map itemKey (sortItems rt itemLess (collectItems ar)) = sort (successfulKeys ar)"
proof -
  let ?xs = "sortItems rt itemLess (collectItems ar)"
  from assms have "mset ?xs = mset (collectItems ar)" and s: "sorted (map itemKey ?xs)"
    by (simp_all add: sorts_def sorted_by_key)
  then have "mset (map itemKey ?xs) = mset (successfulKeys ar)"
    by (simp flip: keys_collectItems)
  from properties_for_sort[OF this s] show ?thesis by simp
qed

lemma mset_successfulKeys:
  assumes "mset (Results ar') = mset (Results ar)"
  shows "mset (successfulKeys ar') = mset (successfulKeys ar)"
  using mset_collectItems[OF assms] by (metis keys_collectItems mset_map)

lemma AggregateGetResults_keys:
  assumes "sorts (sortItems rt) itemLess"
  shows "map rowKey (tl (fst (AggregateGetResults rt ar resourceType)))
       = map (shownKey rt resourceType) (sort (successfulKeys ar))"
proof (cases "collectItems ar = []")
  case True
  then have "successfulKeys ar = []" by (simp flip: keys_collectItems)
  with True show ?thesis by (simp add: AggregateGetResults_def)
next
  case False
  then show ?thesis
    by (simp add: AggregateGetResults_def formatTable_keys
          sorted_keys[OF assms, symmetric] comp_def)
qed

text \<open>Insertion sort meets the promise of \<open>sort.Slice\<close> for the comparison of items.\<close>

lemma mset_insertDown: "mset (insertDown lt x ys) = add_mset x (mset ys)"
  by (induction ys) auto

lemma set_insertDown: "set (insertDown lt x ys) = insert x (set ys)"
  by (induction ys) auto

lemma sorted_insertDown:
  fixes key :: "'a \<Rightarrow> 'k::linorder"
  assumes "\<And>a b. lt a b = (key a < key b)"
    and "sorted_wrt (\<lambda>a b. key b \<le> key a) ys"
  shows "sorted_wrt (\<lambda>a b. key b \<le> key a) (insertDown lt x ys)"
  using assms(2)
  by (induction ys) (auto simp: set_insertDown assms(1))

lemma foldl_insertDown:
  "mset (foldl (\<lambda>acc x. insertDown lt x acc) acc xs) = mset acc + mset xs"
  by (induction xs arbitrary: acc) (auto simp: mset_insertDown)

lemma sorted_foldl_insertDown:
  fixes key :: "'a \<Rightarrow> 'k::linorder"
  assumes "\<And>a b. lt a b = (key a < key b)"
  shows "sorted_wrt (\<lambda>a b. key b \<le> key a) acc \<Longrightarrow>
    sorted_wrt (\<lambda>a b. key b \<le> key a) (foldl (\<lambda>acc x. insertDown lt x acc) acc xs)"
  by (induction xs arbitrary: acc) (auto simp: sorted_insertDown[OF assms])

lemma insertionSort_sorts_by_key:
  fixes key :: "'a \<Rightarrow> 'k::linorder"
  assumes "\<And>a b. lt a b = (key a < key b)"
  shows "sorts insertionSortLessFunc lt"
proof -
  have "sorted_wrt (\<lambda>a b. key a \<le> key b) (insertionSortLessFunc lt xs)" for xs
    using sorted_foldl_insertDown[OF assms, where acc = "[]" and xs = xs]
    by (simp add: insertionSortLessFunc_def sorted_wrt_rev)
  then show ?thesis
    by (simp add: sorts_def insertionSortLessFunc_def foldl_insertDown assms not_less)
qed

lemma insertionSort_sorts: "sorts insertionSortLessFunc itemLess"
  by (rule insertionSort_sorts_by_key[OF itemLess_key])

lemmas table_eval =
  AggregateGetResults_def collectItems_def appendItems_def Results_collectRound
  formatTable_def formatPods_def calculatePodColumnWidths_def podWidthStep_def podRow_def
  metaNamespace_def metaName_def widen_def nl_def calculateAge_def noneValue_def
  NestedString_def NestedSlice_def pod_item_def okResult_def failedResult_def
  sampleRuntime_def insertionSortLessFunc_def itemLess_def asciiToLower_def Let_def

lemma twin_first:
  "AggregateGetResults sampleRuntime (collectRound twin_clusters [seen_running, seen_pending])
     ''pods''
   = ([Fprintf (''%-*s %-*s %-*s %-*s %-*s %-*s %s'' @ nl)
        [D 11, S ''NAMESPACE'', D 6, S ''NAME'', D 9, S ''CLUSTER'', D 7,
         S ''READY'', D 9, S ''STATUS'', D 10, S ''RESTARTS'', S ''AGE''],
       Fprintf (''%-*s %-*s %-*s %-*s %-*s %-*d %s'' @ nl)
        [D 11, S ''ns'', D 6, S ''web'', D 9, S ''a'', D 7, S ''0/0'', D 9,
         S ''Running'', D 10, D 0, S ''<none>''],
       Fprintf (''%-*s %-*s %-*s %-*s %-*s %-*d %s'' @ nl)
        [D 11, S ''ns'', D 6, S ''web'', D 9, S ''a'', D 7, S ''0/0'', D 9,
         S ''Pending'', D 10, D 0, S ''<none>'']], None)"
  by (simp add: table_eval seen_running_def seen_pending_def)

lemma twin_second:
  "AggregateGetResults sampleRuntime (collectRound twin_clusters [seen_pending, seen_running])
     ''pods''
   = ([Fprintf (''%-*s %-*s %-*s %-*s %-*s %-*s %s'' @ nl)
        [D 11, S ''NAMESPACE'', D 6, S ''NAME'', D 9, S ''CLUSTER'', D 7,
         S ''READY'', D 9, S ''STATUS'', D 10, S ''RESTARTS'', S ''AGE''],
       Fprintf (''%-*s %-*s %-*s %-*s %-*s %-*d %s'' @ nl)
        [D 11, S ''ns'', D 6, S ''web'', D 9, S ''a'', D 7, S ''0/0'', D 9,
         S ''Pending'', D 10, D 0, S ''<none>''],
       Fprintf (''%-*s %-*s %-*s %-*s %-*s %-*d %s'' @ nl)
        [D 11, S ''ns'', D 6, S ''web'', D 9, S ''a'', D 7, S ''0/0'', D 9,
         S ''Running'', D 10, D 0, S ''<none>'']], None)"
  by (simp add: table_eval seen_running_def seen_pending_def)


lemma late_rows:
  "tl (fst (AggregateGetResults sampleRuntime
        (collectRound three_clusters [zeta_result, down_result, alpha_result]) ''pods''))
   = [Fprintf (''%-*s %-*s %-*s %-*s %-*s %-*d %s'' @ nl)
        [D 11, S ''ns-a'', D 8, S ''apple'', D 9, S ''alpha'', D 7, S ''0/0'', D 9,
         S ''Running'', D 10, D 0, S ''<none>''],
      Fprintf (''%-*s %-*s %-*s %-*s %-*s %-*d %s'' @ nl)
        [D 11, S ''ns-b'', D 8, S ''potato'', D 9, S ''zeta'', D 7, S ''0/0'', D 9,
         S ''Running'', D 10, D 0, S ''<none>'']]"
  by (simp add: table_eval alpha_result_def zeta_result_def down_result_def)

lemma early_keys:
  "sort (successfulKeys (collectRound three_clusters [alpha_result, zeta_result, down_result]))
   = [(''alpha'', ''ns-a'', ''apple''), (''zeta'', ''ns-b'', ''potato'')]"
  by (simp add: successfulKeys_def Results_collectRound alpha_result_def zeta_result_def
        down_result_def okResult_def failedResult_def NestedString_def pod_item_def)

lemma shown_pods: "shownKey sampleRuntime ''pods'' k = k"
  by (simp add: shownKey_def genericTable_def sampleRuntime_def asciiToLower_def split: prod.splits)

text \<open>
  C6, as amended. For every rearrangement of \<open>Results\<close>, the aggregator writes one
  row per item of the successful clusters, the items of failed clusters being dropped, and
  the rows show the keys (cluster name, namespace, object name) in ascending order: the
  written keys are the sorted keys, so they are the same whatever the order in which the
  results arrived. When the keys are pairwise different, the whole output is the same for
  every rearrangement.
\<close>

theorem AggregateGetResults_order:
  assumes "sorts (sortItems rt) itemLess"
    and "mset (Results ar') = mset (Results ar)"
  shows "map rowKey (tl (fst (AggregateGetResults rt ar resourceType)))
           = map (shownKey rt resourceType) (sort (successfulKeys ar))
       \<and> map rowKey (tl (fst (AggregateGetResults rt ar' resourceType)))
           = map rowKey (tl (fst (AggregateGetResults rt ar resourceType)))
       \<and> (distinct (successfulKeys ar) \<longrightarrow>
            AggregateGetResults rt ar' resourceType = AggregateGetResults rt ar resourceType)"
proof -
  let ?xs = "sortItems rt itemLess (collectItems ar)"
  let ?ys = "sortItems rt itemLess (collectItems ar')"
  note k = AggregateGetResults_keys[OF assms(1)]
  from mset_successfulKeys[OF assms(2)]
  have "sort (successfulKeys ar') = sort (successfulKeys ar)"
    by (intro properties_for_sort) simp_all
  then have same_keys: "map rowKey (tl (fst (AggregateGetResults rt ar' resourceType)))
      = map rowKey (tl (fst (AggregateGetResults rt ar resourceType)))"
    by (simp add: k)
  have same_rows: "AggregateGetResults rt ar' resourceType
      = AggregateGetResults rt ar resourceType" if d: "distinct (successfulKeys ar)"
  proof -
    from assms(1) have mx: "mset ?xs = mset (collectItems ar)"
      and my: "mset ?ys = mset (collectItems ar')"
      and sx: "sorted (map itemKey ?xs)" and sy: "sorted (map itemKey ?ys)"
      by (simp_all add: sorts_def sorted_by_key)
    note perm = mset_collectItems[OF assms(2)]
    from mx have "mset (map itemKey ?xs) = mset (map itemKey (collectItems ar))" by simp
    with d have dx: "distinct (map itemKey ?xs)"
      unfolding keys_collectItems by (metis mset_eq_imp_distinct_iff)
    from mx my perm have "mset ?xs = mset ?ys" by simp
    from sorted_keys_unique[OF this sx sy dx] have same: "?ys = ?xs" by simp
    from perm have "(collectItems ar' = []) = (collectItems ar = [])"
      by (metis mset_zero_iff)
    with same show ?thesis by (simp add: AggregateGetResults_def)
  qed
  from k same_keys same_rows show ?thesis by blast
qed

theorem AggregateGetResults_order_witness:
  "sorts (sortItems sampleRuntime) itemLess
   \<and> mset (Results (collectRound three_clusters [zeta_result, down_result, alpha_result]))
       = mset (Results (collectRound three_clusters [alpha_result, zeta_result, down_result]))
   \<and> distinct (successfulKeys
         (collectRound three_clusters [alpha_result, zeta_result, down_result]))
   \<and> map rowKey (tl (fst (AggregateGetResults sampleRuntime
         (collectRound three_clusters [alpha_result, zeta_result, down_result]) ''pods'')))
       = [(''alpha'', ''ns-a'', ''apple''), (''zeta'', ''ns-b'', ''potato'')]
   \<and> map rowKey (tl (fst (AggregateGetResults sampleRuntime
         (collectRound three_clusters [zeta_result, down_result, alpha_result]) ''pods'')))
       = [(''alpha'', ''ns-a'', ''apple''), (''zeta'', ''ns-b'', ''potato'')]
   \<and> AggregateGetResults sampleRuntime
         (collectRound three_clusters [zeta_result, down_result, alpha_result]) ''pods''
       = AggregateGetResults sampleRuntime
         (collectRound three_clusters [alpha_result, zeta_result, down_result]) ''pods''
   \<and> tl (fst (AggregateGetResults sampleRuntime
         (collectRound three_clusters [zeta_result, down_result, alpha_result]) ''pods''))
       = [Fprintf (''%-*s %-*s %-*s %-*s %-*s %-*d %s'' @ nl)
            [D 11, S ''ns-a'', D 8, S ''apple'', D 9, S ''alpha'', D 7, S ''0/0'', D 9,
             S ''Running'', D 10, D 0, S ''<none>''],
          Fprintf (''%-*s %-*s %-*s %-*s %-*s %-*d %s'' @ nl)
            [D 11, S ''ns-b'', D 8, S ''potato'', D 9, S ''zeta'', D 7, S ''0/0'', D 9,
             S ''Running'', D 10, D 0, S ''<none>'']]"
proof -
  let ?late = "collectRound three_clusters [zeta_result, down_result, alpha_result]"
  let ?early = "collectRound three_clusters [alpha_result, zeta_result, down_result]"
  have h1: "sorts (sortItems sampleRuntime) itemLess"
    using insertionSort_sorts by (simp add: sampleRuntime_def)
  have h2: "mset (Results ?late) = mset (Results ?early)"
    by (simp add: Results_collectRound)
  have h3: "distinct (successfulKeys ?early)"
    by (simp add: successfulKeys_def Results_collectRound alpha_result_def zeta_result_def
          down_result_def okResult_def failedResult_def NestedString_def pod_item_def)
  note order = AggregateGetResults_order[OF h1 h2, of "''pods''"]
  from order early_keys
  have k1: "map rowKey (tl (fst (AggregateGetResults sampleRuntime ?early ''pods'')))
      = [(''alpha'', ''ns-a'', ''apple''), (''zeta'', ''ns-b'', ''potato'')]"
    by (simp add: shown_pods)
  from order k1
  have k2: "map rowKey (tl (fst (AggregateGetResults sampleRuntime ?late ''pods'')))
      = [(''alpha'', ''ns-a'', ''apple''), (''zeta'', ''ns-b'', ''potato'')]"
    by simp
  from order h3 have same: "AggregateGetResults sampleRuntime ?late ''pods''
      = AggregateGetResults sampleRuntime ?early ''pods''"
    by blast
  from h1 h2 h3 k1 k2 same late_rows show ?thesis by blast
qed

text \<open>
  The claim as stated, for every \<open>AggregatedResults\<close>, fails when two items have the same
  key. Two results that carry the cluster name \<open>a\<close> (a directory listed across
  namespaces can hold two records of one name) each bring the pod \<open>ns/web\<close>, seen once
  as Running and once as Pending. The two items are rendered in their order of arrival:
  the first row is the Running pod in one arrangement of \<open>Results\<close> and the Pending pod
  in the other, and the second row the other way round. The keys the rows show are the
  same in both.
\<close>

theorem AggregateGetResults_order_counterexample:
  "sorts (sortItems sampleRuntime) itemLess
   \<and> mset (Results (collectRound twin_clusters [seen_pending, seen_running]))
       = mset (Results (collectRound twin_clusters [seen_running, seen_pending]))
   \<and> fst (AggregateGetResults sampleRuntime
         (collectRound twin_clusters [seen_running, seen_pending]) ''pods'') ! 1
       = Fprintf (''%-*s %-*s %-*s %-*s %-*s %-*d %s'' @ nl)
          [D 11, S ''ns'', D 6, S ''web'', D 9, S ''a'', D 7, S ''0/0'', D 9,
           S ''Running'', D 10, D 0, S ''<none>'']
   \<and> fst (AggregateGetResults sampleRuntime
         (collectRound twin_clusters [seen_pending, seen_running]) ''pods'') ! 1
       = Fprintf (''%-*s %-*s %-*s %-*s %-*s %-*d %s'' @ nl)
          [D 11, S ''ns'', D 6, S ''web'', D 9, S ''a'', D 7, S ''0/0'', D 9,
           S ''Pending'', D 10, D 0, S ''<none>'']
   \<and> fst (AggregateGetResults sampleRuntime
         (collectRound twin_clusters [seen_running, seen_pending]) ''pods'') ! 2
       = Fprintf (''%-*s %-*s %-*s %-*s %-*s %-*d %s'' @ nl)
          [D 11, S ''ns'', D 6, S ''web'', D 9, S ''a'', D 7, S ''0/0'', D 9,
           S ''Pending'', D 10, D 0, S ''<none>'']
   \<and> fst (AggregateGetResults sampleRuntime
         (collectRound twin_clusters [seen_pending, seen_running]) ''pods'') ! 2
       = Fprintf (''%-*s %-*s %-*s %-*s %-*s %-*d %s'' @ nl)
          [D 11, S ''ns'', D 6, S ''web'', D 9, S ''a'', D 7, S ''0/0'', D 9,
           S ''Running'', D 10, D 0, S ''<none>'']
   \<and> AggregateGetResults sampleRuntime
         (collectRound twin_clusters [seen_pending, seen_running]) ''pods''
       \<noteq> AggregateGetResults sampleRuntime
         (collectRound twin_clusters [seen_running, seen_pending]) ''pods''"
proof -
  have h1: "sorts (sortItems sampleRuntime) itemLess"
    using insertionSort_sorts by (simp add: sampleRuntime_def)
  have h2: "mset (Results (collectRound twin_clusters [seen_pending, seen_running]))
       = mset (Results (collectRound twin_clusters [seen_running, seen_pending]))"
    by (simp add: Results_collectRound)
  from h1 h2 show ?thesis
    by (simp add: twin_first twin_second)
qed

section \<open>Commands: reporting failure\<close>

lemma insertionSort_sorts_results: "sorts insertionSortLessFunc resultLess"
  by (rule insertionSort_sorts_by_key[where key = ClusterName]) (simp add: resultLess_def)

lemma sorts_set: "sorts srt lt \<Longrightarrow> set (srt lt xs) = set xs"
  unfolding sorts_def by (metis mset_eq_setD)

lemma describeLoop_all_failed:
  "\<forall>r \<in> set rs. \<not> Success r \<Longrightarrow> describeLoop rs h = ([], h)"
  by (induction rs arbitrary: h) auto

lemma describeLoop_has_output:
  "snd (describeLoop rs h) \<Longrightarrow> h \<or> (\<exists>r \<in> set rs. Success r)"
  by (induction rs arbitrary: h) (auto simp: Let_def split: if_splits prod.splits)

lemma collectRound_counters:
  "Successful (Summary (collectRound clusters rs)) = int (length (filter Success rs))"
  "Failed (Summary (collectRound clusters rs)) = int (length (filter (\<lambda>r. \<not> Success r) rs))"
  "Total (Summary (collectRound clusters rs)) = int (length clusters)"
  by (simp_all add: collectRound_def foldl_AddResult NewAggregatedResults_def)

lemma all_failed_counters:
  assumes "length rs = length clusters" and "clusters \<noteq> []"
  shows "(Failed (Summary (collectRound clusters rs)) > 0
          \<and> Successful (Summary (collectRound clusters rs)) = 0)
         = (\<forall>r \<in> set rs. \<not> Success r)"
    and "(Failed (Summary (collectRound clusters rs)) = Total (Summary (collectRound clusters rs)))
         = (\<forall>r \<in> set rs. \<not> Success r)"
proof -
  have none: "(length (filter Success rs) = 0) = (\<forall>r \<in> set rs. \<not> Success r)"
    by (simp add: filter_empty_conv)
  have split: "length (filter Success rs) + length (filter (\<lambda>r. \<not> Success r) rs) = length rs"
    by (rule length_filter_split)
  from assms have pos: "0 < length rs" by simp
  show "(Failed (Summary (collectRound clusters rs)) > 0
          \<and> Successful (Summary (collectRound clusters rs)) = 0)
         = (\<forall>r \<in> set rs. \<not> Success r)"
    unfolding collectRound_counters using none split pos by auto
  show "(Failed (Summary (collectRound clusters rs)) = Total (Summary (collectRound clusters rs)))
         = (\<forall>r \<in> set rs. \<not> Success r)"
    unfolding collectRound_counters using none split assms(1) by auto
qed

lemma AggregateDescribeResults_error:
  assumes "sorts (sortResults rt) resultLess"
    and "length rs = length clusters" and "clusters \<noteq> []"
  shows "(\<forall>r \<in> set rs. \<not> Success r) \<Longrightarrow>
           AggregateDescribeResults rt (collectRound clusters rs) resource
             = ([], Some (ErrorMsg (''failed to describe resource in all ''
                                     @ itoa (int (length clusters)) @ '' clusters'')))"
    and "\<not> (\<forall>r \<in> set rs. \<not> Success r) \<Longrightarrow>
           snd (AggregateDescribeResults rt (collectRound clusters rs) resource) = None"
proof -
  let ?ar = "collectRound clusters rs"
  let ?sorted = "sortResults rt resultLess (Results ?ar)"
  have st: "set ?sorted = set rs"
    using sorts_set[OF assms(1)] by (simp add: Results_collectRound)
  {
    assume f: "\<forall>r \<in> set rs. \<not> Success r"
    with st have "describeLoop ?sorted False = ([], False)"
      by (intro describeLoop_all_failed) simp
    moreover from f all_failed_counters(2)[OF assms(2,3)]
    have "Failed (Summary ?ar) = Total (Summary ?ar)" by simp
    moreover from assms(3) have "Total (Summary ?ar) > 0"
      by (simp add: collectRound_counters)
    ultimately show "AggregateDescribeResults rt ?ar resource
             = ([], Some (ErrorMsg (''failed to describe resource in all ''
                                     @ itoa (int (length clusters)) @ '' clusters'')))"
      by (simp add: AggregateDescribeResults_def collectRound_counters)
  next
    assume "\<not> (\<forall>r \<in> set rs. \<not> Success r)"
    with all_failed_counters(2)[OF assms(2,3)]
    have "Failed (Summary ?ar) \<noteq> Total (Summary ?ar)" by simp
    then show "snd (AggregateDescribeResults rt ?ar resource) = None"
      by (simp add: AggregateDescribeResults_def Let_def split: prod.splits)
  }
qed


lemma runGet_outcome:
  "runGet rt ar resource =
     (if Failed (Summary ar) > 0 \<and> Successful (Summary ar) = 0 then
        \<lparr> stdout = fst (AggregateGetResults rt ar resource),
          stderr = Fprintf (nl @ ''Error: Failed to query all %d clusters'' @ nl)
                     [D (Total (Summary ar))] # errorLines rt ar,
          returned = Some (ErrorMsg ''all clusters failed'') \<rparr>
      else \<lparr> stdout = fst (AggregateGetResults rt ar resource), stderr = [],
             returned = None \<rparr>)"
proof -
  obtain written where "AggregateGetResults rt ar resource = (written, None)"
    using AggregateGetResults_no_error[of rt ar resource]
    by (cases "AggregateGetResults rt ar resource") auto
  then show ?thesis by (simp add: runGet_def)
qed

text \<open>
  C8. For a completed round over at least one cluster, both commands return an error
  (exit status 1) exactly when every cluster failed. When every cluster failed, \<open>get\<close>
  writes the headline and the error of each cluster to standard error. \<open>describe\<close> never
  writes to standard error: when every cluster failed its aggregator has already
  returned an error, which \<open>runDescribe\<close> passes on before it reaches the lines that list
  the errors.
\<close>

theorem commands_report_failure:
  assumes "sorts (sortResults rt) resultLess"
    and "length rs = length clusters" and "clusters \<noteq> []"
  shows "(exitStatus (runGet rt (collectRound clusters rs) resource) = 1)
           = (\<forall>r \<in> set rs. \<not> Success r)
       \<and> (exitStatus (runDescribe rt (collectRound clusters rs) resource) = 1)
           = (\<forall>r \<in> set rs. \<not> Success r)
       \<and> ((\<forall>r \<in> set rs. \<not> Success r) \<longrightarrow>
            stderr (runGet rt (collectRound clusters rs) resource)
              = Fprintf (nl @ ''Error: Failed to query all %d clusters'' @ nl)
                  [D (int (length clusters))] # errorLines rt (collectRound clusters rs))
       \<and> stderr (runDescribe rt (collectRound clusters rs) resource) = []
       \<and> ((\<forall>r \<in> set rs. \<not> Success r) \<longrightarrow>
            returned (runDescribe rt (collectRound clusters rs) resource)
              = Some (ErrorMsg (''failed to aggregate results: failed to describe resource in all ''
                                 @ itoa (int (length clusters)) @ '' clusters'')))"
proof -
  let ?ar = "collectRound clusters rs"
  let ?failed = "\<forall>r \<in> set rs. \<not> Success r"
  note counters = all_failed_counters(1)[OF assms(2,3)]
  have get_exit: "(exitStatus (runGet rt ?ar resource) = 1) = ?failed"
    using counters by (simp add: runGet_outcome exitStatus_def)
  have total: "Total (Summary ?ar) = int (length clusters)"
    by (simp add: collectRound_counters)
  have get_err: "?failed \<longrightarrow> stderr (runGet rt ?ar resource)
      = Fprintf (nl @ ''Error: Failed to query all %d clusters'' @ nl)
          [D (int (length clusters))] # errorLines rt ?ar"
    using counters total by (simp add: runGet_outcome)
  have describe: "(exitStatus (runDescribe rt ?ar resource) = 1) = ?failed
      \<and> stderr (runDescribe rt ?ar resource) = []
      \<and> (?failed \<longrightarrow> returned (runDescribe rt ?ar resource)
              = Some (ErrorMsg (''failed to aggregate results: failed to describe resource in all ''
                                 @ itoa (int (length clusters)) @ '' clusters'')))"
  proof (cases ?failed)
    case True
    from AggregateDescribeResults_error(1)[OF assms True, of resource] True
    show ?thesis by (simp add: runDescribe_def exitStatus_def wrap_def)
  next
    case False
    obtain written where "AggregateDescribeResults rt ?ar resource = (written, None)"
      using AggregateDescribeResults_error(2)[OF assms False, of resource]
      by (cases "AggregateDescribeResults rt ?ar resource") auto
    with False counters show ?thesis by (simp add: runDescribe_def exitStatus_def)
  qed
  from get_exit get_err describe show ?thesis by blast
qed

theorem commands_report_failure_witness:
  "sorts (sortResults sampleRuntime) resultLess
   \<and> runDescribe sampleRuntime both_down ''pod''
       = \<lparr> stdout = [], stderr = [],
           returned = Some (ErrorMsg
             ''failed to aggregate results: failed to describe resource in all 2 clusters'') \<rparr>
   \<and> exitStatus (runGet sampleRuntime both_down ''pod'') = 1
   \<and> stdout (runGet sampleRuntime both_down ''pod'') = [Fprintln ''No resources found'']
   \<and> stderr (runGet sampleRuntime both_down ''pod'')
       = [Fprintf (nl @ ''Error: Failed to query all %d clusters'' @ nl) [D 2],
          Fprintf (''  - %s: %v'' @ nl)
            [S ''a'', S ''failed to get resource: context deadline exceeded''],
          Fprintf (''  - %s: %v'' @ nl)
            [S ''b'', S ''no kubeconfig context mapped for cluster b'']]"
proof -
  let ?clusters = "[cluster_named ''a'', cluster_named ''b'']"
  let ?rs = "[failedResult ''b'' (Some (ErrorMsg ''no kubeconfig context mapped for cluster b'')),
        failedResult ''a'' (Some (ErrorMsg ''failed to get resource: context deadline exceeded''))]"
  have h1: "sorts (sortResults sampleRuntime) resultLess"
    using insertionSort_sorts_results by (simp add: sampleRuntime_def)
  have h2: "length ?rs = length ?clusters" and h3: "?clusters \<noteq> []" by simp_all
  have f: "\<forall>r \<in> set ?rs. \<not> Success r" by (simp add: failedResult_def)
  note report = commands_report_failure[OF h1 h2 h3, of "''pod''", folded both_down_def]
  have out: "stdout (runDescribe sampleRuntime both_down ''pod'') = []"
    using AggregateDescribeResults_error(1)[OF h1 h2 h3 f, of "''pod''", folded both_down_def]
    by (simp add: runDescribe_def)
  from report f have "stderr (runDescribe sampleRuntime both_down ''pod'') = []"
    and "returned (runDescribe sampleRuntime both_down ''pod'')
       = Some (ErrorMsg (''failed to aggregate results: failed to describe resource in all ''
                          @ itoa (int (length ?clusters)) @ '' clusters''))"
    by blast+
  with out have d: "runDescribe sampleRuntime both_down ''pod''
       = \<lparr> stdout = [], stderr = [],
           returned = Some (ErrorMsg
             ''failed to aggregate results: failed to describe resource in all 2 clusters'') \<rparr>"
    by (simp add: itoa_def digits.simps)
  from report f have g1: "exitStatus (runGet sampleRuntime both_down ''pod'') = 1" by blast
  have dom: "dom (Errors (Summary both_down)) = {''a'', ''b''}"
    by (auto simp: both_down_def collectRound_def NewAggregatedResults_def AddResult_def
          failedResult_def)
  have lines: "errorLines sampleRuntime both_down
       = [Fprintf (''  - %s: %v'' @ nl)
            [S ''a'', S ''failed to get resource: context deadline exceeded''],
          Fprintf (''  - %s: %v'' @ nl)
            [S ''b'', S ''no kubeconfig context mapped for cluster b'']]"
    unfolding errorLines_def
    by (simp add: dom sampleRuntime_def)
       (simp add: both_down_def collectRound_def NewAggregatedResults_def AddResult_def
          failedResult_def)
  from report f lines have g2: "stderr (runGet sampleRuntime both_down ''pod'')
       = [Fprintf (nl @ ''Error: Failed to query all %d clusters'' @ nl) [D 2],
          Fprintf (''  - %s: %v'' @ nl)
            [S ''a'', S ''failed to get resource: context deadline exceeded''],
          Fprintf (''  - %s: %v'' @ nl)
            [S ''b'', S ''no kubeconfig context mapped for cluster b'']]"
    by simp
  have g3: "stdout (runGet sampleRuntime both_down ''pod'') = [Fprintln ''No resources found'']"
    by (simp add: runGet_outcome AggregateGetResults_def collectItems_eq both_down_def
          Results_collectRound failedResult_def)
  from h1 d g1 g3 g2 show ?thesis by blast
qed

end
